(* ===== verification/RCP_Prelude.thy ===== *)
theory RCP_Prelude
  imports Complex_Main "HOL-Library.Char_ord" "HOL-Library.List_Lexorder" "HOL-Library.Multiset"
begin

text \<open>
  What every component of the platform shares: the names of the model's basic types, relational
  tables as lists of rows with the three SQL access patterns the services use (primary-key
  lookup, guarded \<open>UPDATE\<close>, counting \<open>SELECT\<close>), the error monad over sums in which every
  raise is a value, and the lemma collections the component theories extend.

  A UUID is a natural number. \<open>uuid.uuid4()\<close> is a counter kept in the state of the service that
  draws it, so two draws never collide; \<open>datetime.now(timezone.utc)\<close> is an argument of the
  operation that reads the clock, an integer number of microseconds.
\<close>

type_synonym uuid = nat
type_synonym timestamp = int

named_theorems table_simps \<open>rewriting of table lookups, updates and counts\<close>
named_theorems result_simps \<open>rewriting of the error monad\<close>

section \<open>Results: an error or a value\<close>

text \<open>\<open>collect f xs\<close> is the list comprehension \<open>[f(x) for x in xs]\<close> when \<open>f\<close> may raise: the first
  error ends it.\<close>

fun collect :: "('a \<Rightarrow> 'e + 'b) \<Rightarrow> 'a list \<Rightarrow> 'e + 'b list" where
  "collect f [] = Inr []"
| "collect f (x # xs) =
     (case f x of
        Inl e \<Rightarrow> Inl e
      | Inr y \<Rightarrow> (case collect f xs of Inl e \<Rightarrow> Inl e | Inr ys \<Rightarrow> Inr (y # ys)))"

text \<open>Sequencing of two steps that may raise.\<close>

definition andthen :: "'e + 'a \<Rightarrow> ('a \<Rightarrow> 'e + 'b) \<Rightarrow> 'e + 'b" where
  "andthen x f = (case x of Inl e \<Rightarrow> Inl e | Inr v \<Rightarrow> f v)"

section \<open>Tables\<close>

text \<open>\<open>db.get(Model, k)\<close> and \<open>select(..).where(key == k)\<close> on a unique key.\<close>

definition row_get :: "('r \<Rightarrow> 'k) \<Rightarrow> 'k \<Rightarrow> 'r list \<Rightarrow> 'r option" where
  "row_get key k rows = find (\<lambda>r. key r = k) rows"

text \<open>\<open>UPDATE .. SET f WHERE p\<close>; assigning attributes of one loaded object is the instance whose
  condition is equality of the primary key.\<close>

definition row_upd :: "('r \<Rightarrow> bool) \<Rightarrow> ('r \<Rightarrow> 'r) \<Rightarrow> 'r list \<Rightarrow> 'r list" where
  "row_upd p f rows = map (\<lambda>r. if p r then f r else r) rows"

text \<open>\<open>SELECT count(..) WHERE p\<close>, and the \<open>rowcount\<close> of an \<open>UPDATE\<close> with condition \<open>p\<close>.\<close>

definition row_count :: "('r \<Rightarrow> bool) \<Rightarrow> 'r list \<Rightarrow> nat" where
  "row_count p rows = length (filter p rows)"

section \<open>Facts about results\<close>

lemma andthen_simps [simp]: "andthen (Inl e) f = Inl e" "andthen (Inr v) f = f v"
  by (simp_all add: andthen_def)

lemma andthen_Inr [result_simps]: "andthen x f = Inr y \<longleftrightarrow> (\<exists>v. x = Inr v \<and> f v = Inr y)"
  by (cases x) auto

lemma collect_Inr_length [result_simps]:
  "collect f xs = Inr ys \<Longrightarrow> length ys = length xs"
  by (induction xs arbitrary: ys) (auto split: sum.splits)

lemma collect_Inr_iff:
  "collect f xs = Inr ys \<longleftrightarrow> list_all2 (\<lambda>x y. f x = Inr y) xs ys"
proof (induction xs arbitrary: ys)
  case Nil
  then show ?case by auto
next
  case (Cons x xs)
  show ?case
  proof (cases "collect f xs")
    case (Inl e)
    then have "\<not> list_all2 (\<lambda>x y. f x = Inr y) xs zs" for zs
      using Cons.IH [of zs] by simp
    with Inl show ?thesis by (cases ys) (auto split: sum.splits)
  next
    case (Inr zs)
    then have "list_all2 (\<lambda>x y. f x = Inr y) xs ws \<longleftrightarrow> ws = zs" for ws
      using Cons.IH [of ws] by auto
    with Inr show ?thesis by (cases ys) (auto split: sum.splits)
  qed
qed

lemma collect_Inr_ex:
  "(\<forall>x \<in> set xs. \<exists>y. f x = Inr y) \<Longrightarrow> \<exists>ys. collect f xs = Inr ys"
  by (induction xs) (auto split: sum.splits)

lemma collect_Inr_source:
  "collect f xs = Inr ys \<Longrightarrow> y \<in> set ys \<Longrightarrow> \<exists>x \<in> set xs. f x = Inr y"
  by (induction xs arbitrary: ys) (auto split: sum.splits)

lemma collect_inverse:
  assumes "collect f xs = Inr ys" and "\<And>x y. x \<in> set xs \<Longrightarrow> f x = Inr y \<Longrightarrow> g y = x"
  shows "map g ys = xs"
proof -
  from assms(1) have "list_all2 (\<lambda>x y. f x = Inr y) xs ys" by (simp add: collect_Inr_iff)
  then show ?thesis using assms(2)
    by (induction xs ys rule: list_all2_induct) simp_all
qed

lemma collect_map_id:
  "(\<And>x. x \<in> set xs \<Longrightarrow> f (g x) = Inr x) \<Longrightarrow> collect f (map g xs) = Inr xs"
  by (induction xs) auto

section \<open>Facts about tables\<close>

lemma row_get_Nil [simp]: "row_get key k [] = None"
  by (simp add: row_get_def)

lemma row_get_Cons [simp]:
  "row_get key k (r # rows) = (if key r = k then Some r else row_get key k rows)"
  by (simp add: row_get_def)

lemma row_get_append [table_simps]:
  "row_get key k (xs @ ys) = (case row_get key k xs of None \<Rightarrow> row_get key k ys | Some r \<Rightarrow> Some r)"
  by (induction xs) auto

lemma row_get_Some: "row_get key k rows = Some r \<Longrightarrow> r \<in> set rows \<and> key r = k"
  by (induction rows) (auto split: if_splits)

lemma row_get_None_iff: "row_get key k rows = None \<longleftrightarrow> k \<notin> key ` set rows"
  by (induction rows) auto

lemma row_get_member:
  "r \<in> set rows \<Longrightarrow> distinct (map key rows) \<Longrightarrow> row_get key (key r) rows = Some r"
  by (induction rows) (auto simp: rev_image_eqI)

lemma row_get_unique:
  "distinct (map key rows) \<Longrightarrow> row_get key k rows = Some r \<longleftrightarrow> r \<in> set rows \<and> key r = k"
  using row_get_member row_get_Some by fastforce

lemma row_upd_Nil [simp]: "row_upd p f [] = []"
  by (simp add: row_upd_def)

lemma row_upd_Cons [simp]: "row_upd p f (r # rows) = (if p r then f r else r) # row_upd p f rows"
  by (simp add: row_upd_def)

lemma row_upd_append [table_simps]: "row_upd p f (xs @ ys) = row_upd p f xs @ row_upd p f ys"
  by (simp add: row_upd_def)

lemma length_row_upd [simp]: "length (row_upd p f rows) = length rows"
  by (simp add: row_upd_def)

lemma set_row_upd: "set (row_upd p f rows) = (\<lambda>r. if p r then f r else r) ` set rows"
  by (simp add: row_upd_def)

lemma ball_row_upd [table_simps]:
  "(\<forall>x \<in> set (row_upd p f rows). Q x) = (\<forall>r \<in> set rows. Q (if p r then f r else r))"
  by (induction rows) auto

lemma bex_row_upd [table_simps]:
  "(\<exists>x \<in> set (row_upd p f rows). Q x) = (\<exists>r \<in> set rows. Q (if p r then f r else r))"
  by (induction rows) auto

lemma map_key_row_upd [table_simps]:
  "(\<And>r. key (f r) = key r) \<Longrightarrow> map key (row_upd p f rows) = map key rows"
  by (induction rows) auto

lemma row_get_row_upd [table_simps]:
  "(\<And>r. key (f r) = key r) \<Longrightarrow>
   row_get key k (row_upd p f rows) =
     map_option (\<lambda>r. if p r then f r else r) (row_get key k rows)"
  by (induction rows) auto

lemma find_row_upd_other:
  "(\<And>r. p r \<Longrightarrow> \<not> P r \<and> \<not> P (f r)) \<Longrightarrow> find P (row_upd p f rows) = find P rows"
  by (induction rows) auto

lemma row_upd_none: "(\<And>r. r \<in> set rows \<Longrightarrow> \<not> p r) \<Longrightarrow> row_upd p f rows = rows"
  by (induction rows) auto

lemma row_upd_cong:
  "(\<And>r. r \<in> set rows \<Longrightarrow> p r = q r) \<Longrightarrow> row_upd p f rows = row_upd q f rows"
  by (induction rows) auto

lemma row_upd_fun_cong:
  "(\<And>r. r \<in> set rows \<Longrightarrow> p r \<Longrightarrow> f r = g r) \<Longrightarrow> row_upd p f rows = row_upd p g rows"
  by (induction rows) auto

lemma row_upd_row_upd:
  "(\<And>r. p r \<Longrightarrow> p (f r)) \<Longrightarrow> row_upd p g (row_upd p f rows) = row_upd p (\<lambda>r. g (f r)) rows"
  by (induction rows) auto

lemma image_key_row_upd [table_simps]:
  "(\<And>r. key (f r) = key r) \<Longrightarrow> key ` set (row_upd p f rows) = key ` set rows"
  by (metis image_set map_key_row_upd)

lemma row_count_Nil [simp]: "row_count p [] = 0"
  by (simp add: row_count_def)

lemma row_count_Cons [simp]: "row_count p (r # rows) = (if p r then 1 else 0) + row_count p rows"
  by (simp add: row_count_def)

lemma row_count_append [table_simps]: "row_count p (xs @ ys) = row_count p xs + row_count p ys"
  by (simp add: row_count_def)

lemma row_count_0_iff: "row_count p rows = 0 \<longleftrightarrow> (\<forall>r \<in> set rows. \<not> p r)"
  by (auto simp: row_count_def filter_empty_conv)

lemma row_count_cong:
  "(\<And>r. r \<in> set rows \<Longrightarrow> p r = q r) \<Longrightarrow> row_count p rows = row_count q rows"
  by (induction rows) auto

text \<open>A predicate the update does not touch keeps its count.\<close>

lemma row_count_row_upd_same:
  "(\<And>r. r \<in> set rows \<Longrightarrow> q r \<Longrightarrow> p (f r) = p r) \<Longrightarrow> row_count p (row_upd q f rows) = row_count p rows"
  by (induction rows) auto

text \<open>An update that turns exactly one row from \<open>\<not> p\<close> to \<open>p\<close> raises the count by one.\<close>

lemma row_count_row_upd_one:
  assumes "distinct (map key rows)" "r \<in> set rows" "\<not> p r" "p (f r)"
  shows "row_count p (row_upd (\<lambda>x. key x = key r) f rows) = Suc (row_count p rows)"
  using assms
proof (induction rows)
  case Nil
  then show ?case by simp
next
  case (Cons x xs)
  show ?case
  proof (cases "key x = key r")
    case True
    with Cons.prems have "x = r" by (auto simp: rev_image_eqI)
    moreover from Cons.prems True have "row_upd (\<lambda>x. key x = key r) f xs = xs"
      by (intro row_upd_none) (auto simp: rev_image_eqI)
    ultimately show ?thesis using Cons.prems True by simp
  next
    case False
    with Cons show ?thesis by auto
  qed
qed

lemma row_count_le_if: "(\<And>r. r \<in> set rows \<Longrightarrow> p r \<Longrightarrow> q r) \<Longrightarrow> row_count p rows \<le> row_count q rows"
  by (induction rows) auto

lemmas table_facts = row_get_append row_upd_append row_count_append set_row_upd

section \<open>Facts about lists\<close>

lemma set_sort_remdups [simp]: "set (sort (remdups xs)) = set xs"
  by simp

lemma sort_remdups_subset_insort: "sort (remdups (sort (remdups xs))) = sort (remdups xs)"
  by (simp add: distinct_remdups_id sorted_sort_id)

lemma sorted_take_drop:
  assumes "sorted (map f xs)" "a \<in> set (take n xs)" "b \<in> set (drop n xs)"
  shows "f a \<le> f b"
proof -
  have "sorted (map f (take n xs) @ map f (drop n xs))"
    using assms(1) by (metis append_take_drop_id map_append)
  then show ?thesis using assms(2,3) unfolding sorted_append by simp
qed

lemma in_take_or_drop: "x \<in> set xs \<Longrightarrow> x \<in> set (take n xs) \<or> x \<in> set (drop n xs)"
  by (metis Un_iff append_take_drop_id set_append)

section \<open>Aggregation\<close>

text \<open>\<open>SELECT f, count(*) GROUP BY f\<close>.\<close>

definition group_counts :: "('r \<Rightarrow> 'k) \<Rightarrow> 'r list \<Rightarrow> ('k \<times> nat) list" where
  "group_counts f rows = map (\<lambda>k. (k, row_count (\<lambda>r. f r = k) rows)) (remdups (map f rows))"

definition count_of :: "('k \<times> nat) list \<Rightarrow> 'k \<Rightarrow> nat" where
  "count_of groups k = (case map_of groups k of None \<Rightarrow> 0 | Some n \<Rightarrow> n)"

lemma sum_indicator: "distinct ks \<Longrightarrow> sum_list (map (\<lambda>k. if x = k then 1 else (0::nat)) ks) = (if x \<in> set ks then 1 else 0)"
  by (induction ks) auto

lemma sum_row_counts:
  "distinct ks \<Longrightarrow> sum_list (map (\<lambda>k. row_count (\<lambda>r. f r = k) rows) ks) = row_count (\<lambda>r. f r \<in> set ks) rows"
  by (induction rows) (simp_all add: sum_list_addf sum_indicator)

lemma row_count_all: "row_count (\<lambda>r. f r \<in> f ` set rows) rows = length rows"
proof -
  have "filter (\<lambda>r. f r \<in> f ` set rows) rows = rows" by (rule filter_True) simp
  then show ?thesis by (simp add: row_count_def)
qed

lemma group_counts_total: "sum_list (map snd (group_counts f rows)) = length rows"
  by (simp add: group_counts_def comp_def sum_row_counts row_count_all)

lemma map_of_map_pair: "map_of (map (\<lambda>k. (k, g k)) ks) k = (if k \<in> set ks then Some (g k) else None)"
  by (induction ks) auto

lemma count_of_group_counts: "count_of (group_counts f rows) k = row_count (\<lambda>r. f r = k) rows"
  by (auto simp: count_of_def group_counts_def map_of_map_pair row_count_0_iff)

lemma row_count_split:
  "(\<And>r. r \<in> set rows \<Longrightarrow> p r \<longleftrightarrow> q r \<or> q' r) \<Longrightarrow> (\<And>r. r \<in> set rows \<Longrightarrow> \<not> (q r \<and> q' r)) \<Longrightarrow>
   row_count p rows = row_count q rows + row_count q' rows"
  by (induction rows) auto

end
