(* ===== verification/Py_Value.thy ===== *)
theory Py_Value
  imports RCP_Prelude "HOL-Library.Countable"
begin

text \<open>
  The fragment of Python the services compute with: JSON values as \<open>json.loads\<close> builds them,
  truthiness, iteration, dictionary access, and the string methods \<open>strip\<close>, \<open>lower\<close>, \<open>replace\<close>,
  \<open>startswith\<close> and \<open>sorted\<close>. A string is a list of code points below 256.

  Two JSON strings have constructors of their own: \<open>JUuid u\<close> is the string \<open>str(u)\<close> of a UUID and
  \<open>JTime t\<close> the string \<open>t.isoformat()\<close> of a timestamp. \<open>uuid.UUID\<close> and \<open>datetime.fromisoformat\<close>
  invert them, as their documentation promises; a \<open>JStr\<close> is a string neither of them accepts.
\<close>

section \<open>Numbers\<close>

text \<open>A Python float is a rational number, an infinity or not-a-number. Comparison of an int with a
  float is exact in Python, so it is comparison of rationals.\<close>

datatype pyfloat = Fin rat | PInf | NInf | NaN

text \<open>The order of Python numbers.\<close>

fun num_less :: "pyfloat \<Rightarrow> pyfloat \<Rightarrow> bool" where
  "num_less (Fin a) (Fin b) = (a < b)"
| "num_less (Fin a) PInf = True"
| "num_less NInf (Fin b) = True"
| "num_less NInf PInf = True"
| "num_less _ _ = False"

section \<open>JSON\<close>

datatype json =
    JNull
  | JBool bool
  | JInt int
  | JFloat pyfloat
  | JStr string
  | JUuid uuid
  | JTime timestamp
  | JArr "json list"
  | JObj "(string \<times> json) list"

instance pyfloat :: countable
  by countable_datatype

instance json :: countable
  by countable_datatype

text \<open>The exceptions the modelled code can meet; \<open>DatabaseError\<close> is a value a column refuses.\<close>

datatype py_error = ValueError | TypeError | KeyError string | AttributeError | OverflowError | DatabaseError

text \<open>\<open>bool(v)\<close>.\<close>

fun truthy :: "json \<Rightarrow> bool" where
  "truthy JNull = False"
| "truthy (JBool b) = b"
| "truthy (JInt i) = (i \<noteq> 0)"
| "truthy (JFloat f) = (f \<noteq> Fin 0)"
| "truthy (JStr s) = (s \<noteq> [])"
| "truthy (JUuid u) = True"
| "truthy (JTime t) = True"
| "truthy (JArr xs) = (xs \<noteq> [])"
| "truthy (JObj d) = (d \<noteq> [])"

text \<open>\<open>isinstance(v, str)\<close>.\<close>

fun is_str :: "json \<Rightarrow> bool" where
  "is_str (JStr s) = True"
| "is_str (JUuid u) = True"
| "is_str (JTime t) = True"
| "is_str _ = False"

text \<open>\<open>d.get(k)\<close> on a dictionary, \<open>None\<close> when the key is absent; \<open>d.get(k, default)\<close>.\<close>

definition dget :: "(string \<times> 'v) list \<Rightarrow> string \<Rightarrow> 'v option" where
  "dget d k = map_of d k"

definition dget_default :: "(string \<times> 'v) list \<Rightarrow> string \<Rightarrow> 'v \<Rightarrow> 'v" where
  "dget_default d k v = (case map_of d k of None \<Rightarrow> v | Some x \<Rightarrow> x)"

text \<open>\<open>d[k]\<close>: KeyError when the key is absent.\<close>

definition dindex :: "(string \<times> json) list \<Rightarrow> string \<Rightarrow> py_error + json" where
  "dindex d k = (case map_of d k of None \<Rightarrow> Inl (KeyError k) | Some v \<Rightarrow> Inr v)"

text \<open>\<open>iter(v)\<close>: a list gives its items, a string its characters, a dictionary its keys.\<close>

fun py_iter :: "json \<Rightarrow> py_error + json list" where
  "py_iter (JArr xs) = Inr xs"
| "py_iter (JStr s) = Inr (map (\<lambda>c. JStr [c]) s)"
| "py_iter (JObj d) = Inr (map (\<lambda>kv. JStr (fst kv)) d)"
| "py_iter _ = Inl TypeError"

text \<open>\<open>uuid.UUID(v)\<close> and \<open>datetime.fromisoformat(v)\<close>. A value that is no string raises
  AttributeError in the first and TypeError in the second.\<close>

fun uuid_of :: "json \<Rightarrow> py_error + uuid" where
  "uuid_of (JUuid u) = Inr u"
| "uuid_of (JStr s) = Inl ValueError"
| "uuid_of (JTime t) = Inl ValueError"
| "uuid_of _ = Inl AttributeError"

fun fromisoformat :: "json \<Rightarrow> py_error + timestamp" where
  "fromisoformat (JTime t) = Inr t"
| "fromisoformat (JStr s) = Inl ValueError"
| "fromisoformat (JUuid u) = Inl ValueError"
| "fromisoformat _ = Inl TypeError"

text \<open>\<open>str(u) if u else None\<close>, \<open>s if s is not None else None\<close> and their kind, as JSON.\<close>

definition json_opt :: "('a \<Rightarrow> json) \<Rightarrow> 'a option \<Rightarrow> json" where
  "json_opt f v = (case v of None \<Rightarrow> JNull | Some x \<Rightarrow> f x)"

text \<open>Writing a JSON value to a text column, a nullable text column, a boolean column and an array of
  text. Text columns of the model hold ordinary strings.\<close>

fun col_str :: "json \<Rightarrow> py_error + string" where
  "col_str (JStr s) = Inr s"
| "col_str _ = Inl DatabaseError"

fun col_str_opt :: "json \<Rightarrow> py_error + string option" where
  "col_str_opt JNull = Inr None"
| "col_str_opt (JStr s) = Inr (Some s)"
| "col_str_opt _ = Inl DatabaseError"

fun col_bool :: "json \<Rightarrow> py_error + bool" where
  "col_bool (JBool b) = Inr b"
| "col_bool _ = Inl DatabaseError"

definition col_strs :: "json \<Rightarrow> py_error + string list" where
  "col_strs v = (case v of JArr xs \<Rightarrow> collect col_str xs | _ \<Rightarrow> Inl DatabaseError)"

section \<open>Strings\<close>

text \<open>\<open>str.isspace\<close> on the code points below 256.\<close>

definition is_space :: "char \<Rightarrow> bool" where
  "is_space c = (let n = of_char c :: nat in
     (9 \<le> n \<and> n \<le> 13) \<or> (28 \<le> n \<and> n \<le> 32) \<or> n = 133 \<or> n = 160)"

definition strip :: "string \<Rightarrow> string" where
  "strip s = rev (dropWhile is_space (rev (dropWhile is_space s)))"

text \<open>\<open>str.lower\<close> on the code points below 256.\<close>

definition lower_char :: "char \<Rightarrow> char" where
  "lower_char c = (let n = of_char c :: nat in
     if (65 \<le> n \<and> n \<le> 90) \<or> (192 \<le> n \<and> n \<le> 222 \<and> n \<noteq> 215) then char_of (n + 32) else c)"

definition lower :: "string \<Rightarrow> string" where
  "lower s = map lower_char s"

text \<open>\<open>s.replace(a, b)\<close> for single characters.\<close>

definition replace_char :: "char \<Rightarrow> char \<Rightarrow> string \<Rightarrow> string" where
  "replace_char a b s = map (\<lambda>c. if c = a then b else c) s"

definition startswith :: "string \<Rightarrow> string \<Rightarrow> bool" where
  "startswith s p = (take (length p) s = p)"

text \<open>\<open>s.rstrip(ch)\<close> for a single character.\<close>

definition rstrip_char :: "char \<Rightarrow> string \<Rightarrow> string" where
  "rstrip_char ch s = rev (dropWhile (\<lambda>c. c = ch) (rev s))"

text \<open>\<open>s.split(sep)\<close> for a separator of one character.\<close>

fun split_on :: "char \<Rightarrow> string \<Rightarrow> string list" where
  "split_on sep [] = [[]]"
| "split_on sep (c # cs) =
     (if c = sep then [] # split_on sep cs
      else (case split_on sep cs of [] \<Rightarrow> [[c]] | w # ws \<Rightarrow> (c # w) # ws))"

text \<open>\<open>sorted(set(xs))\<close>.\<close>

definition sorted_set :: "'a::linorder list \<Rightarrow> 'a list" where
  "sorted_set xs = sort (remdups xs)"

section \<open>Facts\<close>

lemma dget_Nil [simp]: "dget [] k = None"
  by (simp add: dget_def)

lemma dget_Cons [simp]: "dget ((k', v) # d) k = (if k = k' then Some v else dget d k)"
  by (simp add: dget_def)

lemma dget_append: "dget (xs @ ys) k = (case dget xs k of None \<Rightarrow> dget ys k | Some v \<Rightarrow> Some v)"
  by (simp add: dget_def map_add_def split: option.split)

lemma dindex_Cons [simp]: "dindex ((k', v) # d) k = (if k = k' then Inr v else dindex d k)"
  by (simp add: dindex_def)

lemma dget_default_Nil [simp]: "dget_default [] k v = v"
  by (simp add: dget_default_def)

lemma dget_default_Cons [simp]:
  "dget_default ((k', v') # d) k v = (if k = k' then v' else dget_default d k v)"
  by (simp add: dget_default_def)

lemma json_opt_simps [simp]: "json_opt f None = JNull" "json_opt f (Some x) = f x"
  by (simp_all add: json_opt_def)

lemma set_sorted_set [simp]: "set (sorted_set xs) = set xs"
  by (simp add: sorted_set_def)

lemma sorted_sorted_set [simp]: "sorted (sorted_set xs)"
  by (simp add: sorted_set_def)

lemma distinct_sorted_set [simp]: "distinct (sorted_set xs)"
  by (simp add: sorted_set_def)

lemma sorted_set_unique: "set xs = set ys \<Longrightarrow> sorted_set xs = sorted_set ys"
  by (rule sorted_distinct_set_unique) simp_all

lemma dropWhile_idem [simp]: "dropWhile P (dropWhile P xs) = dropWhile P xs"
  by (induction xs) auto

text \<open>Stripping from the right leaves a string that starts with no space starting with none.\<close>

lemma strip_strip [simp]: "strip (strip s) = strip s"
proof -
  define t where "t = dropWhile is_space s"
  define u where "u = rev (dropWhile is_space (rev t))"
  have t: "t = [] \<or> \<not> is_space (hd t)"
    unfolding t_def by (metis hd_dropWhile)
  obtain w where w: "t = u @ w" and wsp: "w = rev (takeWhile is_space (rev t))"
    unfolding u_def by (metis rev_append rev_rev_ident takeWhile_dropWhile_id)
  have "u = [] \<or> \<not> is_space (hd u)"
    using t w by (cases u) auto
  then have "dropWhile is_space u = u"
    by (cases u) auto
  then have "strip u = u"
    by (simp add: strip_def u_def)
  then show ?thesis
    by (simp add: strip_def u_def t_def)
qed

lemma strip_Nil [simp]: "strip [] = []"
  by (simp add: strip_def)

lemma length_strip: "length (strip s) \<le> length s"
proof -
  have "length (dropWhile is_space (rev (dropWhile is_space s))) \<le> length s"
    by (metis length_dropWhile_le length_rev order_trans)
  then show ?thesis by (simp add: strip_def)
qed

lemma length_lower [simp]: "length (lower s) = length s"
  by (simp add: lower_def)

lemma lower_char_idem [simp]: "lower_char (lower_char c) = lower_char c"
proof -
  have "(of_char c :: nat) < 256" by simp
  then show ?thesis
    by (auto simp: lower_char_def Let_def)
qed

lemma lower_lower [simp]: "lower (lower s) = lower s"
  by (simp add: lower_def)

lemma split_on_ne [simp]: "split_on sep s \<noteq> []"
  by (induction s) (auto split: list.splits)

lemma split_on_append: "split_on sep (s @ sep # t) = split_on sep s @ split_on sep t"
  by (induction s) (auto split: list.splits)

lemma split_on_plain: "sep \<notin> set w \<Longrightarrow> split_on sep w = [w]"
  by (induction w) auto

lemma split_on_chars: "w \<in> set (split_on sep s) \<Longrightarrow> set w \<subseteq> set s"
  by (induction s arbitrary: w) (fastforce split: if_splits list.splits)+

lemma split_on_no_sep: "w \<in> set (split_on sep s) \<Longrightarrow> sep \<notin> set w"
  by (induction s arbitrary: w) (fastforce split: if_splits list.splits)+

lemma split_on_inj: "split_on sep s = split_on sep t \<Longrightarrow> s = t"
proof (induction s arbitrary: t)
  case Nil
  then show ?case using split_on_ne by (cases t) (auto split: if_splits list.splits dest: sym)
next
  case (Cons c cs)
  then show ?case by (cases t) (auto split: if_splits list.splits)
qed

lemma rstrip_padding: "list_all (\<lambda>c. c \<noteq> ch) s \<Longrightarrow> rstrip_char ch (s @ replicate p ch) = s"
proof -
  assume s: "list_all (\<lambda>c. c \<noteq> ch) s"
  have "dropWhile (\<lambda>c. c = ch) (replicate p ch @ rev s) = dropWhile (\<lambda>c. c = ch) (rev s)"
    by (induction p) auto
  moreover have "dropWhile (\<lambda>c. c = ch) (rev s) = rev s"
    using s by (cases s rule: rev_cases) auto
  ultimately show ?thesis by (simp add: rstrip_char_def)
qed

end
