(* ===== verification/Workflow.thy ===== *)
theory Workflow
  imports Py_Value "HOL-Library.AList"
begin

text \<open>
  \<open>services/logistics/app/services/workflow.py\<close>: the state-machine half of the customizable
  workflow engine. A category's workflow is a JSON object checked and normalised by
  \<open>validate_definition\<close> when it is written and read back by \<open>initial_status\<close> and \<open>allowed_next\<close>
  when a request is created or moved. The request states are the enum \<open>RequestStatus\<close> of
  \<open>services/logistics/app/models/request.py\<close>.
\<close>

section \<open>Request states\<close>

datatype request_status =
  PENDING | VERIFIED | APPROVED | IN_PROGRESS | FULFILLED | REJECTED | CANCELLED

fun status_value :: "request_status \<Rightarrow> string" where
  "status_value PENDING = ''pending''"
| "status_value VERIFIED = ''verified''"
| "status_value APPROVED = ''approved''"
| "status_value IN_PROGRESS = ''in_progress''"
| "status_value FULFILLED = ''fulfilled''"
| "status_value REJECTED = ''rejected''"
| "status_value CANCELLED = ''cancelled''"

definition all_statuses :: "request_status list" where
  "all_statuses = [PENDING, VERIFIED, APPROVED, IN_PROGRESS, FULFILLED, REJECTED, CANCELLED]"

text \<open>\<open>RequestStatus(value)\<close>: lookup by value, \<open>None\<close> where Python raises ValueError.\<close>

fun RequestStatus :: "json \<Rightarrow> request_status option" where
  "RequestStatus (JStr s) = find (\<lambda>st. status_value st = s) all_statuses"
| "RequestStatus _ = None"

section \<open>The platform default\<close>

definition DEFAULT_INITIAL :: request_status where
  "DEFAULT_INITIAL = PENDING"

definition DEFAULT_TRANSITIONS :: "(request_status \<times> request_status list) list" where
  "DEFAULT_TRANSITIONS =
     [(PENDING, [VERIFIED, REJECTED, CANCELLED]),
      (VERIFIED, [APPROVED, REJECTED, CANCELLED]),
      (APPROVED, [IN_PROGRESS, CANCELLED]),
      (IN_PROGRESS, [FULFILLED, CANCELLED])]"

definition TERMINAL_STATES :: "request_status list" where
  "TERMINAL_STATES = [FULFILLED, REJECTED, CANCELLED]"

definition DEFINITION_KEYS :: "string list" where
  "DEFINITION_KEYS = [''initial'', ''transitions'']"

section \<open>Validation of a definition\<close>

datatype workflow_error =
    WorkflowNotObject
  | UnsupportedKeys "string list"
  | TransitionsNotObject
  | NotAStatus json
  | TerminalSource request_status
  | NoNextState request_status
  | DuplicateNextState request_status
  | SelfTransition request_status
  | InitialNotSource request_status
  | UnreachableStates "string list"
  | NoTerminalReachable

definition state_of :: "json \<Rightarrow> workflow_error + request_status" where
  "state_of v = (case RequestStatus v of None \<Rightarrow> Inl (NotAStatus v) | Some s \<Rightarrow> Inr s)"

text \<open>One round of the loop over \<open>raw_transitions.items()\<close>.\<close>

definition parse_entry :: "string \<times> json \<Rightarrow> workflow_error + (request_status \<times> request_status list)" where
  "parse_entry entry =
     (case state_of (JStr (fst entry)) of
        Inl e \<Rightarrow> Inl e
      | Inr src \<Rightarrow>
          if src \<in> set TERMINAL_STATES then Inl (TerminalSource src)
          else (case snd entry of
              JArr targets \<Rightarrow>
                if targets = [] then Inl (NoNextState src)
                else (case collect state_of targets of
                    Inl e \<Rightarrow> Inl e
                  | Inr parsed \<Rightarrow>
                      if length (remdups parsed) \<noteq> length parsed then Inl (DuplicateNextState src)
                      else if src \<in> set parsed then Inl (SelfTransition src)
                      else Inr (src, parsed))
            | _ \<Rightarrow> Inl (NoNextState src)))"

fun parse_transitions ::
  "(string \<times> json) list \<Rightarrow> (request_status \<times> request_status list) list \<Rightarrow>
   workflow_error + (request_status \<times> request_status list) list" where
  "parse_transitions [] transitions = Inr transitions"
| "parse_transitions (entry # raw) transitions =
     (case parse_entry entry of
        Inl e \<Rightarrow> Inl e
      | Inr (src, parsed) \<Rightarrow> parse_transitions raw (AList.update src parsed transitions))"

definition targets_of :: "(request_status \<times> request_status list) list \<Rightarrow> request_status \<Rightarrow> request_status list" where
  "targets_of transitions s = (case map_of transitions s of None \<Rightarrow> [] | Some ts \<Rightarrow> ts)"

text \<open>The inner loop of \<open>_reachable_from\<close>. \<open>queue.append\<close> and \<open>queue.pop()\<close> work at the same end;
  the model keeps that end first.\<close>

fun visit_targets ::
  "request_status list \<Rightarrow> request_status list \<Rightarrow> request_status list \<Rightarrow>
   request_status list \<times> request_status list" where
  "visit_targets [] seen queue = (seen, queue)"
| "visit_targets (t # ts) seen queue =
     (if t \<in> set seen then visit_targets ts seen queue
      else visit_targets ts (t # seen) (t # queue))"

lemma visit_targets_spec:
  "visit_targets ts seen queue = (seen', queue') \<Longrightarrow>
   set seen' = set seen \<union> set ts \<and> set queue' = set queue \<union> (set ts - set seen) \<and>
   (seen' = seen \<and> queue' = queue \<or> set seen \<subset> set seen')"
  by (induction ts seen queue rule: visit_targets.induct) (auto split: if_splits)

lemma UNIV_request_status: "(UNIV :: request_status set) = set all_statuses"
proof -
  have "s \<in> set all_statuses" for s by (cases s) (simp_all add: all_statuses_def)
  then show ?thesis by auto
qed

instance request_status :: finite
  by standard (simp add: UNIV_request_status)

text \<open>The outer loop: it ends because a round either sees a new state or only shortens the queue.\<close>

function reachable_loop ::
  "(request_status \<times> request_status list) list \<Rightarrow> request_status list \<Rightarrow> request_status list \<Rightarrow>
   request_status list" where
  "reachable_loop transitions seen [] = seen"
| "reachable_loop transitions seen (q # queue) =
     (case visit_targets (targets_of transitions q) seen queue of
        (seen', queue') \<Rightarrow> reachable_loop transitions seen' queue')"
  by pat_completeness auto
termination
proof (relation "measures [\<lambda>(_, seen, _). card (UNIV - set seen), \<lambda>(_, _, queue). length queue]",
    goal_cases)
  case 1
  show ?case by simp
next
  case (2 transitions seen q queue seen' queue')
  then have v: "visit_targets (targets_of transitions q) seen queue = (seen', queue')" by simp
  show ?case
  proof (cases "seen' = seen \<and> queue' = queue")
    case True
    then show ?thesis by simp
  next
    case False
    then have "set seen \<subset> set seen'" using visit_targets_spec [OF v] by blast
    then have "card (UNIV - set seen') < card (UNIV - set seen)"
      by (intro psubset_card_mono) auto
    then show ?thesis by simp
  qed
qed

definition reachable_from ::
  "request_status \<Rightarrow> (request_status \<times> request_status list) list \<Rightarrow> request_status list" where
  "reachable_from initial transitions = reachable_loop transitions [initial] [initial]"

text \<open>The normal form that is stored.\<close>

definition workflow_json :: "request_status \<Rightarrow> (request_status \<times> request_status list) list \<Rightarrow> json" where
  "workflow_json initial transitions =
     JObj [(''initial'', JStr (status_value initial)),
           (''transitions'',
            JObj (map (\<lambda>(s, ts). (status_value s, JArr (map (\<lambda>t. JStr (status_value t)) ts))) transitions))]"

definition validate_workflow :: "json \<Rightarrow> workflow_error + json" where
  "validate_workflow workflow =
     (case workflow of
        JNull \<Rightarrow> Inr JNull
      | JObj d \<Rightarrow>
          (let unknown = filter (\<lambda>k. k \<notin> set DEFINITION_KEYS) (map fst d) in
           if unknown \<noteq> [] then Inl (UnsupportedKeys (sorted_set unknown))
           else (case dget d ''transitions'' of
               Some (JObj raw) \<Rightarrow>
                 if raw = [] then Inl TransitionsNotObject
                 else (case parse_transitions raw [] of
                     Inl e \<Rightarrow> Inl e
                   | Inr transitions \<Rightarrow>
                       (case state_of (dget_default d ''initial'' (JStr (status_value DEFAULT_INITIAL))) of
                          Inl e \<Rightarrow> Inl e
                        | Inr initial \<Rightarrow>
                            if initial \<notin> fst ` set transitions then Inl (InitialNotSource initial)
                            else (let reachable = reachable_from initial transitions;
                                      unreachable = filter (\<lambda>s. s \<notin> set reachable) (map fst transitions) in
                                  if unreachable \<noteq> [] then
                                    Inl (UnreachableStates (sort (map status_value unreachable)))
                                  else if \<not> (\<exists>s \<in> set reachable. s \<in> set TERMINAL_STATES) then
                                    Inl NoTerminalReachable
                                  else Inr (workflow_json initial transitions))))
             | _ \<Rightarrow> Inl TransitionsNotObject))
      | _ \<Rightarrow> Inl WorkflowNotObject)"

section \<open>Reading a stored definition\<close>

definition initial_status :: "json \<Rightarrow> py_error + request_status" where
  "initial_status workflow =
     (if \<not> truthy workflow then Inr DEFAULT_INITIAL
      else (case workflow of
          JObj d \<Rightarrow>
            (case RequestStatus (dget_default d ''initial'' (JStr (status_value DEFAULT_INITIAL))) of
               None \<Rightarrow> Inl ValueError
             | Some s \<Rightarrow> Inr s)
        | _ \<Rightarrow> Inl AttributeError))"

definition allowed_next :: "json \<Rightarrow> request_status \<Rightarrow> py_error + request_status list" where
  "allowed_next workflow current =
     (if \<not> truthy workflow then Inr (targets_of DEFAULT_TRANSITIONS current)
      else (case workflow of
          JObj d \<Rightarrow>
            (case dget_default d ''transitions'' (JObj []) of
               JObj t \<Rightarrow>
                 (case py_iter (dget_default t (status_value current) (JArr [])) of
                    Inl e \<Rightarrow> Inl e
                  | Inr targets \<Rightarrow>
                      collect (\<lambda>v. case RequestStatus v of None \<Rightarrow> Inl ValueError | Some s \<Rightarrow> Inr s) targets)
             | _ \<Rightarrow> Inl AttributeError)
        | _ \<Rightarrow> Inl AttributeError))"

section \<open>The abstract workflow\<close>

text \<open>A workflow is a graph on the request states. \<open>wf_workflow\<close> is what the validator promises,
  with reachability as the reflexive transitive closure.\<close>

definition edges :: "(request_status \<times> request_status list) list \<Rightarrow> request_status rel" where
  "edges transitions = {(s, t). t \<in> set (targets_of transitions s)}"

definition wf_entry :: "request_status \<times> request_status list \<Rightarrow> bool" where
  "wf_entry e \<longleftrightarrow> fst e \<notin> set TERMINAL_STATES \<and> snd e \<noteq> [] \<and> distinct (snd e) \<and> fst e \<notin> set (snd e)"

definition wf_workflow :: "request_status \<Rightarrow> (request_status \<times> request_status list) list \<Rightarrow> bool" where
  "wf_workflow initial transitions \<longleftrightarrow>
     distinct (map fst transitions) \<and> (\<forall>e \<in> set transitions. wf_entry e) \<and>
     initial \<in> fst ` set transitions \<and>
     fst ` set transitions \<subseteq> (edges transitions)\<^sup>* `` {initial} \<and>
     (\<exists>s \<in> set TERMINAL_STATES. (initial, s) \<in> (edges transitions)\<^sup>*)"

section \<open>Lemmas\<close>

lemma RequestStatus_value [simp]: "RequestStatus (JStr (status_value s)) = Some s"
  by (cases s) (simp_all add: all_statuses_def)

lemma RequestStatus_Some: "RequestStatus v = Some s \<Longrightarrow> v = JStr (status_value s)"
  by (cases v) (auto simp: all_statuses_def split: if_splits)

lemma status_value_inj [simp]: "status_value s = status_value t \<longleftrightarrow> s = t"
  by (metis RequestStatus_value option.inject)

lemma find_status [simp]: "find (\<lambda>st. st = s) all_statuses = Some s"
  by (cases s) (simp_all add: all_statuses_def)

lemma state_of_value [simp]: "state_of (JStr (status_value s)) = Inr s"
  by (simp add: state_of_def)

lemma state_of_Inr: "state_of v = Inr s \<Longrightarrow> v = JStr (status_value s)"
  by (auto simp: state_of_def dest: RequestStatus_Some split: option.splits)

lemma length_remdups_eq_iff: "length (remdups xs) = length xs \<longleftrightarrow> distinct xs"
  by simp

lemma parse_entry_Inr: "parse_entry e = Inr x \<Longrightarrow> wf_entry x"
proof -
  assume h: "parse_entry e = Inr x"
  obtain src where s: "state_of (JStr (fst e)) = Inr src"
    using h by (cases "state_of (JStr (fst e))") (auto simp: parse_entry_def)
  with h obtain ts where j: "snd e = JArr ts" "ts \<noteq> []" "src \<notin> set TERMINAL_STATES"
    by (auto simp: parse_entry_def split: if_splits json.splits)
  with h s obtain parsed where p: "collect state_of ts = Inr parsed"
    by (cases "collect state_of ts") (auto simp: parse_entry_def)
  then have "parsed \<noteq> []" using j(2) collect_Inr_length [OF p] by auto
  then show "wf_entry x"
    using h s j p by (auto simp: parse_entry_def wf_entry_def split: if_splits)
qed

lemma parse_entry_canonical:
  "wf_entry (s, ts) \<Longrightarrow>
   parse_entry (status_value s, JArr (map (\<lambda>t. JStr (status_value t)) ts)) = Inr (s, ts)"
  by (simp add: parse_entry_def wf_entry_def collect_map_id distinct_remdups_id)

lemma update_snoc: "k \<notin> fst ` set al \<Longrightarrow> AList.update k v al = al @ [(k, v)]"
  by (induction al) auto

lemma set_AList_update: "set (AList.update k v al) \<subseteq> insert (k, v) (set al)"
  by (induction al) auto

lemma parse_transitions_Inr:
  assumes "parse_transitions raw acc = Inr trs"
    and "distinct (map fst acc)" "\<forall>e \<in> set acc. wf_entry e"
  shows "distinct (map fst trs) \<and> (\<forall>e \<in> set trs. wf_entry e)"
  using assms
proof (induction raw acc rule: parse_transitions.induct)
  case (1 acc)
  then show ?case by simp
next
  case (2 e raw acc)
  then obtain src ts where p: "parse_entry e = Inr (src, ts)"
    by (auto split: sum.splits)
  have "\<forall>x \<in> set (AList.update src ts acc). wf_entry x"
    using 2(4) parse_entry_Inr [OF p] set_AList_update [of src ts acc] by auto
  with 2 p show ?case by (simp add: distinct_update)
qed

lemma parse_transitions_canonical:
  assumes "distinct (map fst (acc @ trs))" "\<forall>e \<in> set trs. wf_entry e"
  shows "parse_transitions
    (map (\<lambda>(s, ts). (status_value s, JArr (map (\<lambda>t. JStr (status_value t)) ts))) trs) acc =
    Inr (acc @ trs)"
  using assms
proof (induction trs arbitrary: acc)
  case Nil
  then show ?case by simp
next
  case (Cons e trs)
  obtain s ts where e: "e = (s, ts)" by fastforce
  with Cons.prems have "AList.update s ts acc = acc @ [(s, ts)]"
    by (intro update_snoc) auto
  with Cons e show ?case by (simp add: parse_entry_canonical)
qed

subsection \<open>Reachability\<close>

lemma reachable_loop_mono: "set seen \<subseteq> set (reachable_loop trs seen queue)"
proof (induction trs seen queue rule: reachable_loop.induct)
  case (2 trs seen q queue)
  obtain seen' queue' where v: "visit_targets (targets_of trs q) seen queue = (seen', queue')"
    by fastforce
  with 2 [OF v [symmetric]] visit_targets_spec [OF v] show ?case by auto
qed simp

lemma reachable_loop_sound:
  assumes "set seen \<union> set queue \<subseteq> (edges trs)\<^sup>* `` {i}"
  shows "set (reachable_loop trs seen queue) \<subseteq> (edges trs)\<^sup>* `` {i}"
  using assms
proof (induction trs seen queue rule: reachable_loop.induct)
  case (2 trs seen q queue)
  obtain seen' queue' where v: "visit_targets (targets_of trs q) seen queue = (seen', queue')"
    by fastforce
  have "set (targets_of trs q) \<subseteq> (edges trs)\<^sup>* `` {i}"
    using 2(2) by (auto simp: edges_def intro: rtrancl_into_rtrancl)
  then show ?case using 2(1) [OF v [symmetric]] 2(2) visit_targets_spec [OF v] v by auto
qed simp

lemma reachable_loop_closed:
  assumes "\<forall>s \<in> set seen - set queue. set (targets_of trs s) \<subseteq> set seen" "set queue \<subseteq> set seen"
  shows "\<forall>s \<in> set (reachable_loop trs seen queue).
    set (targets_of trs s) \<subseteq> set (reachable_loop trs seen queue)"
  using assms
proof (induction trs seen queue rule: reachable_loop.induct)
  case (2 trs seen q queue)
  obtain seen' queue' where v: "visit_targets (targets_of trs q) seen queue = (seen', queue')"
    by fastforce
  have sub: "set queue' \<subseteq> set seen'"
    using 2(3) visit_targets_spec [OF v] by auto
  have "\<forall>s \<in> set seen' - set queue'. set (targets_of trs s) \<subseteq> set seen'"
  proof
    fix s assume s: "s \<in> set seen' - set queue'"
    then have "s \<in> set seen" "s \<notin> set queue" using visit_targets_spec [OF v] by auto
    then show "set (targets_of trs s) \<subseteq> set seen'"
      using 2(2) visit_targets_spec [OF v] by (cases "s = q") auto
  qed
  then show ?case using 2(1) [OF v [symmetric] _ sub] v by simp
qed simp

lemma reachable_from_eq: "set (reachable_from i trs) = (edges trs)\<^sup>* `` {i}"
proof
  show "set (reachable_from i trs) \<subseteq> (edges trs)\<^sup>* `` {i}"
    unfolding reachable_from_def by (rule reachable_loop_sound) auto
  have i: "i \<in> set (reachable_from i trs)"
    using reachable_loop_mono [of "[i]" trs "[i]"] by (simp add: reachable_from_def)
  have closed: "\<forall>s \<in> set (reachable_from i trs). set (targets_of trs s) \<subseteq> set (reachable_from i trs)"
    unfolding reachable_from_def by (rule reachable_loop_closed) simp_all
  show "(edges trs)\<^sup>* `` {i} \<subseteq> set (reachable_from i trs)"
  proof
    fix s assume "s \<in> (edges trs)\<^sup>* `` {i}"
    then have "(i, s) \<in> (edges trs)\<^sup>*" by simp
    then show "s \<in> set (reachable_from i trs)"
      by (induction rule: rtrancl_induct) (use i closed in \<open>auto simp: edges_def\<close>)
  qed
qed


lemma validate_workflow_Inr:
  assumes "validate_workflow w = Inr w'"
  shows "w = JNull \<and> w' = JNull \<or> (\<exists>i trs. wf_workflow i trs \<and> w' = workflow_json i trs)"
proof (cases w)
  case (JObj d)
  with assms obtain raw where raw: "dget d ''transitions'' = Some (JObj raw)"
    by (auto simp: validate_workflow_def Let_def split: if_splits option.splits json.splits)
  with assms JObj obtain trs where t: "parse_transitions raw [] = Inr trs"
    by (auto simp: validate_workflow_def Let_def split: if_splits sum.splits)
  with assms JObj raw obtain i where
    i: "state_of (dget_default d ''initial'' (JStr (status_value DEFAULT_INITIAL))) = Inr i"
    by (auto simp: validate_workflow_def Let_def split: if_splits sum.splits)
  have "i \<in> fst ` set trs" "filter (\<lambda>s. s \<notin> set (reachable_from i trs)) (map fst trs) = []"
    "\<exists>s \<in> set (reachable_from i trs). s \<in> set TERMINAL_STATES" "w' = workflow_json i trs"
    using assms JObj raw t i by (auto simp: validate_workflow_def Let_def split: if_splits)
  moreover have "distinct (map fst trs) \<and> (\<forall>e \<in> set trs. wf_entry e)"
    using parse_transitions_Inr [OF t] by simp
  ultimately have "wf_workflow i trs"
    unfolding wf_workflow_def reachable_from_eq filter_empty_conv by auto
  with \<open>w' = workflow_json i trs\<close> show ?thesis by blast
qed (use assms in \<open>auto simp: validate_workflow_def\<close>)

lemma wf_workflow_nonempty: "wf_workflow i trs \<Longrightarrow> trs \<noteq> []"
  by (auto simp: wf_workflow_def)

lemma validate_workflow_canonical:
  assumes "wf_workflow i trs"
  shows "validate_workflow (workflow_json i trs) = Inr (workflow_json i trs)"
proof -
  have p: "parse_transitions
      (map (\<lambda>(s, ts). (status_value s, JArr (map (\<lambda>t. JStr (status_value t)) ts))) trs) [] = Inr trs"
    using parse_transitions_canonical [of "[]" trs] assms by (simp add: wf_workflow_def)
  have "filter (\<lambda>s. s \<notin> set (reachable_from i trs)) (map fst trs) = []"
    "\<exists>s \<in> set (reachable_from i trs). s \<in> set TERMINAL_STATES" "i \<in> fst ` set trs"
    using assms by (auto simp: wf_workflow_def reachable_from_eq filter_empty_conv)
  with p wf_workflow_nonempty [OF assms] show ?thesis
    by (simp add: validate_workflow_def workflow_json_def DEFINITION_KEYS_def Let_def)
qed

lemma map_of_transitions:
  "map_of (map (\<lambda>(s, ts). (status_value s, f ts)) trs) (status_value s) = map_option f (map_of trs s)"
  by (induction trs) auto

lemma initial_status_canonical: "initial_status (workflow_json i trs) = Inr i"
  by (simp add: initial_status_def workflow_json_def)

lemma allowed_next_canonical: "allowed_next (workflow_json i trs) s = Inr (targets_of trs s)"
proof -
  have "collect (\<lambda>v. case RequestStatus v of None \<Rightarrow> Inl ValueError | Some s \<Rightarrow> Inr s)
      (map (\<lambda>t. JStr (status_value t)) ts) = Inr ts" for ts
    by (rule collect_map_id) simp
  then show ?thesis
    by (cases "map_of trs s")
      (simp_all add: allowed_next_def workflow_json_def dget_default_def map_of_transitions targets_of_def)
qed

lemma wf_workflow_default: "wf_workflow DEFAULT_INITIAL DEFAULT_TRANSITIONS"
proof -
  have r: "set (reachable_from DEFAULT_INITIAL DEFAULT_TRANSITIONS) = UNIV"
    unfolding UNIV_request_status by code_simp
  have "\<forall>e \<in> set DEFAULT_TRANSITIONS. wf_entry e" "distinct (map fst DEFAULT_TRANSITIONS)"
    "DEFAULT_INITIAL \<in> fst ` set DEFAULT_TRANSITIONS"
    by (simp_all add: DEFAULT_TRANSITIONS_def wf_entry_def TERMINAL_STATES_def DEFAULT_INITIAL_def)
  then show ?thesis
    unfolding wf_workflow_def reachable_from_eq [symmetric] r
    using r unfolding reachable_from_eq by (auto simp: TERMINAL_STATES_def)
qed

text \<open>Both shapes an accepted definition has read back as a well-formed workflow.\<close>

lemma accepted_workflow_reads:
  assumes "validate_workflow w = Inr w'"
  shows "\<exists>i trs. wf_workflow i trs \<and> initial_status w' = Inr i \<and>
    (\<forall>s. allowed_next w' s = Inr (targets_of trs s))"
  using validate_workflow_Inr [OF assms]
proof
  assume "w = JNull \<and> w' = JNull"
  then show ?thesis
    using wf_workflow_default by (auto simp: initial_status_def allowed_next_def)
next
  assume "\<exists>i trs. wf_workflow i trs \<and> w' = workflow_json i trs"
  then show ?thesis using initial_status_canonical allowed_next_canonical by blast
qed

lemma wf_targets:
  assumes "wf_workflow i trs"
  shows "distinct (targets_of trs s) \<and> s \<notin> set (targets_of trs s) \<and>
    (s \<in> set TERMINAL_STATES \<longrightarrow> targets_of trs s = []) \<and>
    (targets_of trs s \<noteq> [] \<longrightarrow> (i, s) \<in> (edges trs)\<^sup>*)"
proof (cases "map_of trs s")
  case None
  then show ?thesis by (simp add: targets_of_def)
next
  case (Some ts)
  then have m: "(s, ts) \<in> set trs" by (rule map_of_SomeD)
  with assms have "wf_entry (s, ts)" by (auto simp: wf_workflow_def)
  moreover have "(i, s) \<in> (edges trs)\<^sup>*"
    using assms m by (force simp: wf_workflow_def)
  ultimately show ?thesis using Some by (simp add: targets_of_def wf_entry_def)
qed

section \<open>Properties\<close>

text \<open>The moves a stored workflow allows, as the request service reads them.\<close>

definition next_rel :: "json \<Rightarrow> request_status rel" where
  "next_rel w = {(s, t). \<exists>ts. allowed_next w s = Inr ts \<and> t \<in> set ts}"

text \<open>C29. A definition the validator accepts never makes the readers raise, and the state machine
  they read from it is sound: terminal states have no successor, no state is its own successor,
  successors are listed once, every state with a successor is reachable from the initial state and
  a terminal state is reachable from the initial state. The empty definition, which falls back to
  the platform default, is covered.\<close>

theorem accepted_workflow_sound:
  assumes "validate_workflow w = Inr w'"
  shows "\<exists>i. initial_status w' = Inr i \<and>
    (\<forall>s. \<exists>ts. allowed_next w' s = Inr ts \<and> distinct ts \<and> s \<notin> set ts \<and>
       (s \<in> set TERMINAL_STATES \<longrightarrow> ts = []) \<and> (ts \<noteq> [] \<longrightarrow> (i, s) \<in> (next_rel w')\<^sup>*)) \<and>
    (\<exists>s \<in> set TERMINAL_STATES. (i, s) \<in> (next_rel w')\<^sup>*)"
proof -
  obtain i trs where r: "wf_workflow i trs" "initial_status w' = Inr i"
    "\<forall>s. allowed_next w' s = Inr (targets_of trs s)"
    using accepted_workflow_reads [OF assms] by blast
  then have "next_rel w' = edges trs" by (auto simp: next_rel_def edges_def)
  with r wf_targets [OF r(1)] show ?thesis by (auto simp: wf_workflow_def)
qed

theorem accepted_workflow_sound_witness:
  "\<exists>i. initial_status (workflow_json APPROVED [(APPROVED, [FULFILLED])]) = Inr i"
proof -
  have "validate_workflow (workflow_json APPROVED [(APPROVED, [FULFILLED])]) =
    Inr (workflow_json APPROVED [(APPROVED, [FULFILLED])])" by code_simp
  from accepted_workflow_sound [OF this] show ?thesis by blast
qed

text \<open>The validator decides well-formedness and normalises: a canonical definition is accepted
  exactly when its graph is well-formed (with reachability as the reflexive transitive closure,
  which the worklist loop computes), it is then returned unchanged, and reading it gives the initial
  state and the transition table back.\<close>

theorem validate_workflow_decides:
  "(validate_workflow (workflow_json i trs) = Inr (workflow_json i trs)) = wf_workflow i trs \<and>
   initial_status (workflow_json i trs) = Inr i \<and>
   allowed_next (workflow_json i trs) s = Inr (targets_of trs s)"
proof -
  have inj: "workflow_json i trs = workflow_json j trs' \<Longrightarrow> i = j \<and> trs = trs'" for j trs'
  proof -
    let ?f = "\<lambda>(s, ts). (status_value s, JArr (map (\<lambda>t. JStr (status_value t)) ts))"
    assume e: "workflow_json i trs = workflow_json j trs'"
    have "inj ?f"
      by (rule injI) (auto simp: inj_map_eq_map inj_def)
    with e show ?thesis by (auto simp: workflow_json_def inj_map_eq_map)
  qed
  have "wf_workflow i trs" if "validate_workflow (workflow_json i trs) = Inr (workflow_json i trs)"
    using validate_workflow_Inr [OF that] inj by (auto simp: workflow_json_def)
  then show ?thesis
    using validate_workflow_canonical initial_status_canonical allowed_next_canonical by blast
qed

text \<open>Whatever JSON a caller sends, an accepted result is in canonical form, so validating it
  again accepts it and changes nothing.\<close>

theorem validate_workflow_idempotent:
  assumes "validate_workflow w = Inr w'"
  shows "validate_workflow w' = Inr w' \<and>
    (w' = JNull \<or> (\<exists>i trs. wf_workflow i trs \<and> w' = workflow_json i trs))"
  using validate_workflow_Inr [OF assms]
  by (auto simp: validate_workflow_canonical) (simp add: validate_workflow_def)

theorem validate_workflow_idempotent_witness:
  "validate_workflow (workflow_json PENDING [(PENDING, [REJECTED])]) =
     Inr (workflow_json PENDING [(PENDING, [REJECTED])])"
proof -
  have "validate_workflow (JObj [(''transitions'', JObj [(''pending'', JArr [JStr ''rejected''])])]) =
    Inr (workflow_json PENDING [(PENDING, [REJECTED])])" by code_simp
  from validate_workflow_idempotent [OF this] show ?thesis by blast
qed

end
