(* ===== verification/Districts.thy ===== *)
theory Districts
  imports Py_Value
begin

text \<open>
  \<open>services/volunteer/app/domain/districts.py\<close>: the static adjacency map of the 25 districts, the
  self-validation the module runs when it is imported, and the resolution of a broadcast
  decision into the list of districts that the matching query filters on.
\<close>

section \<open>The adjacency map\<close>

definition ADJACENCY :: "(string \<times> string list) list" where
  "ADJACENCY = [
    (''Colombo'', [''Gampaha'', ''Kalutara'', ''Kegalle'', ''Ratnapura'']),
    (''Gampaha'', [''Colombo'', ''Kegalle'', ''Kurunegala'', ''Puttalam'']),
    (''Kalutara'', [''Colombo'', ''Galle'', ''Ratnapura'']),
    (''Kandy'', [''Badulla'', ''Kegalle'', ''Kurunegala'', ''Matale'', ''Nuwara Eliya'']),
    (''Matale'', [''Anuradhapura'', ''Kandy'', ''Kurunegala'', ''Polonnaruwa'']),
    (''Nuwara Eliya'', [''Badulla'', ''Kandy'', ''Kegalle'', ''Ratnapura'']),
    (''Galle'', [''Kalutara'', ''Matara'', ''Ratnapura'']),
    (''Matara'', [''Galle'', ''Hambantota'', ''Ratnapura'']),
    (''Hambantota'', [''Ampara'', ''Matara'', ''Moneragala'', ''Ratnapura'']),
    (''Jaffna'', [''Kilinochchi'']),
    (''Kilinochchi'', [''Jaffna'', ''Mannar'', ''Mullaitivu'']),
    (''Mannar'', [''Anuradhapura'', ''Kilinochchi'', ''Puttalam'', ''Vavuniya'']),
    (''Vavuniya'', [''Anuradhapura'', ''Mannar'', ''Mullaitivu'', ''Trincomalee'']),
    (''Mullaitivu'', [''Kilinochchi'', ''Trincomalee'', ''Vavuniya'']),
    (''Trincomalee'', [''Anuradhapura'', ''Batticaloa'', ''Mullaitivu'', ''Polonnaruwa'', ''Vavuniya'']),
    (''Batticaloa'', [''Ampara'', ''Polonnaruwa'', ''Trincomalee'']),
    (''Ampara'', [''Badulla'', ''Batticaloa'', ''Hambantota'', ''Moneragala'', ''Polonnaruwa'']),
    (''Kurunegala'', [''Anuradhapura'', ''Gampaha'', ''Kandy'', ''Kegalle'', ''Matale'', ''Puttalam'']),
    (''Puttalam'', [''Anuradhapura'', ''Gampaha'', ''Kurunegala'', ''Mannar'']),
    (''Anuradhapura'', [''Kurunegala'', ''Mannar'', ''Matale'', ''Polonnaruwa'', ''Puttalam'',
                        ''Trincomalee'', ''Vavuniya'']),
    (''Polonnaruwa'', [''Ampara'', ''Anuradhapura'', ''Badulla'', ''Batticaloa'', ''Matale'',
                       ''Trincomalee'']),
    (''Badulla'', [''Ampara'', ''Kandy'', ''Moneragala'', ''Nuwara Eliya'', ''Polonnaruwa'',
                   ''Ratnapura'']),
    (''Moneragala'', [''Ampara'', ''Badulla'', ''Hambantota'', ''Ratnapura'']),
    (''Ratnapura'', [''Badulla'', ''Colombo'', ''Galle'', ''Hambantota'', ''Kalutara'', ''Kegalle'',
                     ''Matara'', ''Moneragala'', ''Nuwara Eliya'']),
    (''Kegalle'', [''Colombo'', ''Gampaha'', ''Kandy'', ''Kurunegala'', ''Nuwara Eliya'',
                   ''Ratnapura''])]"

definition DISTRICTS :: "string list" where
  "DISTRICTS = map fst ADJACENCY"

text \<open>The assertions of \<open>_validate\<close>, over any map.\<close>

definition validate_adjacency :: "(string \<times> string list) list \<Rightarrow> bool" where
  "validate_adjacency adj \<longleftrightarrow>
     length adj = 25 \<and>
     list_all (\<lambda>(district, neighbours).
       district \<notin> set neighbours \<and>
       list_all (\<lambda>n. case map_of adj n of
                       None \<Rightarrow> False
                     | Some back \<Rightarrow> district \<in> set back) neighbours) adj"

definition is_valid_district :: "string \<Rightarrow> bool" where
  "is_valid_district name \<longleftrightarrow> name \<in> set DISTRICTS"

section \<open>Errors and broadcast resolution\<close>

datatype district_error =
    UnknownDistrict string
  | TargetsRequired
  | UnknownDistricts "string list"
  | UnknownBroadcastType string

definition neighbours_of :: "string \<Rightarrow> district_error + string list" where
  "neighbours_of district =
     (case map_of ADJACENCY district of
        None \<Rightarrow> Inl (UnknownDistrict district)
      | Some ns \<Rightarrow> Inr ns)"

text \<open>\<open>target_districts\<close> is \<open>None\<close>, as the parameter's default, or a list.\<close>

definition resolve_broadcast_districts ::
  "string \<Rightarrow> string \<Rightarrow> string list option \<Rightarrow> district_error + string list" where
  "resolve_broadcast_districts broadcast_type source_district target_districts =
     (if source_district \<notin> set DISTRICTS then Inl (UnknownDistrict source_district)
      else if broadcast_type = ''RADIUS_L1'' then Inr [source_district]
      else if broadcast_type = ''RADIUS_L2'' then
        (case map_of ADJACENCY source_district of
           None \<Rightarrow> Inl (UnknownDistrict source_district)
         | Some ns \<Rightarrow> Inr (sorted_set (source_district # ns)))
      else if broadcast_type = ''TARGETED'' then
        (case target_districts of
           None \<Rightarrow> Inl TargetsRequired
         | Some ts \<Rightarrow>
             if ts = [] then Inl TargetsRequired
             else (let unknown = filter (\<lambda>d. d \<notin> set DISTRICTS) ts in
                   if unknown \<noteq> [] then Inl (UnknownDistricts unknown)
                   else Inr (sorted_set ts)))
      else Inl (UnknownBroadcastType broadcast_type))"

section \<open>What validation gives\<close>

text \<open>A map that passes the import-time assertions is a symmetric and irreflexive relation closed
  over its own keys. Nothing about the concrete map is used.\<close>

lemma validated_edge:
  assumes "validate_adjacency adj" and "distinct (map fst adj)"
    and "map_of adj d = Some ns" and "n \<in> set ns"
  shows "n \<noteq> d \<and> (\<exists>back. map_of adj n = Some back \<and> d \<in> set back)"
proof -
  have "(d, ns) \<in> set adj" using assms(3) by (rule map_of_SomeD)
  then show ?thesis
    using assms(1,4) unfolding validate_adjacency_def list_all_iff
    by (fastforce split: option.splits)
qed

lemma adjacency_validated: "validate_adjacency ADJACENCY"
  by code_simp

lemma adjacency_keys_distinct: "distinct (map fst ADJACENCY)"
  by code_simp

lemma DISTRICTS_iff: "d \<in> set DISTRICTS \<longleftrightarrow> (\<exists>ns. map_of ADJACENCY d = Some ns)"
proof -
  have "set DISTRICTS = dom (map_of ADJACENCY)"
    by (simp add: DISTRICTS_def dom_map_of_conv_image_fst)
  then show ?thesis by auto
qed

lemma neighbours_known:
  "map_of ADJACENCY d = Some ns \<Longrightarrow> set ns \<subseteq> set DISTRICTS - {d}"
  using validated_edge [OF adjacency_validated adjacency_keys_distinct] DISTRICTS_iff by blast

lemma neighbours_symmetric:
  "map_of ADJACENCY d = Some ns \<Longrightarrow> n \<in> set ns \<Longrightarrow> map_of ADJACENCY n = Some ms \<Longrightarrow> d \<in> set ms"
  using validated_edge [OF adjacency_validated adjacency_keys_distinct, of d ns n] by auto

section \<open>Properties\<close>

text \<open>The adjacency map of the source passes its own import-time check and, as the module's
  documentation promises, has exactly 25 districts, no self-loop, no unknown neighbour, and a
  neighbour relation that is symmetric: \<open>n\<close> is a neighbour of \<open>d\<close> exactly when \<open>d\<close> is one of
  \<open>n\<close>.\<close>

theorem adjacency_symmetric_irreflexive:
  "validate_adjacency ADJACENCY \<and> card (set DISTRICTS) = 25 \<and>
   neighbours_of d \<noteq> Inr [] \<and>
   (is_valid_district d \<longleftrightarrow> (\<exists>ns. neighbours_of d = Inr ns)) \<and>
   \<not> (\<exists>ns. neighbours_of d = Inr ns \<and> d \<in> set ns) \<and>
   (\<exists>ns. neighbours_of d = Inr ns \<and> n \<in> set ns) = (\<exists>ns. neighbours_of n = Inr ns \<and> d \<in> set ns)"
proof -
  have card: "card (set DISTRICTS) = 25"
  proof -
    have "length ADJACENCY = 25" using adjacency_validated by (simp add: validate_adjacency_def)
    moreover have "distinct DISTRICTS" using adjacency_keys_distinct by (simp add: DISTRICTS_def)
    ultimately show ?thesis using distinct_card [of DISTRICTS] by (simp add: DISTRICTS_def)
  qed
  have "list_all (\<lambda>(d, ns). ns \<noteq> []) ADJACENCY" by code_simp
  then have nonempty: "neighbours_of d \<noteq> Inr []"
    by (auto simp: neighbours_of_def list_all_iff split: option.splits dest: map_of_SomeD)
  have valid: "is_valid_district d \<longleftrightarrow> (\<exists>ns. neighbours_of d = Inr ns)"
    by (auto simp: is_valid_district_def DISTRICTS_iff neighbours_of_def split: option.splits)
  have edge: "neighbours_of d = Inr ns \<longleftrightarrow> map_of ADJACENCY d = Some ns" for d ns
    by (auto simp: neighbours_of_def split: option.splits)
  note E = validated_edge [OF adjacency_validated adjacency_keys_distinct]
  show ?thesis
    using card nonempty valid adjacency_validated E unfolding edge by (metis (no_types, lifting))
qed

text \<open>Every list \<open>resolve_broadcast_districts\<close> returns is sorted, free of duplicates, non-empty
  and made of known districts; it is the source alone at RADIUS_L1, the source and exactly its
  neighbours at RADIUS_L2, and exactly the chosen districts when TARGETED.\<close>

theorem resolve_broadcast_districts_spec:
  assumes "resolve_broadcast_districts bt src targets = Inr ds"
  shows "sorted ds \<and> distinct ds \<and> ds \<noteq> [] \<and> set ds \<subseteq> set DISTRICTS \<and>
    (bt = ''RADIUS_L1'' \<longrightarrow> ds = [src]) \<and>
    (bt = ''RADIUS_L2'' \<longrightarrow> (\<exists>ns. neighbours_of src = Inr ns \<and> set ds = insert src (set ns))) \<and>
    (bt = ''TARGETED'' \<longrightarrow> (\<exists>ts. targets = Some ts \<and> set ds = set ts))"
proof -
  have ne: "sorted_set xs = [] \<longleftrightarrow> xs = []" for xs :: "string list"
    by (metis set_empty set_sorted_set)
  show ?thesis
    using assms neighbours_known [of src]
    unfolding resolve_broadcast_districts_def
    by (auto simp: neighbours_of_def ne Let_def filter_empty_conv split: if_splits option.splits)
qed

theorem resolve_broadcast_districts_spec_witness:
  "\<exists>ns. neighbours_of ''Jaffna'' = Inr ns \<and>
        set [''Jaffna'', ''Kilinochchi''] = insert ''Jaffna'' (set ns)"
proof -
  have h: "resolve_broadcast_districts ''RADIUS_L2'' ''Jaffna'' None = Inr [''Jaffna'', ''Kilinochchi'']"
    by code_simp
  show ?thesis using resolve_broadcast_districts_spec [OF h] by simp
qed

text \<open>Broadcast reach is mutual: with RADIUS_L2, district \<open>d\<close> is reached from \<open>s\<close> exactly when
  \<open>s\<close> is reached from \<open>d\<close>, and RADIUS_L2 always covers what RADIUS_L1 covers.\<close>

theorem radius_l2_mutual:
  assumes "resolve_broadcast_districts ''RADIUS_L2'' s t1 = Inr ds"
    and "resolve_broadcast_districts ''RADIUS_L2'' d t2 = Inr es"
  shows "(d \<in> set ds \<longleftrightarrow> s \<in> set es) \<and>
    (\<exists>one. resolve_broadcast_districts ''RADIUS_L1'' s t1 = Inr one \<and> set one \<subseteq> set ds)"
proof -
  from assms(1) obtain ns where ns: "map_of ADJACENCY s = Some ns" "ds = sorted_set (s # ns)"
    "s \<in> set DISTRICTS"
    by (auto simp: resolve_broadcast_districts_def split: if_splits option.splits)
  from assms(2) obtain ms where ms: "map_of ADJACENCY d = Some ms" "es = sorted_set (d # ms)"
    by (auto simp: resolve_broadcast_districts_def split: if_splits option.splits)
  have "d \<in> set ds \<longleftrightarrow> s \<in> set es"
    using neighbours_symmetric [OF ns(1) _ ms(1)] neighbours_symmetric [OF ms(1) _ ns(1)]
    by (auto simp: ns(2) ms(2))
  with ns show ?thesis by (simp add: resolve_broadcast_districts_def)
qed

theorem radius_l2_mutual_witness:
  "''Matara'' \<in> set [''Galle'', ''Kalutara'', ''Matara'', ''Ratnapura''] \<longleftrightarrow>
   ''Galle'' \<in> set [''Galle'', ''Hambantota'', ''Matara'', ''Ratnapura'']"
proof -
  have h1: "resolve_broadcast_districts ''RADIUS_L2'' ''Galle'' None =
      Inr [''Galle'', ''Kalutara'', ''Matara'', ''Ratnapura'']" by code_simp
  have h2: "resolve_broadcast_districts ''RADIUS_L2'' ''Matara'' None =
      Inr [''Galle'', ''Hambantota'', ''Matara'', ''Ratnapura'']" by code_simp
  show ?thesis using radius_l2_mutual [OF h1 h2] by simp
qed

text \<open>Resolution succeeds exactly on a known source with RADIUS_L1, with RADIUS_L2, or with
  TARGETED and a non-empty list of known districts; every other request is refused, and an unknown
  source is named as the cause whatever the broadcast type.\<close>

theorem resolve_broadcast_districts_succeeds_iff:
  "(\<exists>ds. resolve_broadcast_districts bt src targets = Inr ds) =
     (is_valid_district src \<and>
      (bt = ''RADIUS_L1'' \<or> bt = ''RADIUS_L2'' \<or>
       bt = ''TARGETED'' \<and> (\<exists>t ts. targets = Some (t # ts) \<and> list_all is_valid_district (t # ts)))) \<and>
   (resolve_broadcast_districts bt src targets = Inl (UnknownDistrict src)) = (\<not> is_valid_district src)"
  using DISTRICTS_iff [of src]
  by (cases targets; cases "the targets")
    (auto simp: resolve_broadcast_districts_def is_valid_district_def Let_def filter_empty_conv
      list_all_iff split: option.splits if_splits)

end
