(* ===== verification/Auth.thy ===== *)
theory Auth
  imports Py_Value
begin

text \<open>
  \<open>packages/common/rcp_common/auth.py\<close>: token verification against the JWKS of the IAM service,
  the key cache with its refresh rules, and the role guards every service puts in front of its
  routes. The JOSE library and the HTTP client are parameters: \<open>get_header\<close> is
  \<open>jwt.get_unverified_header\<close>, \<open>decode\<close> is \<open>jwt.decode\<close> restricted to RS256, and the answer of
  \<open>httpx.get\<close> is an argument of the operation that fetches. The clock \<open>time.monotonic()\<close> counts
  microseconds.
\<close>

section \<open>Errors\<close>

text \<open>An HTTP error answer: its status code and its detail.\<close>

datatype http_error = HTTPException nat string

text \<open>\<open>AuthError\<close>, and an exception \<open>verify\<close> does not convert into one.\<close>

datatype auth_error = AuthError string | Uncaught py_error

text \<open>What \<open>httpx.get\<close> followed by \<open>raise_for_status\<close> gives: a transport or status error, a body
  that is no JSON, or a JSON body.\<close>

datatype http_answer = HttpError | NotJson | Body json

section \<open>The principal\<close>

record principal =
  p_user_id :: uuid
  p_tenant_id :: "uuid option"
  p_user_type :: json
  p_roles :: "json list"

definition is_global :: "principal \<Rightarrow> bool" where
  "is_global p \<longleftrightarrow> p_tenant_id p = None"

text \<open>Lists and dictionaries cannot be elements of a Python set or keys of a dictionary.\<close>

fun hashable :: "json \<Rightarrow> bool" where
  "hashable (JArr xs) = False"
| "hashable (JObj d) = False"
| "hashable _ = True"

section \<open>The key cache\<close>

record jwks_cache =
  cache_ttl :: int
  cache_keys :: "(json \<times> json) list"
  fetched_at :: int

definition new_cache :: "int \<Rightarrow> jwks_cache" where
  "new_cache ttl = \<lparr>cache_ttl = ttl, cache_keys = [], fetched_at = 0\<rparr>"

text \<open>\<open>(k["kid"], k)\<close> for one element of the key set.\<close>

definition key_entry :: "json \<Rightarrow> py_error + (json \<times> json)" where
  "key_entry k =
     (case k of
        JObj d \<Rightarrow> (case dindex d ''kid'' of
            Inl e \<Rightarrow> Inl e
          | Inr kid \<Rightarrow> if hashable kid then Inr (kid, k) else Inl TypeError)
      | _ \<Rightarrow> Inl TypeError)"

text \<open>\<open>_fetch\<close>. A dictionary comprehension keeps the last value of a repeated key, so the lookup
  table is reversed. An exception leaves the cache as it was.\<close>

definition fetch_keys :: "http_answer \<Rightarrow> int \<Rightarrow> jwks_cache \<Rightarrow> auth_error + jwks_cache" where
  "fetch_keys answer now' c =
     (case answer of
        HttpError \<Rightarrow> Inl (AuthError ''HTTPError'')
      | NotJson \<Rightarrow> Inl (AuthError ''ValueError'')
      | Body (JObj d) \<Rightarrow>
          (case dindex d ''keys'' of
             Inl e \<Rightarrow> Inl (AuthError ''KeyError'')
           | Inr v \<Rightarrow>
               (case py_iter v of
                  Inl e \<Rightarrow> Inl (Uncaught e)
                | Inr ks \<Rightarrow>
                    (case collect key_entry ks of
                       Inl (KeyError k) \<Rightarrow> Inl (AuthError ''KeyError'')
                     | Inl e \<Rightarrow> Inl (Uncaught e)
                     | Inr entries \<Rightarrow>
                         Inr (c\<lparr>cache_keys := rev entries, fetched_at := now'\<rparr>))))
      | Body _ \<Rightarrow> Inl (Uncaught TypeError))"

text \<open>The refresh condition of \<open>get_key\<close>: older than the TTL, or an unknown kid with a cache older
  than five seconds.\<close>

definition needs_fetch :: "int \<Rightarrow> json \<Rightarrow> jwks_cache \<Rightarrow> bool" where
  "needs_fetch now kid c \<longleftrightarrow>
     now - fetched_at c > cache_ttl c \<or>
     (kid \<notin> fst ` set (cache_keys c) \<and> now - fetched_at c > 5000000)"

definition get_key ::
  "http_answer \<Rightarrow> int \<Rightarrow> int \<Rightarrow> json \<Rightarrow> jwks_cache \<Rightarrow> jwks_cache \<times> (auth_error + json option)" where
  "get_key answer now now' kid c =
     (if \<not> now - fetched_at c > cache_ttl c \<and> \<not> hashable kid then (c, Inl (Uncaught TypeError))
      else if needs_fetch now kid c then
        (case fetch_keys answer now' c of
           Inl e \<Rightarrow> (c, Inl e)
         | Inr c' \<Rightarrow>
             (c', if hashable kid then Inr (map_of (cache_keys c') kid) else Inl (Uncaught TypeError)))
      else (c, Inr (map_of (cache_keys c) kid)))"

section \<open>Verification\<close>

text \<open>The exceptions \<open>verify\<close> catches become \<open>AuthError\<close>; TypeError and AttributeError pass.\<close>

fun auth_exc :: "py_error \<Rightarrow> auth_error" where
  "auth_exc ValueError = AuthError ''ValueError''"
| "auth_exc (KeyError k) = AuthError ''KeyError''"
| "auth_exc e = Uncaught e"

definition principal_of :: "(string \<times> json) list \<Rightarrow> auth_error + principal" where
  "principal_of claims =
     (case dindex claims ''sub'' of
        Inl e \<Rightarrow> Inl (auth_exc e)
      | Inr sub \<Rightarrow>
          (case uuid_of sub of
             Inl e \<Rightarrow> Inl (auth_exc e)
           | Inr uid \<Rightarrow>
               (let raw_tenant = dget_default claims ''tenant_id'' JNull in
                case (if truthy raw_tenant
                      then (case uuid_of raw_tenant of Inl e \<Rightarrow> Inl e | Inr t \<Rightarrow> Inr (Some t))
                      else Inr None) of
                  Inl e \<Rightarrow> Inl (auth_exc e)
                | Inr tenant \<Rightarrow>
                    (case py_iter (dget_default claims ''roles'' (JArr [])) of
                       Inl e \<Rightarrow> Inl (auth_exc e)
                     | Inr rs \<Rightarrow>
                         Inr \<lparr>p_user_id = uid, p_tenant_id = tenant,
                              p_user_type = dget_default claims ''user_type'' JNull, p_roles = rs\<rparr>))))"

text \<open>\<open>JWKSVerifier.verify\<close>. \<open>get_header t\<close> and \<open>decode t key iss aud\<close> are \<open>None\<close> where the JOSE
  library raises JWTError.\<close>

definition verify ::
  "(string \<Rightarrow> (string \<times> json) list option) \<Rightarrow>
   (string \<Rightarrow> json \<Rightarrow> string \<Rightarrow> string \<Rightarrow> (string \<times> json) list option) \<Rightarrow>
   string \<Rightarrow> string \<Rightarrow> http_answer \<Rightarrow> int \<Rightarrow> int \<Rightarrow> string \<Rightarrow> jwks_cache \<Rightarrow>
   jwks_cache \<times> (auth_error + principal)" where
  "verify get_header decode issuer audience answer now now' token c =
     (case get_header token of
        None \<Rightarrow> (c, Inl (AuthError ''JWTError''))
      | Some header \<Rightarrow>
          if dget header ''alg'' \<noteq> Some (JStr ''RS256'') then (c, Inl (AuthError ''Disallowed algorithm''))
          else (case get_key answer now now' (dget_default header ''kid'' (JStr [])) c of
              (c', Inl e) \<Rightarrow> (c', Inl e)
            | (c', Inr None) \<Rightarrow> (c', Inl (AuthError ''Unknown signing key''))
            | (c', Inr (Some key)) \<Rightarrow>
                (case decode token key issuer audience of
                   None \<Rightarrow> (c', Inl (AuthError ''JWTError''))
                 | Some claims \<Rightarrow> (c', principal_of claims))))"

text \<open>\<open>PrincipalDependency\<close>: \<open>verified\<close> is the outcome of \<open>verify\<close> for the presented credentials,
  \<open>None\<close> when the request carries none.\<close>

definition principal_dependency :: "(auth_error + principal) option \<Rightarrow> http_error + principal" where
  "principal_dependency verified =
     (case verified of
        None \<Rightarrow> Inl (HTTPException 401 ''Missing bearer token'')
      | Some (Inl (AuthError _)) \<Rightarrow> Inl (HTTPException 401 ''Invalid token'')
      | Some (Inl (Uncaught _)) \<Rightarrow> Inl (HTTPException 500 ''Internal Server Error'')
      | Some (Inr p) \<Rightarrow> Inr p)"

section \<open>Role guards\<close>

definition require_any_role :: "string list \<Rightarrow> principal \<Rightarrow> http_error + principal" where
  "require_any_role rs p =
     (if \<not> list_all hashable (p_roles p) then Inl (HTTPException 500 ''Internal Server Error'')
      else if \<not> list_ex (\<lambda>r. JStr r \<in> set (p_roles p)) rs then
        Inl (HTTPException 403 ''Insufficient permissions'')
      else Inr p)"

definition require_tenant_role :: "string list \<Rightarrow> principal \<Rightarrow> http_error + principal" where
  "require_tenant_role rs p =
     (if p_tenant_id p = None then Inl (HTTPException 403 ''Tenant-scoped endpoint'')
      else require_any_role rs p)"

section \<open>Lemmas\<close>

lemma fetch_keys_Inr:
  "fetch_keys answer now' c = Inr c' \<Longrightarrow>
   fetched_at c' = now' \<and> cache_ttl c' = cache_ttl c \<and>
   (\<exists>d v ks es. answer = Body (JObj d) \<and> dindex d ''keys'' = Inr v \<and> py_iter v = Inr ks \<and>
      collect key_entry ks = Inr es \<and> cache_keys c' = rev es)"
  by (auto simp: fetch_keys_def split: http_answer.splits json.splits sum.splits py_error.splits)

lemma get_key_cases:
  assumes "get_key answer now now' kid c = (c', Inr k)"
  shows "k = map_of (cache_keys c') kid \<and>
    (\<not> needs_fetch now kid c \<and> c' = c \<or> needs_fetch now kid c \<and> fetch_keys answer now' c = Inr c')"
  using assms by (auto simp: get_key_def split: if_splits sum.splits)

lemma get_key_age:
  assumes "get_key answer now now' kid c = (c', Inr k)" and "now \<le> now'" and "0 \<le> cache_ttl c"
  shows "now - fetched_at c' \<le> cache_ttl c'"
proof -
  consider "\<not> needs_fetch now kid c" "c' = c" | "fetch_keys answer now' c = Inr c'"
    using get_key_cases [OF assms(1)] by blast
  then show ?thesis
  proof cases
    case 1
    then show ?thesis by (simp add: needs_fetch_def)
  next
    case 2
    from fetch_keys_Inr [OF this] assms(2,3) show ?thesis by simp
  qed
qed

lemma verify_Inr:
  assumes "verify get_header decode iss aud answer now now' token c = (c', Inr p)"
  obtains header key claims where
    "get_header token = Some header" "dget header ''alg'' = Some (JStr ''RS256'')"
    "get_key answer now now' (dget_default header ''kid'' (JStr [])) c = (c', Inr (Some key))"
    "decode token key iss aud = Some claims" "principal_of claims = Inr p"
proof (cases "get_header token")
  case None
  with assms show ?thesis by (simp add: verify_def)
next
  case (Some header)
  show ?thesis
  proof (cases "get_key answer now now' (dget_default header ''kid'' (JStr [])) c")
    case (Pair c1 r)
    with Some assms that show ?thesis
      by (auto simp: verify_def split: if_splits sum.splits option.splits)
  qed
qed

lemma require_any_role_Inr:
  "require_any_role rs p = Inr q \<longleftrightarrow>
   q = p \<and> list_all hashable (p_roles p) \<and> (\<exists>r \<in> set rs. JStr r \<in> set (p_roles p))"
  by (auto simp: require_any_role_def list_ex_iff)

lemma require_tenant_role_Inr:
  "require_tenant_role rs p = Inr q \<longleftrightarrow>
   (\<exists>t. p_tenant_id p = Some t) \<and> require_any_role rs p = Inr q"
  by (auto simp: require_tenant_role_def)

text \<open>A sequence of lookups, each with its HTTP answer, its two clock readings and its kid; the
  second component collects the times of the fetches that succeeded.\<close>

fun run_lookups ::
  "(http_answer \<times> int \<times> int \<times> json) list \<Rightarrow> jwks_cache \<Rightarrow> jwks_cache \<times> int list" where
  "run_lookups [] c = (c, [])"
| "run_lookups ((answer, now, now', kid) # calls) c =
     (let c1 = fst (get_key answer now now' kid c);
          fetched = (fetched_at c1 \<noteq> fetched_at c);
          (c2, ts) = run_lookups calls c1
      in (c2, if fetched then now' # ts else ts))"

text \<open>The clock never runs backwards, within a call and between calls.\<close>

fun chronological :: "int \<Rightarrow> (http_answer \<times> int \<times> int \<times> json) list \<Rightarrow> bool" where
  "chronological t [] = True"
| "chronological t ((answer, now, now', kid) # calls) = (t \<le> now \<and> now \<le> now' \<and> chronological now' calls)"

lemma get_key_state:
  "fst (get_key answer now now' kid c) = c \<or>
   needs_fetch now kid c \<and> fetch_keys answer now' c = Inr (fst (get_key answer now now' kid c))"
proof (cases "needs_fetch now kid c")
  case True
  then show ?thesis by (cases "fetch_keys answer now' c") (auto simp: get_key_def)
next
  case False
  then show ?thesis by (auto simp: get_key_def)
qed

section \<open>Properties\<close>

text \<open>C33. A request is authenticated only by a token that names RS256 and that the JOSE library
  verifies, for the configured issuer and audience, under a key the cache holds for the token's own
  kid; the cache was filled no longer than its TTL ago; and the principal is the one the verified
  claims name, global exactly when they carry no tenant.\<close>

theorem verify_sound:
  assumes "verify get_header decode iss aud answer now now' token c = (c', Inr p)"
    and "now \<le> now'" and "0 \<le> cache_ttl c"
  shows "\<exists>header key claims.
    get_header token = Some header \<and> dget header ''alg'' = Some (JStr ''RS256'') \<and>
    map_of (cache_keys c') (dget_default header ''kid'' (JStr [])) = Some key \<and>
    now - fetched_at c' \<le> cache_ttl c' \<and>
    decode token key iss aud = Some claims \<and>
    dget claims ''sub'' = Some (JUuid (p_user_id p)) \<and>
    is_global p = (\<not> truthy (dget_default claims ''tenant_id'' JNull)) \<and>
    (\<forall>t. p_tenant_id p = Some t \<longrightarrow> dget claims ''tenant_id'' = Some (JUuid t))"
proof -
  obtain header key claims where h: "get_header token = Some header"
    "dget header ''alg'' = Some (JStr ''RS256'')"
    "get_key answer now now' (dget_default header ''kid'' (JStr [])) c = (c', Inr (Some key))"
    "decode token key iss aud = Some claims" "principal_of claims = Inr p"
    using verify_Inr [OF assms(1)] by blast
  have uuid: "uuid_of v = Inr u \<Longrightarrow> v = JUuid u" for v u
    by (cases v) auto
  have "dget claims ''sub'' = Some (JUuid (p_user_id p))"
    using h(5) by (auto simp: principal_of_def dindex_def dget_def Let_def dest!: uuid split: option.splits sum.splits)
  moreover have "is_global p = (\<not> truthy (dget_default claims ''tenant_id'' JNull))"
    using h(5) by (auto simp: principal_of_def is_global_def Let_def split: sum.splits if_splits)
  moreover have "dget claims ''tenant_id'' = Some (JUuid t)" if "p_tenant_id p = Some t" for t
    using h(5) that
    by (auto simp: principal_of_def dget_def dget_default_def Let_def dest!: uuid
        split: sum.splits if_splits option.splits)
  moreover have "map_of (cache_keys c') (dget_default header ''kid'' (JStr [])) = Some key"
    using get_key_cases [OF h(3)] by simp
  ultimately show ?thesis
    using h get_key_age [OF h(3) assms(2,3)] by (intro exI [of _ header] exI [of _ key] exI [of _ claims]) simp
qed

theorem verify_sound_witness:
  "dget [(''sub'', JUuid 7)] ''sub'' = Some (JUuid 7) \<and>
   fst (verify (\<lambda>_. Some [(''alg'', JStr ''RS256''), (''kid'', JStr ''k1'')])
     (\<lambda>_ _ _ _. Some [(''sub'', JUuid 7)]) ''rcp-iam'' ''rcp''
     (Body (JObj [(''keys'', JArr [JObj [(''kid'', JStr ''k1'')]])])) 700000000 700000001 ''t''
     (new_cache 600000000)) =
   \<lparr>cache_ttl = 600000000, cache_keys = [(JStr ''k1'', JObj [(''kid'', JStr ''k1'')])],
    fetched_at = 700000001\<rparr>"
proof -
  let ?p = "\<lparr>p_user_id = 7, p_tenant_id = None, p_user_type = JNull, p_roles = []\<rparr>"
  let ?c = "\<lparr>cache_ttl = 600000000, cache_keys = [(JStr ''k1'', JObj [(''kid'', JStr ''k1'')])],
    fetched_at = 700000001\<rparr>"
  have v: "verify (\<lambda>_. Some [(''alg'', JStr ''RS256''), (''kid'', JStr ''k1'')])
     (\<lambda>_ _ _ _. Some [(''sub'', JUuid 7)]) ''rcp-iam'' ''rcp''
     (Body (JObj [(''keys'', JArr [JObj [(''kid'', JStr ''k1'')]])])) 700000000 700000001 ''t''
     (new_cache 600000000) = (?c, Inr ?p)"
    by (simp add: verify_def get_key_def needs_fetch_def fetch_keys_def new_cache_def key_entry_def
        principal_of_def Let_def)
  have "0 \<le> cache_ttl (new_cache 600000000)" by (simp add: new_cache_def)
  from verify_sound [OF v _ this] v show ?thesis by auto
qed

text \<open>Refreshes of the key set are rate limited: over any sequence of lookups, whatever kids
  the presented tokens carry, two successive successful fetches are more than the smaller of the TTL
  and five seconds apart.\<close>

theorem jwks_fetches_rate_limited:
  assumes "chronological t calls" and "run_lookups calls c = (c', ts)" and "0 \<le> cache_ttl c"
  shows "successively (\<lambda>a b. b - a > min (cache_ttl c) 5000000) (fetched_at c # ts)"
  using assms
proof (induction calls arbitrary: t c ts)
  case Nil
  then show ?case by simp
next
  case (Cons call calls)
  obtain answer now now' kid where call: "call = (answer, now, now', kid)"
    by (cases call) auto
  define c1 where "c1 = fst (get_key answer now now' kid c)"
  obtain ts1 where r: "run_lookups calls c1 = (c', ts1)"
    and ts: "ts = (if fetched_at c1 \<noteq> fetched_at c then now' # ts1 else ts1)"
    using Cons.prems(2) by (auto simp: call c1_def Let_def split: prod.splits)
  have chron: "now \<le> now'" "chronological now' calls"
    using Cons.prems(1) by (simp_all add: call)
  have ttl: "cache_ttl c1 = cache_ttl c"
    using get_key_state [of answer now now' kid c] fetch_keys_Inr by (auto simp: c1_def)
  have ih: "successively (\<lambda>a b. b - a > min (cache_ttl c) 5000000) (fetched_at c1 # ts1)"
    using Cons.IH [OF chron(2) r] Cons.prems(3) ttl by simp
  show ?case
  proof (cases "fetched_at c1 = fetched_at c")
    case True
    with ih ts show ?thesis by simp
  next
    case False
    then have "needs_fetch now kid c" "fetch_keys answer now' c = Inr c1"
      using get_key_state [of answer now now' kid c] by (auto simp: c1_def)
    then have "now' - fetched_at c > min (cache_ttl c) 5000000" "fetched_at c1 = now'"
      using chron fetch_keys_Inr [of answer now' c c1] by (auto simp: needs_fetch_def)
    with ih ts False show ?thesis by (simp add: successively_Cons)
  qed
qed

theorem jwks_fetches_rate_limited_witness:
  "successively (\<lambda>a b. b - a > min 600000000 5000000) [0 :: int, 700000001, 706000001]"
proof -
  let ?a = "Body (JObj [(''keys'', JArr [])])"
  let ?calls = "[(?a, 700000000, 700000001, JStr ''x''), (?a, 701000000, 701000001, JStr ''y''),
                 (?a, 706000000, 706000001, JStr ''z'')]"
  let ?c = "\<lparr>cache_ttl = 600000000, cache_keys = [], fetched_at = 706000001\<rparr>"
  have r: "run_lookups ?calls (new_cache 600000000) = (?c, [700000001, 706000001])"
    by (simp add: get_key_def needs_fetch_def fetch_keys_def new_cache_def)
  have "chronological 0 ?calls" "0 \<le> cache_ttl (new_cache 600000000)"
    by (simp_all add: new_cache_def)
  from jwks_fetches_rate_limited [OF this(1) r this(2)] show ?thesis by (simp add: new_cache_def)
qed

end
