(* ===== verification/Outbox.thy ===== *)
theory Outbox
  imports Py_Value
begin

text \<open>
  The transactional outbox every producing service shares: the envelope and \<open>emit\<close> of
  \<open>packages/common/rcp_common/outbox.py\<close>, and the relay worker
  \<open>services/{iam,logistics,volunteer}/app/events/relay.py\<close> that publishes its rows with publisher
  confirms. The broker is a parameter: for every row it says whether the message reached it and
  whether it confirmed it.

  \<open>service\<close> is the part of a service's database that is the same everywhere; the services extend it
  with their own tables. \<open>next_uuid\<close> is the next value \<open>uuid.uuid4()\<close> draws.
\<close>

section \<open>State\<close>

record outbox_row =
  ob_id :: nat
  ob_event_id :: uuid
  ob_routing_key :: string
  ob_payload :: json
  ob_published_at :: "timestamp option"

record service =
  outbox :: "outbox_row list"
  outbox_seq :: nat
  next_uuid :: uuid

section \<open>Writing events\<close>

definition build_envelope ::
  "uuid \<Rightarrow> timestamp \<Rightarrow> string \<Rightarrow> string \<Rightarrow> uuid option \<Rightarrow> (string \<times> json) list \<Rightarrow> int \<Rightarrow>
   string option \<Rightarrow> uuid \<times> json" where
  "build_envelope fresh now routing_key producer tenant_id data schema_version trace_id =
     (fresh,
      JObj [(''event_id'', JUuid fresh),
            (''event_type'', JStr routing_key),
            (''schema_version'', JInt schema_version),
            (''occurred_at'', JTime now),
            (''tenant_id'', json_opt JUuid tenant_id),
            (''producer'', JStr producer),
            (''trace_id'', json_opt JStr trace_id),
            (''data'', JObj data)])"

definition emit ::
  "string \<Rightarrow> timestamp \<Rightarrow> string \<Rightarrow> uuid option \<Rightarrow> (string \<times> json) list \<Rightarrow>
   'a service_scheme \<Rightarrow> 'a service_scheme" where
  "emit producer now routing_key tenant_id data s =
     (case build_envelope (next_uuid s) now routing_key producer tenant_id data 1 None of
        (event_id, envelope) \<Rightarrow>
          s\<lparr>outbox := outbox s @
               [\<lparr>ob_id = outbox_seq s, ob_event_id = event_id, ob_routing_key = routing_key,
                 ob_payload = envelope, ob_published_at = None\<rparr>],
            outbox_seq := Suc (outbox_seq s),
            next_uuid := Suc (next_uuid s)\<rparr>)"

section \<open>The relay\<close>

definition BATCH_SIZE :: nat where
  "BATCH_SIZE = 100"

text \<open>The rows one drain selects: unpublished, oldest id first, at most a batch, skipping the rows
  another relay has locked.\<close>

definition drain_batch :: "(nat \<Rightarrow> bool) \<Rightarrow> outbox_row list \<Rightarrow> outbox_row list" where
  "drain_batch locked rows =
     take BATCH_SIZE (sort_key ob_id (filter (\<lambda>r. ob_published_at r = None \<and> \<not> locked (ob_id r)) rows))"

text \<open>The publishing loop. The broker answers a row with whether the message reached it and whether it
  confirmed; without a confirmation \<open>basic_publish\<close> raises and the loop ends. The result is the
  list of messages that reached the broker, and whether the loop ran to its end.\<close>

fun publish_rows :: "(outbox_row \<Rightarrow> bool \<times> bool) \<Rightarrow> outbox_row list \<Rightarrow> outbox_row list \<times> bool" where
  "publish_rows broker [] = ([], True)"
| "publish_rows broker (r # rows) =
     (case broker r of
        (reached, confirmed) \<Rightarrow>
          if confirmed then
            (case publish_rows broker rows of (sent, ok) \<Rightarrow> ((if reached then r # sent else sent), ok))
          else ((if reached then [r] else []), False))"

text \<open>\<open>_drain_once\<close>: on success every row of the batch gets its \<open>published_at\<close> and the number of rows
  is returned; an exception rolls the transaction back.\<close>

definition drain_once ::
  "(nat \<Rightarrow> bool) \<Rightarrow> (outbox_row \<Rightarrow> bool \<times> bool) \<Rightarrow> timestamp \<Rightarrow> outbox_row list \<Rightarrow>
   outbox_row list \<times> outbox_row list \<times> nat option" where
  "drain_once locked broker now rows =
     (let batch = drain_batch locked rows in
      case publish_rows broker batch of
        (sent, True) \<Rightarrow>
          (row_upd (\<lambda>r. ob_id r \<in> ob_id ` set batch) (\<lambda>r. r\<lparr>ob_published_at := Some now\<rparr>) rows,
           sent, Some (length batch))
      | (sent, False) \<Rightarrow> (rows, sent, None))"

section \<open>Runs\<close>

text \<open>An outbox with what has reached the broker so far: the services append rows, the relay drains.
  A broker that confirms a message has it: that is the meaning of a publisher confirm.\<close>

definition confirms :: "(outbox_row \<Rightarrow> bool \<times> bool) \<Rightarrow> bool" where
  "confirms broker \<longleftrightarrow> (\<forall>r. snd (broker r) \<longrightarrow> fst (broker r))"

inductive relay_step ::
  "(outbox_row list \<times> outbox_row list) \<Rightarrow> (outbox_row list \<times> outbox_row list) \<Rightarrow> bool" where
  relay_emit: "\<forall>r \<in> set rows. ob_id r < ob_id new \<Longrightarrow> ob_published_at new = None \<Longrightarrow>
    relay_step (rows, sentlog) (rows @ [new], sentlog)"
| relay_drain: "confirms broker \<Longrightarrow> drain_once (\<lambda>_. False) broker now rows = (rows', sent, result) \<Longrightarrow>
    relay_step (rows, sentlog) (rows', sentlog @ sent)"

text \<open>What a single relay keeps: ids are distinct, the sentlog holds outbox rows, a row marked published
  is in the sentlog, and nothing unsent is older than something sent.\<close>

definition relay_inv :: "outbox_row list \<times> outbox_row list \<Rightarrow> bool" where
  "relay_inv = (\<lambda>(rows, sentlog).
     distinct (map ob_id rows) \<and>
     ob_id ` set sentlog \<subseteq> ob_id ` set rows \<and>
     (\<forall>r \<in> set rows. ob_published_at r \<noteq> None \<longrightarrow> ob_id r \<in> ob_id ` set sentlog) \<and>
     (\<forall>r \<in> set rows. ob_id r \<notin> ob_id ` set sentlog \<longrightarrow> (\<forall>m \<in> set sentlog. ob_id m < ob_id r)))"

text \<open>The order in which messages first reached the broker.\<close>

fun firsts :: "nat list \<Rightarrow> nat list" where
  "firsts [] = []"
| "firsts (x # xs) = x # filter (\<lambda>y. y \<noteq> x) (firsts xs)"

section \<open>Lemmas\<close>

lemma emit_frame [simp]:
  "outbox_seq (emit p now k t d s) = Suc (outbox_seq s)"
  "next_uuid (emit p now k t d s) = Suc (next_uuid s)"
  by (simp_all add: emit_def build_envelope_def)

lemma publish_rows_prefix:
  "confirms broker \<Longrightarrow> publish_rows broker rows = (sent, ok) \<Longrightarrow>
   (\<exists>n. sent = take n rows) \<and> (ok \<longrightarrow> sent = rows)"
proof (induction rows arbitrary: sent ok)
  case Nil
  then show ?case by simp
next
  case (Cons r rows)
  obtain reached confirmed where b: "broker r = (reached, confirmed)" by fastforce
  show ?case
  proof (cases confirmed)
    case True
    then have reached: "reached" using Cons.prems(1) b by (metis confirms_def fst_conv snd_conv)
    obtain sent' ok' where p: "publish_rows broker rows = (sent', ok')" by fastforce
    from Cons.IH [OF Cons.prems(1) p] obtain n where "sent' = take n rows" "ok' \<longrightarrow> sent' = rows" by blast
    then have "sent = take (Suc n) (r # rows)" "ok \<longrightarrow> sent = r # rows"
      using Cons.prems(2) b p True reached by auto
    then show ?thesis by blast
  next
    case False
    then have "sent = take 1 (r # rows) \<or> sent = take 0 (r # rows)" "\<not> ok"
      using Cons.prems(2) b by (auto split: if_splits)
    then show ?thesis by blast
  qed
qed

lemma set_drain_batch:
  "set (drain_batch locked rows) \<subseteq> {r \<in> set rows. ob_published_at r = None \<and> \<not> locked (ob_id r)}"
  unfolding drain_batch_def using set_take_subset by fastforce

lemma sorted_drain_batch: "sorted (map ob_id (drain_batch locked rows))"
  unfolding drain_batch_def by (simp add: take_map [symmetric] sorted_wrt_take)

text \<open>An unpublished row outside the batch is younger than every row of the batch.\<close>

lemma drain_batch_oldest:
  assumes "r \<in> set rows" "ob_published_at r = None" "\<not> locked (ob_id r)"
    and "r \<notin> set (drain_batch locked rows)" "b \<in> set (drain_batch locked rows)"
  shows "ob_id b \<le> ob_id r"
proof -
  let ?xs = "sort_key ob_id (filter (\<lambda>r. ob_published_at r = None \<and> \<not> locked (ob_id r)) rows)"
  have "r \<in> set ?xs" using assms(1-3) by simp
  then have "r \<in> set (drop BATCH_SIZE ?xs)"
    using assms(4) in_take_or_drop [of r ?xs BATCH_SIZE] unfolding drain_batch_def by blast
  then show ?thesis
    using assms(5) unfolding drain_batch_def by (intro sorted_take_drop [of ob_id ?xs]) simp_all
qed

lemma firsts_set [simp]: "set (firsts xs) = set xs"
  by (induction xs) auto

lemma firsts_append: "firsts (xs @ ys) = firsts xs @ filter (\<lambda>y. y \<notin> set xs) (firsts ys)"
  by (induction xs) (auto intro: filter_cong)

lemma firsts_distinct: "distinct xs \<Longrightarrow> firsts xs = xs"
  by (induction xs) (auto intro: filter_True)

lemma ids_row_upd [simp]: "map ob_id (row_upd p (\<lambda>r. r\<lparr>ob_published_at := v\<rparr>) rows) = map ob_id rows"
  by (rule map_key_row_upd) simp

lemma drain_once_cases:
  assumes "drain_once locked broker now rows = (rows', sent, result)" "confirms broker"
  obtains (failed) n where "rows' = rows" "sent = take n (drain_batch locked rows)" "result = None"
  | (drained) "rows' = row_upd (\<lambda>r. ob_id r \<in> ob_id ` set (drain_batch locked rows))
        (\<lambda>r. r\<lparr>ob_published_at := Some now\<rparr>) rows"
      "sent = drain_batch locked rows" "result = Some (length (drain_batch locked rows))"
proof -
  obtain sent' ok where p: "publish_rows broker (drain_batch locked rows) = (sent', ok)" by fastforce
  note pre = publish_rows_prefix [OF assms(2) p]
  show thesis
  proof (cases ok)
    case True
    with assms(1) p pre show ?thesis by (intro drained) (auto simp: drain_once_def Let_def)
  next
    case False
    from pre obtain n where "sent' = take n (drain_batch locked rows)" by blast
    with False assms(1) p show ?thesis by (intro failed [of n]) (auto simp: drain_once_def Let_def)
  qed
qed

lemma drain_batch_distinct:
  "distinct (map ob_id rows) \<Longrightarrow> distinct (map ob_id (drain_batch locked rows))"
  unfolding drain_batch_def
  by (auto simp: distinct_map elim!: inj_on_subset dest: in_set_takeD)

lemma drain_batch_prefix_order:
  assumes "distinct (map ob_id rows)" "m \<in> set (take n (drain_batch (\<lambda>_. False) rows))"
    and "r \<in> set rows" "ob_published_at r = None" "r \<notin> set (take n (drain_batch (\<lambda>_. False) rows))"
  shows "ob_id m < ob_id r"
proof -
  let ?b = "drain_batch (\<lambda>_. False) rows"
  have m: "m \<in> set ?b" using assms(2) by (rule in_set_takeD)
  have "ob_id m \<le> ob_id r"
  proof (cases "r \<in> set ?b")
    case True
    then have "r \<in> set (drop n ?b)" using assms(5) in_take_or_drop [of r ?b n] by blast
    with assms(2) show ?thesis by (rule sorted_take_drop [OF sorted_drain_batch])
  next
    case False
    then show ?thesis using drain_batch_oldest [OF assms(3,4) _ False m] by simp
  qed
  moreover have "m \<in> set rows" using m set_drain_batch by blast
  then have "ob_id m \<noteq> ob_id r"
    using assms(1,2,3,5) by (auto simp: distinct_map inj_on_def)
  ultimately show ?thesis by simp
qed

lemma relay_step_inv:
  assumes "relay_step s s'" "relay_inv s" "sorted_wrt (<) (firsts (map ob_id (snd s)))"
  shows "relay_inv s' \<and> sorted_wrt (<) (firsts (map ob_id (snd s')))"
  using assms(1)
proof (cases rule: relay_step.cases)
  case (relay_emit rows new sentlog)
  have "ob_id ` set sentlog \<subseteq> ob_id ` set rows" using assms(2) relay_emit(1) by (simp add: relay_inv_def)
  then have new: "ob_id m < ob_id new" if "m \<in> set sentlog" for m
  proof -
    from that \<open>ob_id ` set sentlog \<subseteq> ob_id ` set rows\<close> have "ob_id m \<in> ob_id ` set rows" by blast
    with relay_emit(3) show ?thesis by auto
  qed
  then have "ob_id new \<notin> ob_id ` set rows" using relay_emit(3) by auto
  then show ?thesis
    using assms(2,3) relay_emit new by (auto simp: relay_inv_def)
next
  case (relay_drain broker now rows rows' sent result sentlog)
  let ?b = "drain_batch (\<lambda>_. False) rows"
  have inv: "distinct (map ob_id rows)" "ob_id ` set sentlog \<subseteq> ob_id ` set rows"
    "\<And>r. r \<in> set rows \<Longrightarrow> ob_published_at r \<noteq> None \<Longrightarrow> ob_id r \<in> ob_id ` set sentlog"
    "\<And>r m. r \<in> set rows \<Longrightarrow> ob_id r \<notin> ob_id ` set sentlog \<Longrightarrow> m \<in> set sentlog \<Longrightarrow> ob_id m < ob_id r"
    and srt: "sorted_wrt (<) (firsts (map ob_id sentlog))"
    using assms(2,3) relay_drain(1) by (auto simp: relay_inv_def)
  obtain n where sent: "sent = take n ?b"
    using drain_once_cases [OF relay_drain(4,3)] by (metis take_all_iff order_refl)
  have ids: "map ob_id rows' = map ob_id rows"
    using drain_once_cases [OF relay_drain(4,3)] by (metis ids_row_upd)
  have pub: "ob_id r \<in> ob_id ` set (sentlog @ sent)" if "r \<in> set rows'" "ob_published_at r \<noteq> None" for r
    using relay_drain(4,3)
  proof (cases rule: drain_once_cases)
    case (failed n)
    then show ?thesis using that inv(3) by auto
  next
    case drained
    then show ?thesis using that inv(3) by (fastforce simp: set_row_upd split: if_splits)
  qed
  have young: "ob_id m < ob_id r"
    if "r \<in> set rows" "ob_id r \<notin> ob_id ` set (sentlog @ sent)" "m \<in> set (sentlog @ sent)" for r m
  proof (cases "m \<in> set sentlog")
    case True
    then show ?thesis using that inv(4) by auto
  next
    case False
    then have "m \<in> set (take n ?b)" using that sent by auto
    moreover have "ob_id r \<notin> ob_id ` set sentlog" "r \<notin> set (take n ?b)" using that sent by auto
    moreover from this(1) have "ob_published_at r = None" using inv(3) [OF that(1)] by blast
    ultimately show ?thesis using drain_batch_prefix_order [OF inv(1)] that(1) by blast
  qed
  have sub: "set sent \<subseteq> set rows" using sent set_drain_batch set_take_subset by fastforce
  have idset: "ob_id ` set rows' = ob_id ` set rows" using ids by (metis set_map)
  have young': "ob_id m < ob_id r"
    if "r \<in> set rows'" "ob_id r \<notin> ob_id ` set (sentlog @ sent)" "m \<in> set (sentlog @ sent)" for r m
  proof -
    have "ob_id r \<in> ob_id ` set rows" using that(1) idset by (metis imageI)
    then obtain r0 where "r0 \<in> set rows" "ob_id r0 = ob_id r" by auto
    with young [of r0 m] that(2,3) show ?thesis by simp
  qed
  have "ob_id ` set (sentlog @ sent) \<subseteq> ob_id ` set rows" using inv(2) sub by auto
  then have "relay_inv s'"
    unfolding relay_drain(2) relay_inv_def prod.case idset ids using inv(1) pub young' by blast
  moreover have "sorted_wrt (<) (firsts (map ob_id (sentlog @ sent)))"
  proof -
    have d: "distinct (map ob_id sent)" "sorted (map ob_id sent)"
      using drain_batch_distinct [OF inv(1)] sorted_drain_batch
      by (simp_all add: sent take_map [symmetric] sorted_wrt_take)
    then have "sorted_wrt (<) (map ob_id sent)" by (simp add: strict_sorted_iff)
    then have "sorted_wrt (<) (filter (\<lambda>y. y \<notin> set (map ob_id sentlog)) (map ob_id sent))"
      by (rule sorted_wrt_filter)
    moreover have "x < y" if "x \<in> set (map ob_id sentlog)"
      "y \<in> set (filter (\<lambda>y. y \<notin> set (map ob_id sentlog)) (map ob_id sent))" for x y
      using that inv(4) sub by auto
    ultimately show ?thesis
      using srt by (simp add: firsts_append firsts_distinct [OF d(1)] sorted_wrt_append)
  qed
  ultimately show ?thesis by (simp add: relay_drain(2))
qed


lemma relay_steps_inv:
  assumes "relay_step\<^sup>*\<^sup>* ([], []) s"
  shows "relay_inv s \<and> sorted_wrt (<) (firsts (map ob_id (snd s)))"
  using assms
proof (induction rule: rtranclp_induct)
  case base
  show ?case by (simp add: relay_inv_def)
next
  case (step s s')
  then show ?case using relay_step_inv by blast
qed

text \<open>A drain without failures and without competitors.\<close>

definition unpublished :: "outbox_row list \<Rightarrow> nat" where
  "unpublished rows = row_count (\<lambda>r. ob_published_at r = None) rows"

definition healthy :: "outbox_row \<Rightarrow> bool \<times> bool" where
  "healthy r = (True, True)"

lemma length_drain_batch: "length (drain_batch (\<lambda>_. False) rows) = min (unpublished rows) BATCH_SIZE"
  by (simp add: drain_batch_def unpublished_def row_count_def)

lemma publish_rows_healthy: "publish_rows healthy rows = (rows, True)"
  by (induction rows) (simp_all add: healthy_def)

lemma unpublished_after_drain:
  assumes "distinct (map ob_id rows)"
  shows "unpublished (row_upd (\<lambda>r. ob_id r \<in> ob_id ` set (drain_batch (\<lambda>_. False) rows))
    (\<lambda>r. r\<lparr>ob_published_at := Some now\<rparr>) rows) = unpublished rows - BATCH_SIZE"
proof -
  let ?b = "drain_batch (\<lambda>_. False) rows"
  let ?u = "filter (\<lambda>r. ob_published_at r = None) rows"
  have b: "set ?b \<subseteq> set ?u" using set_drain_batch by fastforce
  have inj: "ob_id r \<in> ob_id ` set ?b \<longleftrightarrow> r \<in> set ?b" if "r \<in> set rows" for r
    using assms that b by (auto simp: distinct_map inj_on_def image_iff)
  have "unpublished (row_upd (\<lambda>r. ob_id r \<in> ob_id ` set ?b) (\<lambda>r. r\<lparr>ob_published_at := Some now\<rparr>) rows) =
    length (filter (\<lambda>r. ob_published_at r = None \<and> r \<notin> set ?b) rows)"
    unfolding unpublished_def row_count_def row_upd_def filter_map length_map comp_def
    by (rule arg_cong [where f = length], rule filter_cong) (auto simp: inj)
  also have "\<dots> = card (set ?u - set ?b)"
    using assms by (subst distinct_card [symmetric]) (auto simp: distinct_map intro!: arg_cong [where f = card])
  also have "\<dots> = card (set ?u) - card (set ?b)" using b by (intro card_Diff_subset) simp_all
  also have "\<dots> = length ?u - length ?b"
  proof -
    have "distinct ?u" "distinct ?b"
      using assms drain_batch_distinct [OF assms, of "\<lambda>_. False"] by (simp_all add: distinct_map)
    then show ?thesis using distinct_card by metis
  qed
  finally show ?thesis by (simp add: length_drain_batch unpublished_def row_count_def)
qed

text \<open>The relay loop while the broker is healthy: one drain after the other.\<close>

fun drains :: "nat \<Rightarrow> timestamp \<Rightarrow> outbox_row list \<Rightarrow> outbox_row list \<times> outbox_row list" where
  "drains 0 now rows = (rows, [])"
| "drains (Suc n) now rows =
     (case drain_once (\<lambda>_. False) healthy now rows of
        (rows', sent, result) \<Rightarrow>
          (case drains n now rows' of (rows'', rest) \<Rightarrow> (rows'', sent @ rest)))"

lemma drain_once_healthy:
  "drain_once (\<lambda>_. False) healthy now rows =
     (row_upd (\<lambda>r. ob_id r \<in> ob_id ` set (drain_batch (\<lambda>_. False) rows))
        (\<lambda>r. r\<lparr>ob_published_at := Some now\<rparr>) rows,
      drain_batch (\<lambda>_. False) rows, Some (length (drain_batch (\<lambda>_. False) rows)))"
  by (simp add: drain_once_def publish_rows_healthy Let_def)

lemma drains_progress:
  assumes "distinct (map ob_id rows)" "drains n now rows = (rows', sent)"
  shows "unpublished rows' = unpublished rows - BATCH_SIZE * n \<and> map ob_id rows' = map ob_id rows \<and>
    distinct (map ob_id sent) \<and> set sent \<subseteq> {r \<in> set rows. ob_published_at r = None} \<and>
    length sent = min (unpublished rows) (BATCH_SIZE * n)"
  using assms
proof (induction n arbitrary: rows sent)
  case 0
  then show ?case by simp
next
  case (Suc n)
  let ?b = "drain_batch (\<lambda>_. False) rows"
  let ?rows = "row_upd (\<lambda>r. ob_id r \<in> ob_id ` set ?b) (\<lambda>r. r\<lparr>ob_published_at := Some now\<rparr>) rows"
  obtain rest where d: "drains n now ?rows = (rows', rest)" and sent: "sent = ?b @ rest"
    using Suc.prems(2) by (auto simp: drain_once_healthy split: prod.splits)
  have ids: "distinct (map ob_id ?rows)" using Suc.prems(1) by simp
  note ih = Suc.IH [OF ids d]
  have rest: "r \<in> set rows \<and> ob_published_at r = None \<and> ob_id r \<notin> ob_id ` set ?b"
    if "r \<in> set rest" for r
  proof -
    have "r \<in> set ?rows" "ob_published_at r = None" using ih that by auto
    then show ?thesis by (auto simp: set_row_upd split: if_splits)
  qed
  moreover define B where "B = ob_id ` set ?b"
  ultimately have "\<forall>r \<in> set rest. ob_id r \<notin> B" by simp
  then have "B \<inter> ob_id ` set rest = {}" by blast
  then have "distinct (map ob_id sent)"
    using ih drain_batch_distinct [OF Suc.prems(1), of "\<lambda>_. False"] sent by (simp add: B_def)
  moreover have "set sent \<subseteq> {r \<in> set rows. ob_published_at r = None}"
    using rest set_drain_batch [of "\<lambda>_. False" rows] sent by auto
  moreover have "unpublished ?rows = unpublished rows - BATCH_SIZE"
    by (rule unpublished_after_drain [OF Suc.prems(1)])
  ultimately show ?case using ih sent by (auto simp: length_drain_batch)
qed

section \<open>Properties\<close>

text \<open>At-least-once delivery with order: however emits, drains, broker failures and rollbacks
  interleave, a row is marked published only if its message reached the broker, only messages of
  outbox rows are sent, and the messages reach the broker for the first time in the order of their
  outbox ids, whatever is sent again later.\<close>

theorem outbox_at_least_once_in_order:
  assumes "relay_step\<^sup>*\<^sup>* ([], []) (rows, sentlog)"
  shows "(\<forall>r \<in> set rows. ob_published_at r \<noteq> None \<longrightarrow> ob_id r \<in> ob_id ` set sentlog) \<and>
    ob_id ` set sentlog \<subseteq> ob_id ` set rows \<and>
    sorted_wrt (<) (firsts (map ob_id sentlog))"
  using relay_steps_inv [OF assms] by (simp add: relay_inv_def)

theorem outbox_at_least_once_in_order_witness:
  "sorted_wrt (<) (firsts [0 :: nat, 0, 1])"
proof -
  let ?r0 = "\<lparr>ob_id = 0, ob_event_id = 5, ob_routing_key = ''k'', ob_payload = JNull, ob_published_at = None\<rparr>"
  let ?r1 = "\<lparr>ob_id = 1, ob_event_id = 6, ob_routing_key = ''k'', ob_payload = JNull, ob_published_at = None\<rparr>"
  let ?bad = "\<lambda>r. (ob_id r = 0, False)"
  let ?pub = "[?r0\<lparr>ob_published_at := Some 9\<rparr>, ?r1\<lparr>ob_published_at := Some 9\<rparr>]"
  have "relay_step ([], []) ([?r0], [])" using relay_emit [of "[]" ?r0 "[]"] by simp
  moreover have "relay_step ([?r0], []) ([?r0, ?r1], [])" using relay_emit [of "[?r0]" ?r1 "[]"] by simp
  moreover have "relay_step ([?r0, ?r1], []) ([?r0, ?r1], [] @ [?r0])"
    by (rule relay_drain [of ?bad 8])
      (auto simp: confirms_def drain_once_def drain_batch_def BATCH_SIZE_def)
  moreover have "relay_step ([?r0, ?r1], [?r0]) (?pub, [?r0] @ [?r0, ?r1])"
    by (rule relay_drain [of healthy 9])
      (auto simp: confirms_def healthy_def drain_once_def drain_batch_def BATCH_SIZE_def)
  ultimately have "relay_step\<^sup>*\<^sup>* ([], []) (?pub, [?r0, ?r0, ?r1])"
    by simp
  from outbox_at_least_once_in_order [OF this] show ?thesis by simp
qed

text \<open>Draining is live: with a broker that confirms, \<open>n\<close> rounds publish \<open>100 * n\<close> rows, so an
  outbox with at most \<open>100 * n\<close> unpublished rows is fully published after \<open>n\<close> rounds, and every
  message sent was unpublished before, each once.\<close>

theorem outbox_eventually_drained:
  assumes "distinct (map ob_id rows)" and "unpublished rows \<le> BATCH_SIZE * n"
    and "drains n now rows = (rows', sent)"
  shows "unpublished rows' = 0 \<and> map ob_id rows' = map ob_id rows \<and>
    distinct (map ob_id sent) \<and> length sent = unpublished rows"
  using drains_progress [OF assms(1,3)] assms(2) by simp

theorem outbox_eventually_drained_witness:
  "unpublished (fst (drains 1 7 [\<lparr>ob_id = 3, ob_event_id = 5, ob_routing_key = ''k'',
     ob_payload = JNull, ob_published_at = None\<rparr>])) = 0"
proof -
  let ?rows = "[\<lparr>ob_id = 3, ob_event_id = 5, ob_routing_key = ''k'', ob_payload = JNull,
    ob_published_at = None\<rparr>]"
  have "distinct (map ob_id ?rows)" "unpublished ?rows \<le> BATCH_SIZE * 1"
    by (simp_all add: unpublished_def BATCH_SIZE_def)
  from outbox_eventually_drained [OF this] show ?thesis by (metis prod.collapse)
qed

end
