(* ===== verification/Messaging.thy ===== *)
theory Messaging
  imports Outbox
begin

text \<open>
  What the event consumers of all services have in common
  (\<open>services/*/app/events/consumers/*.py\<close>, \<open>services/analytics/app/events/consumer.py\<close>): delivery
  at least once through \<open>_on_message\<close>, deduplication by a table of processed event ids, and
  upserts guarded by the producer's timestamp. The two contracts are locales; the consumers of
  the logistics, volunteer and analytics services interpret them.
\<close>

section \<open>Delivery\<close>

text \<open>\<open>_on_message\<close>: an exception in the handler rolls the transaction back and dead-letters the
  message; otherwise the state is the handler's.\<close>

definition deliver :: "('m \<Rightarrow> 's \<Rightarrow> 'e + 's) \<Rightarrow> 'm \<Rightarrow> 's \<Rightarrow> 's" where
  "deliver handle m s = (case handle m s of Inl _ \<Rightarrow> s | Inr s' \<Rightarrow> s')"

definition deliver_all :: "('m \<Rightarrow> 's \<Rightarrow> 'e + 's) \<Rightarrow> 'm list \<Rightarrow> 's \<Rightarrow> 's" where
  "deliver_all handle ms s = fold (deliver handle) ms s"

text \<open>The deliveries that take effect: handled without an exception and not seen before.\<close>

fun effects ::
  "('m \<Rightarrow> 's \<Rightarrow> 'e + 's) \<Rightarrow> ('s \<Rightarrow> uuid set) \<Rightarrow> ('m \<Rightarrow> uuid option) \<Rightarrow> 'm list \<Rightarrow> 's \<Rightarrow> 'm list" where
  "effects handle processed msg_id [] s = []"
| "effects handle processed msg_id (m # ms) s =
     (case handle m s of
        Inl _ \<Rightarrow> effects handle processed msg_id ms s
      | Inr s' \<Rightarrow>
          if msg_id m \<in> Some ` processed s then effects handle processed msg_id ms s'
          else m # effects handle processed msg_id ms s')"

text \<open>\<open>uuid.UUID(envelope["event_id"])\<close> on an envelope, \<open>None\<close> where it raises.\<close>

definition envelope_id :: "json \<Rightarrow> uuid option" where
  "envelope_id m =
     (case m of
        JObj d \<Rightarrow> (case dget d ''event_id'' of
            Some v \<Rightarrow> (case uuid_of v of Inl _ \<Rightarrow> None | Inr u \<Rightarrow> Some u)
          | None \<Rightarrow> None)
      | _ \<Rightarrow> None)"

section \<open>Idempotent consumers\<close>

locale idempotent_consumer =
  fixes handle :: "'m \<Rightarrow> 's \<Rightarrow> 'e + 's"
    and processed :: "'s \<Rightarrow> uuid set"
    and msg_id :: "'m \<Rightarrow> uuid option"
  assumes marks: "handle m s = Inr s' \<Longrightarrow> \<exists>e. msg_id m = Some e \<and> processed s' = insert e (processed s)"
    and skips: "msg_id m = Some e \<Longrightarrow> e \<in> processed s \<Longrightarrow> handle m s = Inr s' \<Longrightarrow> s' = s"
begin

lemma deliver_seen: "msg_id m = Some e \<Longrightarrow> e \<in> processed s \<Longrightarrow> deliver handle m s = s"
  using skips by (auto simp: deliver_def split: sum.splits)

lemma redelivery: "handle m s = Inr s' \<Longrightarrow> deliver handle m s' = s'"
  using marks [of m s s'] deliver_seen [of m _ s'] by auto

lemma processed_mono: "processed s \<subseteq> processed (deliver handle m s)"
  using marks by (fastforce simp: deliver_def split: sum.splits)

lemma processed_mono_all: "processed s \<subseteq> processed (deliver_all handle ms s)"
proof (induction ms arbitrary: s)
  case Nil
  then show ?case by (simp add: deliver_all_def)
next
  case (Cons m ms)
  show ?case
    using processed_mono [of s m] Cons.IH [of "deliver handle m s"] by (simp add: deliver_all_def)
qed

lemma effects_fresh: "m \<in> set (effects handle processed msg_id ms s) \<Longrightarrow> msg_id m \<notin> Some ` processed s"
proof (induction ms arbitrary: s)
  case Nil
  then show ?case by simp
next
  case (Cons x ms)
  show ?case
  proof (cases "handle x s")
    case (Inl e)
    with Cons show ?thesis by simp
  next
    case (Inr s')
    then have "processed s \<subseteq> processed s'" using marks by blast
    with Inr Cons show ?thesis by (fastforce split: if_splits)
  qed
qed

text \<open>Every event takes effect at most once, and the deliveries that do account for the state.\<close>

lemma effects_distinct: "distinct (map msg_id (effects handle processed msg_id ms s))"
proof (induction ms arbitrary: s)
  case Nil
  then show ?case by simp
next
  case (Cons x ms)
  show ?case
  proof (cases "handle x s")
    case (Inl e)
    with Cons show ?thesis by simp
  next
    case (Inr s')
    then obtain e where e: "msg_id x = Some e" "e \<in> processed s'" using marks by blast
    then have "msg_id x \<notin> msg_id ` set (effects handle processed msg_id ms s')"
      using effects_fresh [of _ ms s'] by force
    with Inr Cons show ?thesis by simp
  qed
qed

lemma deliver_all_effects:
  "deliver_all handle ms s = deliver_all handle (effects handle processed msg_id ms s) s"
proof (induction ms arbitrary: s)
  case Nil
  then show ?case by simp
next
  case (Cons x ms)
  show ?case
  proof (cases "handle x s")
    case (Inl e)
    with Cons [of s] show ?thesis by (simp add: deliver_all_def deliver_def)
  next
    case (Inr s')
    show ?thesis
    proof (cases "msg_id x \<in> Some ` processed s")
      case True
      then have "s' = s" using skips Inr by blast
      with Inr True Cons [of s] show ?thesis by (simp add: deliver_all_def deliver_def)
    next
      case False
      with Inr Cons [of s'] show ?thesis by (simp add: deliver_all_def deliver_def)
    qed
  qed
qed

end

section \<open>Last writer wins\<close>

text \<open>A replica row changed only by upserts that carry the producer's timestamp and are ignored when
  older than the row. \<open>view\<close> is the part of the row the events own.\<close>

locale lww_register =
  fixes upd :: "'e \<Rightarrow> 'r option \<Rightarrow> 'r option"
    and ts :: "'e \<Rightarrow> timestamp"
    and row_ts :: "'r \<Rightarrow> timestamp option"
    and view :: "'r \<Rightarrow> 'v"
    and ev_view :: "'e \<Rightarrow> 'v"
  assumes create: "\<exists>r. upd e None = Some r \<and> row_ts r = Some (ts e) \<and> view r = ev_view e"
    and newer: "row_ts r = Some t \<Longrightarrow> t \<le> ts e \<Longrightarrow>
      \<exists>r'. upd e (Some r) = Some r' \<and> row_ts r' = Some (ts e) \<and> view r' = ev_view e"
    and stale: "row_ts r = Some t \<Longrightarrow> ts e < t \<Longrightarrow> upd e (Some r) = Some r"
begin

text \<open>After every delivery the row shows some newest event of those delivered so far.\<close>

lemma shows_newest:
  "es \<noteq> [] \<Longrightarrow> \<exists>e \<in> set es. (\<forall>e' \<in> set es. ts e' \<le> ts e) \<and>
     (\<exists>r. fold upd es None = Some r \<and> row_ts r = Some (ts e) \<and> view r = ev_view e)"
proof (induction es rule: rev_induct)
  case Nil
  then show ?case by simp
next
  case (snoc x es)
  show ?case
  proof (cases "es = []")
    case True
    then show ?thesis using create [of x] by simp
  next
    case False
    with snoc.IH obtain e r where e: "e \<in> set es" "\<forall>e' \<in> set es. ts e' \<le> ts e"
      "fold upd es None = Some r" "row_ts r = Some (ts e)" "view r = ev_view e" by blast
    show ?thesis
    proof (cases "ts e \<le> ts x")
      case True
      obtain r' where "upd x (Some r) = Some r'" "row_ts r' = Some (ts x)" "view r' = ev_view x"
        using newer [OF e(4) True] by blast
      moreover have "\<forall>e' \<in> set (es @ [x]). ts e' \<le> ts x" using e(2) True by force
      ultimately show ?thesis using e(3) by (intro bexI [of _ x]) simp_all
    next
      case False
      then have "upd x (Some r) = Some r" using stale [OF e(4)] by simp
      with e False show ?thesis by (intro bexI [of _ e]) auto
    qed
  qed
qed

text \<open>Whatever the order of delivery, the row ends with the newest event's content.\<close>

lemma converges:
  assumes "inj_on ts (set es)" "e \<in> set es" "\<And>e'. e' \<in> set es \<Longrightarrow> ts e' \<le> ts e"
  shows "\<exists>r. fold upd es None = Some r \<and> row_ts r = Some (ts e) \<and> view r = ev_view e"
proof -
  have "es \<noteq> []" using assms(2) by auto
  then obtain x r where x: "x \<in> set es" "\<forall>e' \<in> set es. ts e' \<le> ts x"
    "fold upd es None = Some r" "row_ts r = Some (ts x)" "view r = ev_view x"
    using shows_newest by blast
  have "ts x = ts e" using x(1,2) assms(2,3) by (simp add: eq_iff)
  then have "x = e" using assms(1,2) x(1) by (simp add: inj_onD)
  with x show ?thesis by blast
qed

lemma order_irrelevant:
  assumes "mset es = mset es'" "inj_on ts (set es)"
  shows "map_option view (fold upd es None) = map_option view (fold upd es' None)"
proof (cases "es = []")
  case True
  then show ?thesis using assms(1) by simp
next
  case False
  have set_eq: "set es' = set es" using assms(1) by (metis set_mset_mset)
  obtain e r where e: "e \<in> set es" "\<forall>e' \<in> set es. ts e' \<le> ts e"
    "fold upd es None = Some r" "view r = ev_view e"
    using shows_newest [OF False] by blast
  obtain r' where "fold upd es' None = Some r'" "view r' = ev_view e"
    using converges [of es' e] assms(2) e(1,2) set_eq by auto
  with e show ?thesis by simp
qed

end

end
