(* ===== verification/Volunteer_Model.thy ===== *)
theory Volunteer_Model
  imports Districts Auth Messaging
begin

text \<open>
  The database of the volunteer service (\<open>services/volunteer/app/models/\<close>) and the validation of
  the request bodies that reach it (\<open>services/volunteer/app/schemas/\<close>). A table is a list of rows
  in insertion order; \<open>volunteer_db\<close> extends the shared part of a service with the tables of
  this one.
\<close>

section \<open>Enumerations\<close>

datatype event_status = DECLARED | BROADCASTING | TEAM_FORMED | CLOSED
datatype broadcast_type = RADIUS_L1 | RADIUS_L2 | TARGETED
datatype requirement_status = OPEN | FULFILLED_REQ
datatype assignment_status = NOTIFIED | ACCEPTED | DECLINED | REJECTED_FULL | EN_ROUTE | COMPLETED

fun event_status_value :: "event_status \<Rightarrow> string" where
  "event_status_value DECLARED = ''DECLARED''"
| "event_status_value BROADCASTING = ''BROADCASTING''"
| "event_status_value TEAM_FORMED = ''TEAM_FORMED''"
| "event_status_value CLOSED = ''CLOSED''"

fun broadcast_type_value :: "broadcast_type \<Rightarrow> string" where
  "broadcast_type_value RADIUS_L1 = ''RADIUS_L1''"
| "broadcast_type_value RADIUS_L2 = ''RADIUS_L2''"
| "broadcast_type_value TARGETED = ''TARGETED''"

fun assignment_status_value :: "assignment_status \<Rightarrow> string" where
  "assignment_status_value NOTIFIED = ''NOTIFIED''"
| "assignment_status_value ACCEPTED = ''ACCEPTED''"
| "assignment_status_value DECLINED = ''DECLINED''"
| "assignment_status_value REJECTED_FULL = ''REJECTED_FULL''"
| "assignment_status_value EN_ROUTE = ''EN_ROUTE''"
| "assignment_status_value COMPLETED = ''COMPLETED''"

section \<open>Rows\<close>

record volunteer_profile =
  vp_id :: uuid
  vp_user_id :: uuid
  vp_full_name :: string
  vp_phone :: "string option"
  vp_is_active :: bool
  vp_source_updated_at :: "timestamp option"
  vp_base_district :: "string option"
  vp_city :: "string option"
  vp_available_status :: bool
  vp_skills :: "string list"
  vp_created_at :: timestamp

record disaster_event =
  ev_id :: uuid
  ev_tenant_id :: uuid
  ev_title :: string
  ev_description :: "string option"
  ev_source_district :: string
  ev_broadcast_type :: broadcast_type
  ev_target_districts :: "string list"
  ev_status :: event_status
  ev_created_by :: uuid
  ev_latitude :: "pyfloat option"
  ev_longitude :: "pyfloat option"
  ev_created_at :: timestamp

record event_requirement =
  rq_id :: uuid
  rq_event_id :: uuid
  rq_skill :: string
  rq_required_count :: int
  rq_filled_count :: int
  rq_status :: requirement_status

record event_volunteer_mapping =
  mp_id :: uuid
  mp_event_id :: uuid
  mp_requirement_id :: uuid
  mp_volunteer_id :: uuid
  mp_status :: assignment_status
  mp_responded_at :: "timestamp option"
  mp_created_at :: timestamp

record victim_request =
  vr_id :: uuid
  vr_victim_id :: "uuid option"
  vr_disaster_type :: string
  vr_needs :: "string list"
  vr_description :: "string option"
  vr_latitude :: "pyfloat option"
  vr_longitude :: "pyfloat option"
  vr_status :: string
  vr_event_id :: "uuid option"
  vr_created_at :: timestamp

record volunteer_report =
  vrp_id :: uuid
  vrp_volunteer_id :: uuid
  vrp_category :: string
  vrp_severity :: string
  vrp_district :: string
  vrp_city :: string
  vrp_description :: "string option"
  vrp_image_url :: "string option"
  vrp_status :: string
  vrp_created_at :: timestamp

record volunteer_db = service +
  profiles :: "volunteer_profile list"
  events :: "disaster_event list"
  requirements :: "event_requirement list"
  mappings :: "event_volunteer_mapping list"
  victim_requests :: "victim_request list"
  reports :: "volunteer_report list"
  processed_events :: "uuid list"

definition empty_volunteer_db :: volunteer_db where
  "empty_volunteer_db =
     \<lparr>outbox = [], outbox_seq = 0, next_uuid = 0, profiles = [], events = [], requirements = [],
      mappings = [], victim_requests = [], reports = [], processed_events = []\<rparr>"

text \<open>\<open>is_full\<close> and \<open>is_matchable\<close>, the properties of the models.\<close>

definition is_full :: "event_requirement \<Rightarrow> bool" where
  "is_full r \<longleftrightarrow> rq_filled_count r \<ge> rq_required_count r"

definition is_matchable :: "volunteer_profile \<Rightarrow> bool" where
  "is_matchable v \<longleftrightarrow> vp_is_active v \<and> vp_available_status v \<and> vp_base_district v \<noteq> None"

text \<open>\<open>emit\<close> of \<open>services/volunteer/app/events/publisher.py\<close>.\<close>

definition vol_emit ::
  "timestamp \<Rightarrow> string \<Rightarrow> uuid option \<Rightarrow> (string \<times> json) list \<Rightarrow> 'a volunteer_db_scheme \<Rightarrow> 'a volunteer_db_scheme" where
  "vol_emit now routing_key tenant_id data s = emit ''volunteer-service'' now routing_key tenant_id data s"

section \<open>Request bodies\<close>

text \<open>\<open>s.strip().lower().replace(" ", "_")\<close>: the slug rule of \<open>RequirementCreate.normalise_skill\<close>,
  \<open>directory.normalise_skill\<close> and \<open>VolunteerProfileUpdate.normalise_skills\<close>.\<close>

definition normalise_skill :: "string \<Rightarrow> string" where
  "normalise_skill v = replace_char (CHR '' '') (CHR ''_'') (lower (strip v))"

definition normalise_skills :: "string list \<Rightarrow> string list" where
  "normalise_skills v = sorted_set (map normalise_skill (filter (\<lambda>s. strip s \<noteq> []) v))"

record event_create =
  ec_title :: string
  ec_description :: "string option"
  ec_source_district :: string
  ec_broadcast_type :: broadcast_type
  ec_target_districts :: "string list option"
  ec_requirements :: "(string \<times> int) list"
  ec_latitude :: "pyfloat option"
  ec_longitude :: "pyfloat option"

text \<open>\<open>RequirementCreate\<close> with its field constraints; the skill is normalised after they are checked.\<close>

definition requirement_create :: "string \<times> int \<Rightarrow> py_error + (string \<times> int)" where
  "requirement_create = (\<lambda>(skill, required_count).
     if length skill < 2 \<or> length skill > 100 \<or> \<not> (0 < required_count \<and> required_count \<le> 1000)
     then Inl ValueError else Inr (normalise_skill skill, required_count))"

text \<open>\<open>DisasterEventCreate\<close>: field constraints, \<open>district_must_exist\<close>, \<open>targets_match_broadcast\<close>.\<close>

definition event_create_valid :: "event_create \<Rightarrow> py_error + event_create" where
  "event_create_valid d =
     (if length (ec_title d) < 3 \<or> length (ec_title d) > 200 then Inl ValueError
      else if \<not> is_valid_district (ec_source_district d) then Inl ValueError
      else if ec_requirements d = [] \<or> length (ec_requirements d) > 50 then Inl ValueError
      else (case collect requirement_create (ec_requirements d) of
          Inl e \<Rightarrow> Inl e
        | Inr reqs \<Rightarrow>
            if ec_broadcast_type d = TARGETED \<and> ec_target_districts d \<in> {None, Some []} then Inl ValueError
            else if ec_broadcast_type d \<noteq> TARGETED \<and> ec_target_districts d \<notin> {None, Some []} then
              Inl ValueError
            else if length (map fst reqs) \<noteq> length (remdups (map fst reqs)) then Inl ValueError
            else Inr (d\<lparr>ec_requirements := reqs\<rparr>)))"

record profile_update =
  pu_base_district :: string
  pu_city :: "string option"
  pu_available_status :: bool
  pu_skills :: "string list"

definition profile_update_valid :: "profile_update \<Rightarrow> py_error + profile_update" where
  "profile_update_valid d =
     (if \<not> is_valid_district (pu_base_district d) then Inl ValueError
      else if length (pu_skills d) > 30 then Inl ValueError
      else Inr (d\<lparr>pu_skills := normalise_skills (pu_skills d)\<rparr>))"

section \<open>Lemmas\<close>

lemma vol_emit_frame [simp]:
  "profiles (vol_emit now k t d s) = profiles s" "events (vol_emit now k t d s) = events s"
  "requirements (vol_emit now k t d s) = requirements s" "mappings (vol_emit now k t d s) = mappings s"
  "processed_events (vol_emit now k t d s) = processed_events s"
  "victim_requests (vol_emit now k t d s) = victim_requests s" "reports (vol_emit now k t d s) = reports s"
  "next_uuid (vol_emit now k t d s) = Suc (next_uuid s)"
  "length (outbox (vol_emit now k t d s)) = Suc (length (outbox s))"
  by (simp_all add: vol_emit_def emit_def build_envelope_def)

lemma event_create_valid_Inr:
  assumes "event_create_valid d = Inr d'"
  shows "ec_requirements d' \<noteq> [] \<and> distinct (map fst (ec_requirements d')) \<and>
    (\<forall>r \<in> set (ec_requirements d'). 0 < snd r \<and> snd r \<le> 1000) \<and>
    is_valid_district (ec_source_district d') \<and>
    (ec_broadcast_type d' = TARGETED \<longleftrightarrow> (\<exists>t ts. ec_target_districts d' = Some (t # ts)))"
proof -
  from assms obtain reqs where r: "collect requirement_create (ec_requirements d) = Inr reqs"
    by (cases "collect requirement_create (ec_requirements d)")
      (auto simp: event_create_valid_def split: if_splits)
  have "0 < snd y \<and> snd y \<le> 1000" if "y \<in> set reqs" for y
    using collect_Inr_source [OF r that] by (auto simp: requirement_create_def split: if_splits)
  moreover have d': "d' = d\<lparr>ec_requirements := reqs\<rparr>" "is_valid_district (ec_source_district d)"
    "ec_requirements d \<noteq> []" "length (remdups (map fst reqs)) = length (map fst reqs)"
    using assms r by (auto simp: event_create_valid_def split: if_splits)
  moreover have "distinct (map fst reqs)" using d'(4) by (metis distinct_remdups length_remdups_eq)
  moreover have "reqs \<noteq> []" using collect_Inr_length [OF r] d'(3) by auto
  moreover have "ec_broadcast_type d = TARGETED \<longleftrightarrow> (\<exists>t ts. ec_target_districts d = Some (t # ts))"
    using assms r by (cases "ec_target_districts d"; cases "the (ec_target_districts d)")
      (auto simp: event_create_valid_def split: if_splits)
  ultimately show ?thesis by simp
qed

lemma normalise_skills_sorted:
  "sorted (normalise_skills v) \<and> distinct (normalise_skills v) \<and> [] \<notin> set (normalise_skills v)"
  by (auto simp: normalise_skills_def normalise_skill_def replace_char_def lower_def)

end
