(* ===== verification/Matching.thy ===== *)
theory Matching
  imports Volunteer_Model
begin

text \<open>
  \<open>services/volunteer/app/services/matching.py\<close> with its routes \<open>api/routes_events.py\<close> and
  \<open>api/routes_assignments.py\<close>: declaring a disaster, fanning notifications out to the matching
  volunteers, first-come-first-serve acceptance against a quota, and the other moves of an
  assignment. Every operation is a whole transaction: it returns the committed database, or the
  database it started from and an error. \<open>accept_assignment\<close> commits before it raises
  QuotaFullError.
\<close>

section \<open>Declaring\<close>

text \<open>\<open>requirements=[EventRequirement(..) for r in data.requirements]\<close>, ids drawn from \<open>n\<close> on.\<close>

fun new_requirements :: "uuid \<Rightarrow> uuid \<Rightarrow> (string \<times> int) list \<Rightarrow> event_requirement list" where
  "new_requirements n ev [] = []"
| "new_requirements n ev ((skill, quota) # rs) =
     \<lparr>rq_id = n, rq_event_id = ev, rq_skill = skill, rq_required_count = quota, rq_filled_count = 0,
      rq_status = OPEN\<rparr> # new_requirements (Suc n) ev rs"

definition requirement_json :: "event_requirement \<Rightarrow> json" where
  "requirement_json r = JObj [(''skill'', JStr (rq_skill r)), (''required_count'', JInt (rq_required_count r))]"

definition declare_event ::
  "timestamp \<Rightarrow> uuid \<Rightarrow> uuid \<Rightarrow> event_create \<Rightarrow> volunteer_db \<Rightarrow>
   volunteer_db \<times> (district_error + disaster_event)" where
  "declare_event now tenant created_by data s =
     (case resolve_broadcast_districts (broadcast_type_value (ec_broadcast_type data))
             (ec_source_district data) (ec_target_districts data) of
        Inl e \<Rightarrow> (s, Inl e)
      | Inr resolved \<Rightarrow>
          (let eid = next_uuid s;
               event = \<lparr>ev_id = eid, ev_tenant_id = tenant, ev_title = ec_title data,
                 ev_description = ec_description data, ev_source_district = ec_source_district data,
                 ev_broadcast_type = ec_broadcast_type data,
                 ev_target_districts = (case ec_target_districts data of None \<Rightarrow> [] | Some ts \<Rightarrow> ts),
                 ev_status = DECLARED, ev_created_by = created_by, ev_latitude = ec_latitude data,
                 ev_longitude = ec_longitude data, ev_created_at = now\<rparr>;
               reqs = new_requirements (Suc eid) eid (ec_requirements data);
               s1 = s\<lparr>events := events s @ [event], requirements := requirements s @ reqs,
                      next_uuid := Suc eid + length reqs\<rparr>;
               s2 = vol_emit now ''volunteer.disaster.declared'' (Some tenant)
                 [(''event_id'', JUuid eid), (''tenant_id'', JUuid tenant), (''title'', JStr (ev_title event)),
                  (''source_district'', JStr (ev_source_district event)),
                  (''latitude'', json_opt JFloat (ev_latitude event)),
                  (''longitude'', json_opt JFloat (ev_longitude event)),
                  (''broadcast_type'', JStr (broadcast_type_value (ev_broadcast_type event))),
                  (''resolved_districts'', JArr (map JStr resolved)),
                  (''requirements'', JArr (map requirement_json reqs)),
                  (''occurred_at'', JTime now)] s1
           in (s2, Inr event)))"

section \<open>Matching\<close>

definition is_candidate :: "string list \<Rightarrow> string \<Rightarrow> volunteer_profile \<Rightarrow> bool" where
  "is_candidate districts skill v \<longleftrightarrow>
     vp_available_status v \<and> vp_is_active v \<and>
     (case vp_base_district v of None \<Rightarrow> False | Some d \<Rightarrow> d \<in> set districts) \<and>
     skill \<in> set (vp_skills v)"

definition find_candidates ::
  "string list \<Rightarrow> string \<Rightarrow> uuid list \<Rightarrow> volunteer_db \<Rightarrow> volunteer_profile list" where
  "find_candidates districts skill exclude_volunteers s =
     filter (\<lambda>v. vp_id v \<notin> set exclude_volunteers)
       (sort_key vp_created_at (filter (is_candidate districts skill) (profiles s)))"

text \<open>One round of the inner loop of \<open>run_matching\<close>.\<close>

definition notify_volunteer ::
  "timestamp \<Rightarrow> disaster_event \<Rightarrow> event_requirement \<Rightarrow> volunteer_profile \<Rightarrow> volunteer_db \<Rightarrow> volunteer_db" where
  "notify_volunteer now event requirement volunteer s =
     vol_emit now ''volunteer.assignment.notified'' (Some (ev_tenant_id event))
       [(''event_id'', JUuid (ev_id event)), (''requirement_id'', JUuid (rq_id requirement)),
        (''volunteer_user_id'', JUuid (vp_user_id volunteer)), (''skill'', JStr (rq_skill requirement)),
        (''source_district'', JStr (ev_source_district event)), (''title'', JStr (ev_title event))]
       (s\<lparr>mappings := mappings s @
            [\<lparr>mp_id = next_uuid s, mp_event_id = ev_id event, mp_requirement_id = rq_id requirement,
              mp_volunteer_id = vp_id volunteer, mp_status = NOTIFIED, mp_responded_at = None,
              mp_created_at = now\<rparr>],
          next_uuid := Suc (next_uuid s)\<rparr>)"

text \<open>The loop over the requirements: \<open>mapped\<close> is \<open>already_mapped\<close>, the last component counts the
  notifications.\<close>

fun match_requirements ::
  "timestamp \<Rightarrow> string list \<Rightarrow> disaster_event \<Rightarrow> event_requirement list \<Rightarrow> uuid list \<Rightarrow> volunteer_db \<Rightarrow>
   volunteer_db \<times> nat" where
  "match_requirements now districts event [] mapped s = (s, 0)"
| "match_requirements now districts event (requirement # rs) mapped s =
     (if rq_status requirement \<noteq> OPEN then match_requirements now districts event rs mapped s
      else (let vs = find_candidates districts (rq_skill requirement) mapped s in
            case match_requirements now districts event rs (map vp_id vs @ mapped)
                   (fold (notify_volunteer now event requirement) vs s) of
              (s', n) \<Rightarrow> (s', length vs + n)))"

definition run_matching ::
  "timestamp \<Rightarrow> uuid \<Rightarrow> volunteer_db \<Rightarrow> volunteer_db \<times> (district_error + nat)" where
  "run_matching now event_id s =
     (case row_get ev_id event_id (events s) of
        None \<Rightarrow> (s, Inr 0)
      | Some event \<Rightarrow>
          if ev_status event \<notin> {DECLARED, BROADCASTING} then (s, Inr 0)
          else (case resolve_broadcast_districts (broadcast_type_value (ev_broadcast_type event))
                       (ev_source_district event) (Some (ev_target_districts event)) of
              Inl e \<Rightarrow> (s, Inl e)
            | Inr districts \<Rightarrow>
                (case match_requirements now districts event
                        (filter (\<lambda>r. rq_event_id r = event_id) (requirements s))
                        (map mp_volunteer_id (filter (\<lambda>m. mp_event_id m = event_id) (mappings s))) s of
                   (s', n) \<Rightarrow>
                     (s'\<lparr>events := row_upd (\<lambda>e. ev_id e = event_id)
                                    (\<lambda>e. e\<lparr>ev_status := BROADCASTING\<rparr>) (events s')\<rparr>,
                      Inr n))))"

section \<open>Accepting\<close>

datatype assignment_error =
    AssignmentNotFound
  | AlreadyResponded assignment_status
  | QuotaFullError
  | CannotTransitionTo assignment_status
  | CannotMove assignment_status assignment_status
  | NoResultFound

text \<open>The ownership join of \<open>accept_assignment\<close> and \<open>transition_assignment\<close>.\<close>

definition own_mapping :: "uuid \<Rightarrow> uuid \<Rightarrow> volunteer_db \<Rightarrow> event_volunteer_mapping option" where
  "own_mapping mapping_id volunteer_user_id s =
     find (\<lambda>m. mp_id m = mapping_id \<and>
               (\<exists>v \<in> set (profiles s). vp_id v = mp_volunteer_id m \<and> vp_user_id v = volunteer_user_id))
       (mappings s)"

definition team_member_json :: "volunteer_db \<Rightarrow> event_volunteer_mapping \<Rightarrow> json" where
  "team_member_json s m =
     (case (row_get vp_id (mp_volunteer_id m) (profiles s), row_get rq_id (mp_requirement_id m) (requirements s)) of
        (Some v, Some r) \<Rightarrow>
          JObj [(''volunteer_user_id'', JUuid (vp_user_id v)), (''full_name'', JStr (vp_full_name v)),
                (''phone'', json_opt JStr (vp_phone v)), (''skill'', JStr (rq_skill r)),
                (''base_district'', json_opt JStr (vp_base_district v))]
      | _ \<Rightarrow> JNull)"

definition mark_requirement_fulfilled :: "timestamp \<Rightarrow> uuid \<Rightarrow> volunteer_db \<Rightarrow> volunteer_db option" where
  "mark_requirement_fulfilled now requirement_id s =
     (case row_get rq_id requirement_id (requirements s) of
        None \<Rightarrow> None
      | Some requirement \<Rightarrow>
          (case row_get ev_id (rq_event_id requirement) (events s) of
             None \<Rightarrow> None
           | Some event \<Rightarrow>
               (let s1 = vol_emit now ''volunteer.requirement.fulfilled'' (Some (ev_tenant_id event))
                      [(''event_id'', JUuid (ev_id event)), (''requirement_id'', JUuid requirement_id),
                       (''skill'', JStr (rq_skill requirement)),
                       (''required_count'', JInt (rq_required_count requirement))]
                      (s\<lparr>requirements := row_upd (\<lambda>r. rq_id r = requirement_id)
                                          (\<lambda>r. r\<lparr>rq_status := FULFILLED_REQ\<rparr>) (requirements s)\<rparr>);
                    open_left = row_count (\<lambda>r. rq_event_id r = ev_id event \<and> rq_status r \<noteq> FULFILLED_REQ)
                                  (requirements s1)
                in if open_left = 0 \<and> ev_status event \<noteq> TEAM_FORMED then
                     Some (vol_emit now ''volunteer.team.formed'' (Some (ev_tenant_id event))
                       [(''event_id'', JUuid (ev_id event)), (''title'', JStr (ev_title event)),
                        (''source_district'', JStr (ev_source_district event)),
                        (''team'', JArr (map (team_member_json s1)
                           (filter (\<lambda>m. mp_event_id m = ev_id event \<and> mp_status m = ACCEPTED) (mappings s1))))]
                       (s1\<lparr>events := row_upd (\<lambda>e. ev_id e = ev_id event)
                                       (\<lambda>e. e\<lparr>ev_status := TEAM_FORMED\<rparr>) (events s1)\<rparr>))
                   else Some s1)))"

definition accept_assignment ::
  "timestamp \<Rightarrow> uuid \<Rightarrow> uuid \<Rightarrow> volunteer_db \<Rightarrow>
   volunteer_db \<times> (assignment_error + event_volunteer_mapping)" where
  "accept_assignment now mapping_id volunteer_user_id s =
     (case own_mapping mapping_id volunteer_user_id s of
        None \<Rightarrow> (s, Inl AssignmentNotFound)
      | Some mapping \<Rightarrow>
          if row_count (\<lambda>m. mp_id m = mapping_id \<and> mp_status m = NOTIFIED) (mappings s) = 0 then
            (s, Inl (AlreadyResponded (mp_status mapping)))
          else
            (let s1 = s\<lparr>mappings := row_upd (\<lambda>m. mp_id m = mapping_id \<and> mp_status m = NOTIFIED)
                          (\<lambda>m. m\<lparr>mp_status := ACCEPTED, mp_responded_at := Some now\<rparr>) (mappings s)\<rparr>;
                 gate = (\<lambda>r. rq_id r = mp_requirement_id mapping \<and> rq_filled_count r < rq_required_count r);
                 s2 = s1\<lparr>requirements := row_upd gate (\<lambda>r. r\<lparr>rq_filled_count := rq_filled_count r + 1\<rparr>)
                           (requirements s1)\<rparr>
             in case find gate (requirements s1) of
                  None \<Rightarrow>
                    (s1\<lparr>mappings := row_upd (\<lambda>m. mp_id m = mapping_id)
                          (\<lambda>m. m\<lparr>mp_status := REJECTED_FULL, mp_responded_at := Some now\<rparr>) (mappings s1)\<rparr>,
                     Inl QuotaFullError)
                | Some r \<Rightarrow>
                    (case (if rq_filled_count r + 1 \<ge> rq_required_count r
                           then mark_requirement_fulfilled now (mp_requirement_id mapping) s2
                           else Some s2) of
                       None \<Rightarrow> (s, Inl NoResultFound)
                     | Some s3 \<Rightarrow> (s3, Inr (mapping\<lparr>mp_status := ACCEPTED, mp_responded_at := Some now\<rparr>)))))"

section \<open>The other moves\<close>

fun allowed_from :: "assignment_status \<Rightarrow> assignment_status list option" where
  "allowed_from DECLINED = Some [NOTIFIED]"
| "allowed_from EN_ROUTE = Some [ACCEPTED]"
| "allowed_from COMPLETED = Some [EN_ROUTE, ACCEPTED]"
| "allowed_from _ = None"

definition transition_assignment ::
  "timestamp \<Rightarrow> uuid \<Rightarrow> uuid \<Rightarrow> assignment_status \<Rightarrow> volunteer_db \<Rightarrow>
   volunteer_db \<times> (assignment_error + event_volunteer_mapping)" where
  "transition_assignment now mapping_id volunteer_user_id new_status s =
     (case allowed_from new_status of
        None \<Rightarrow> (s, Inl (CannotTransitionTo new_status))
      | Some froms \<Rightarrow>
          (case own_mapping mapping_id volunteer_user_id s of
             None \<Rightarrow> (s, Inl AssignmentNotFound)
           | Some mapping \<Rightarrow>
               if row_count (\<lambda>m. mp_id m = mapping_id \<and> mp_status m \<in> set froms) (mappings s) = 0 then
                 (s, Inl (CannotMove (mp_status mapping) new_status))
               else (case row_get ev_id (mp_event_id mapping) (events s) of
                   None \<Rightarrow> (s, Inl NoResultFound)
                 | Some event \<Rightarrow>
                     (vol_emit now
                        (''volunteer.assignment.'' @
                           replace_char (CHR ''_'') (CHR ''-'') (lower (assignment_status_value new_status)))
                        (Some (ev_tenant_id event))
                        [(''event_id'', JUuid (mp_event_id mapping)),
                         (''requirement_id'', JUuid (mp_requirement_id mapping)),
                         (''volunteer_user_id'', JUuid volunteer_user_id),
                         (''status'', JStr (assignment_status_value new_status))]
                        (s\<lparr>mappings := row_upd (\<lambda>m. mp_id m = mapping_id \<and> mp_status m \<in> set froms)
                             (\<lambda>m. m\<lparr>mp_status := new_status, mp_responded_at := Some now\<rparr>) (mappings s)\<rparr>),
                      Inr (mapping\<lparr>mp_status := new_status, mp_responded_at := Some now\<rparr>)))))"

section \<open>Routes\<close>

text \<open>\<open>_portal\<close> and \<open>_volunteer\<close>, the guards of the two routers.\<close>

definition portal :: "principal \<Rightarrow> http_error + principal" where
  "portal p = require_tenant_role [''tenant_admin'', ''coordinator''] p"

definition only_volunteer :: "principal \<Rightarrow> http_error + principal" where
  "only_volunteer p = require_any_role [''volunteer''] p"

definition tenant_event :: "principal \<Rightarrow> uuid \<Rightarrow> volunteer_db \<Rightarrow> http_error + disaster_event" where
  "tenant_event p event_id s =
     (case find (\<lambda>e. ev_id e = event_id \<and> Some (ev_tenant_id e) = p_tenant_id p) (events s) of
        None \<Rightarrow> Inl (HTTPException 404 ''Event not found'')
      | Some e \<Rightarrow> Inr e)"

text \<open>\<open>POST /api/volunteer/events\<close>. The ValueError of \<open>resolve_broadcast_districts\<close> is not caught.\<close>

definition route_declare_event ::
  "timestamp \<Rightarrow> principal \<Rightarrow> event_create \<Rightarrow> volunteer_db \<Rightarrow> volunteer_db \<times> (http_error + disaster_event)" where
  "route_declare_event now p raw s =
     (case portal p of
        Inl e \<Rightarrow> (s, Inl e)
      | Inr _ \<Rightarrow>
          (case event_create_valid raw of
             Inl _ \<Rightarrow> (s, Inl (HTTPException 422 ''validation error''))
           | Inr data \<Rightarrow>
               (case p_tenant_id p of
                  None \<Rightarrow> (s, Inl (HTTPException 500 ''Internal Server Error''))
                | Some t \<Rightarrow>
                    (case declare_event now t (p_user_id p) data s of
                       (s', Inl _) \<Rightarrow> (s', Inl (HTTPException 500 ''Internal Server Error''))
                     | (s', Inr event) \<Rightarrow> (s', Inr event)))))"

definition visible_events :: "principal \<Rightarrow> volunteer_db \<Rightarrow> disaster_event list" where
  "visible_events p s =
     (case p_tenant_id p of
        None \<Rightarrow> events s
      | Some t \<Rightarrow> filter (\<lambda>e. ev_tenant_id e = t) (events s))"

text \<open>\<open>GET /api/volunteer/events\<close>: newest first.\<close>

definition route_list_events :: "principal \<Rightarrow> volunteer_db \<Rightarrow> http_error + disaster_event list" where
  "route_list_events p s =
     (case require_any_role [''tenant_admin'', ''coordinator'', ''volunteer''] p of
        Inl e \<Rightarrow> Inl e
      | Inr _ \<Rightarrow> Inr (sort_key (\<lambda>e. - ev_created_at e) (visible_events p s)))"

definition route_read_event :: "principal \<Rightarrow> uuid \<Rightarrow> volunteer_db \<Rightarrow> http_error + disaster_event" where
  "route_read_event p event_id s =
     (case require_any_role [''tenant_admin'', ''coordinator'', ''volunteer''] p of
        Inl e \<Rightarrow> Inl e
      | Inr _ \<Rightarrow>
          (case find (\<lambda>e. ev_id e = event_id) (visible_events p s) of
             None \<Rightarrow> Inl (HTTPException 404 ''Event not found'')
           | Some e \<Rightarrow> Inr e))"

text \<open>\<open>GET /api/volunteer/events/active-map\<close>.\<close>

definition route_active_events :: "principal \<Rightarrow> volunteer_db \<Rightarrow> http_error + disaster_event list" where
  "route_active_events p s =
     (case require_any_role [''volunteer'', ''tenant_admin'', ''coordinator''] p of
        Inl e \<Rightarrow> Inl e
      | Inr _ \<Rightarrow>
          Inr (filter (\<lambda>e. ev_status e \<in> {DECLARED, BROADCASTING} \<and> ev_latitude e \<noteq> None \<and> ev_longitude e \<noteq> None)
                 (events s)))"

definition route_rebroadcast ::
  "timestamp \<Rightarrow> principal \<Rightarrow> uuid \<Rightarrow> volunteer_db \<Rightarrow> volunteer_db \<times> (http_error + nat)" where
  "route_rebroadcast now p event_id s =
     (case portal p of
        Inl e \<Rightarrow> (s, Inl e)
      | Inr _ \<Rightarrow>
          (case tenant_event p event_id s of
             Inl e \<Rightarrow> (s, Inl e)
           | Inr event \<Rightarrow>
               if ev_status event \<notin> {DECLARED, BROADCASTING} then
                 (s, Inl (HTTPException 409 (''Event is '' @ event_status_value (ev_status event))))
               else (case run_matching now event_id s of
                   (s', Inl _) \<Rightarrow> (s', Inl (HTTPException 500 ''Internal Server Error''))
                 | (s', Inr n) \<Rightarrow> (s', Inr n))))"

definition route_close_event ::
  "principal \<Rightarrow> uuid \<Rightarrow> volunteer_db \<Rightarrow> volunteer_db \<times> (http_error + disaster_event)" where
  "route_close_event p event_id s =
     (case portal p of
        Inl e \<Rightarrow> (s, Inl e)
      | Inr _ \<Rightarrow>
          (case tenant_event p event_id s of
             Inl e \<Rightarrow> (s, Inl e)
           | Inr event \<Rightarrow>
               (s\<lparr>events := row_upd (\<lambda>e. ev_id e = event_id) (\<lambda>e. e\<lparr>ev_status := CLOSED\<rparr>) (events s)\<rparr>,
                Inr (event\<lparr>ev_status := CLOSED\<rparr>))))"

text \<open>The assignment routes: quota full is a conflict, every other domain error unprocessable; an
  exception the route does not know is a server error.\<close>

fun assignment_http :: "assignment_error \<Rightarrow> http_error" where
  "assignment_http AssignmentNotFound = HTTPException 422 ''Assignment not found''"
| "assignment_http (AlreadyResponded st) =
     HTTPException 422 (''Assignment already '' @ lower (assignment_status_value st))"
| "assignment_http QuotaFullError = HTTPException 409 ''This skill quota is already filled''"
| "assignment_http (CannotTransitionTo st) =
     HTTPException 422 (''Cannot transition to '' @ assignment_status_value st @ '' directly'')"
| "assignment_http (CannotMove a b) =
     HTTPException 422 (''Cannot move assignment from '' @ assignment_status_value a @ '' to '' @
       assignment_status_value b)"
| "assignment_http NoResultFound = HTTPException 500 ''Internal Server Error''"

definition route_accept ::
  "timestamp \<Rightarrow> principal \<Rightarrow> uuid \<Rightarrow> volunteer_db \<Rightarrow> volunteer_db \<times> (http_error + event_volunteer_mapping)" where
  "route_accept now p assignment_id s =
     (case only_volunteer p of
        Inl e \<Rightarrow> (s, Inl e)
      | Inr _ \<Rightarrow>
          (case accept_assignment now assignment_id (p_user_id p) s of
             (s', Inl e) \<Rightarrow> (s', Inl (assignment_http e))
           | (s', Inr m) \<Rightarrow> (s', Inr m)))"

text \<open>\<open>_transition\<close>, which \<open>decline\<close>, \<open>en_route\<close> and \<open>complete\<close> call with their target.\<close>

definition route_transition ::
  "timestamp \<Rightarrow> principal \<Rightarrow> uuid \<Rightarrow> assignment_status \<Rightarrow> volunteer_db \<Rightarrow>
   volunteer_db \<times> (http_error + event_volunteer_mapping)" where
  "route_transition now p assignment_id target s =
     (case only_volunteer p of
        Inl e \<Rightarrow> (s, Inl e)
      | Inr _ \<Rightarrow>
          (case transition_assignment now assignment_id (p_user_id p) target s of
             (s', Inl e) \<Rightarrow> (s', Inl (assignment_http e))
           | (s', Inr m) \<Rightarrow> (s', Inr m)))"

definition route_decline where
  "route_decline now p assignment_id s = route_transition now p assignment_id DECLINED s"

definition route_en_route where
  "route_en_route now p assignment_id s = route_transition now p assignment_id EN_ROUTE s"

definition route_complete where
  "route_complete now p assignment_id s = route_transition now p assignment_id COMPLETED s"

text \<open>\<open>GET /api/volunteer/assignments\<close>: the caller's own assignments, newest first.\<close>

definition route_my_assignments :: "principal \<Rightarrow> volunteer_db \<Rightarrow> http_error + event_volunteer_mapping list" where
  "route_my_assignments p s =
     (case only_volunteer p of
        Inl e \<Rightarrow> Inl e
      | Inr _ \<Rightarrow>
          Inr (sort_key (\<lambda>m. - mp_created_at m)
            (filter (\<lambda>m. \<exists>v \<in> set (profiles s). vp_id v = mp_volunteer_id m \<and> vp_user_id v = p_user_id p)
              (mappings s))))"

section \<open>The invariant\<close>

text \<open>An assignment holds a place in its bucket from acceptance on.\<close>

definition holds_place :: "event_volunteer_mapping \<Rightarrow> bool" where
  "holds_place m \<longleftrightarrow> mp_status m \<in> {ACCEPTED, EN_ROUTE, COMPLETED}"

definition below :: "('r \<Rightarrow> uuid) \<Rightarrow> 'r list \<Rightarrow> uuid \<Rightarrow> bool" where
  "below key rows n \<longleftrightarrow> list_all (\<lambda>k. k < n) (map key rows)"

text \<open>Primary keys and the unique constraints.\<close>

definition keys_ok :: "volunteer_db \<Rightarrow> bool" where
  "keys_ok s \<longleftrightarrow>
     distinct (map vp_id (profiles s)) \<and> distinct (map vp_user_id (profiles s)) \<and>
     distinct (map ev_id (events s)) \<and> distinct (map rq_id (requirements s)) \<and>
     distinct (map mp_id (mappings s)) \<and>
     distinct (map (\<lambda>m. (mp_event_id m, mp_volunteer_id m)) (mappings s)) \<and>
     below vp_id (profiles s) (next_uuid s) \<and> below ev_id (events s) (next_uuid s) \<and>
     below rq_id (requirements s) (next_uuid s) \<and> below mp_id (mappings s) (next_uuid s)"

text \<open>Foreign keys; a mapping's bucket belongs to its event.\<close>

definition refs_ok :: "volunteer_db \<Rightarrow> bool" where
  "refs_ok s \<longleftrightarrow>
     (\<forall>r \<in> set (requirements s). rq_event_id r \<in> ev_id ` set (events s)) \<and>
     (\<forall>m \<in> set (mappings s). mp_volunteer_id m \<in> vp_id ` set (profiles s) \<and>
        (\<exists>r \<in> set (requirements s). rq_id r = mp_requirement_id m \<and> rq_event_id r = mp_event_id m))"

text \<open>The quota counter counts the places held, never exceeds the quota, and the bucket is closed
  exactly when it is full.\<close>

definition quota_ok :: "volunteer_db \<Rightarrow> bool" where
  "quota_ok s \<longleftrightarrow>
     (\<forall>r \<in> set (requirements s).
        0 < rq_required_count r \<and> rq_filled_count r \<le> rq_required_count r \<and>
        rq_filled_count r = int (row_count (\<lambda>m. mp_requirement_id m = rq_id r \<and> holds_place m) (mappings s)) \<and>
        (rq_status r = FULFILLED_REQ \<longleftrightarrow> rq_filled_count r = rq_required_count r))"

text \<open>An event is TEAM_FORMED only when all its buckets are full, and with all its buckets full it is
  TEAM_FORMED or closed.\<close>

definition all_full :: "uuid \<Rightarrow> volunteer_db \<Rightarrow> bool" where
  "all_full e s \<longleftrightarrow> (\<forall>r \<in> set (requirements s). rq_event_id r = e \<longrightarrow> rq_status r = FULFILLED_REQ)"

definition team_ok :: "volunteer_db \<Rightarrow> bool" where
  "team_ok s \<longleftrightarrow>
     (\<forall>e \<in> set (events s). (\<exists>r \<in> set (requirements s). rq_event_id r = ev_id e) \<and>
        (ev_status e = TEAM_FORMED \<longrightarrow> all_full (ev_id e) s) \<and>
        (all_full (ev_id e) s \<longrightarrow> ev_status e \<in> {TEAM_FORMED, CLOSED}))"

definition vol_inv :: "volunteer_db \<Rightarrow> bool" where
  "vol_inv s \<longleftrightarrow> keys_ok s \<and> refs_ok s \<and> quota_ok s \<and> team_ok s"

end
