(* ===== verification/Matching_Inv.thy ===== *)
theory Matching_Inv
  imports Matching
begin

text \<open>
  Every operation of the matching engine keeps the invariant \<open>vol_inv\<close> of the volunteer database:
  keys, foreign keys, the quota counters and the team status. The proofs go table by table: an
  operation that writes one table keeps the clauses about the others.
\<close>

section \<open>Updates of one table\<close>

lemma below_iff: "below key rows n \<longleftrightarrow> (\<forall>r \<in> set rows. key r < n)"
  by (simp add: below_def list_all_iff)

lemma keys_ok_emit [simp]: "keys_ok s \<Longrightarrow> keys_ok (vol_emit now k t d s)"
  by (auto simp: keys_ok_def below_iff less_Suc_eq)

lemma other_ok_emit [simp]:
  "refs_ok (vol_emit now k t d s) = refs_ok s" "quota_ok (vol_emit now k t d s) = quota_ok s"
  "team_ok (vol_emit now k t d s) = team_ok s" "all_full e (vol_emit now k t d s) = all_full e s"
  by (simp_all add: refs_ok_def quota_ok_def team_ok_def all_full_def)

lemma vol_inv_emit [simp]: "vol_inv s \<Longrightarrow> vol_inv (vol_emit now k t d s)"
  by (simp add: vol_inv_def)

lemma below_row_upd [simp]: "(\<And>r. key (f r) = key r) \<Longrightarrow> below key (row_upd p f rows) n = below key rows n"
  by (simp add: below_def map_key_row_upd)

lemma mappings_upd_keys_refs:
  assumes "\<And>m. mp_id (f m) = mp_id m" "\<And>m. mp_event_id (f m) = mp_event_id m"
    "\<And>m. mp_requirement_id (f m) = mp_requirement_id m" "\<And>m. mp_volunteer_id (f m) = mp_volunteer_id m"
    and "keys_ok s" "refs_ok s"
  shows "keys_ok (s\<lparr>mappings := row_upd p f (mappings s)\<rparr>) \<and> refs_ok (s\<lparr>mappings := row_upd p f (mappings s)\<rparr>)"
proof
  have "map (\<lambda>m. (mp_event_id m, mp_volunteer_id m)) (row_upd p f (mappings s)) =
    map (\<lambda>m. (mp_event_id m, mp_volunteer_id m)) (mappings s)"
    by (rule map_key_row_upd) (simp add: assms)
  then show "keys_ok (s\<lparr>mappings := row_upd p f (mappings s)\<rparr>)"
    using assms(1,5) by (simp add: keys_ok_def map_key_row_upd)
  show "refs_ok (s\<lparr>mappings := row_upd p f (mappings s)\<rparr>)"
    using assms by (auto simp: refs_ok_def set_row_upd)
qed

lemma requirements_upd_keys_refs:
  assumes "\<And>r. rq_id (f r) = rq_id r" "\<And>r. rq_event_id (f r) = rq_event_id r"
    and "keys_ok s" "refs_ok s"
  shows "keys_ok (s\<lparr>requirements := row_upd p f (requirements s)\<rparr>) \<and>
    refs_ok (s\<lparr>requirements := row_upd p f (requirements s)\<rparr>)"
proof
  show "keys_ok (s\<lparr>requirements := row_upd p f (requirements s)\<rparr>)"
    using assms(1,3) by (simp add: keys_ok_def map_key_row_upd)
  have img: "(\<lambda>r. (rq_id r, rq_event_id r)) ` set (row_upd p f (requirements s)) =
    (\<lambda>r. (rq_id r, rq_event_id r)) ` set (requirements s)"
    by (rule image_key_row_upd) (simp add: assms)
  have ex: "(\<exists>r \<in> set rows. rq_id r = a \<and> rq_event_id r = b) \<longleftrightarrow>
    (a, b) \<in> (\<lambda>r. (rq_id r, rq_event_id r)) ` set rows" for rows :: "event_requirement list" and a b
    by force
  have "rq_event_id ` set (row_upd p f (requirements s)) = rq_event_id ` set (requirements s)"
    using assms(2) by (rule image_key_row_upd)
  then have "(\<forall>r \<in> set (row_upd p f (requirements s)). rq_event_id r \<in> ev_id ` set (events s)) \<longleftrightarrow>
    (\<forall>r \<in> set (requirements s). rq_event_id r \<in> ev_id ` set (events s))"
    unfolding image_subset_iff [symmetric] by simp
  then show "refs_ok (s\<lparr>requirements := row_upd p f (requirements s)\<rparr>)"
    using assms(4) unfolding refs_ok_def ex by (simp add: img)
qed

lemma events_upd_keys_refs:
  assumes "\<And>e. ev_id (f e) = ev_id e" and "keys_ok s" "refs_ok s"
  shows "keys_ok (s\<lparr>events := row_upd p f (events s)\<rparr>) \<and> refs_ok (s\<lparr>events := row_upd p f (events s)\<rparr>)"
  using assms by (simp add: keys_ok_def refs_ok_def map_key_row_upd image_key_row_upd)

lemma quota_ok_events [simp]: "quota_ok (s\<lparr>events := es\<rparr>) = quota_ok s"
  by (simp add: quota_ok_def)

lemma all_full_frame [simp]:
  "all_full e (s\<lparr>events := es\<rparr>) = all_full e s" "all_full e (s\<lparr>mappings := ms\<rparr>) = all_full e s"
  by (simp_all add: all_full_def)

lemma team_ok_mappings [simp]: "team_ok (s\<lparr>mappings := ms\<rparr>) = team_ok s"
  by (simp add: team_ok_def)

text \<open>A change of mappings that moves no assignment in or out of a bucket.\<close>

lemma mappings_upd_quota:
  assumes "\<And>m. m \<in> set (mappings s) \<Longrightarrow> p m \<Longrightarrow>
      mp_requirement_id (f m) = mp_requirement_id m \<and> holds_place (f m) = holds_place m"
    and "quota_ok s"
  shows "quota_ok (s\<lparr>mappings := row_upd p f (mappings s)\<rparr>)"
proof -
  have "row_count (\<lambda>m. mp_requirement_id m = k \<and> holds_place m) (row_upd p f (mappings s)) =
    row_count (\<lambda>m. mp_requirement_id m = k \<and> holds_place m) (mappings s)" for k
    using assms(1) by (intro row_count_row_upd_same) auto
  then have "quota_ok (s\<lparr>mappings := row_upd p f (mappings s)\<rparr>) = quota_ok s"
    by (simp add: quota_ok_def)
  with assms(2) show ?thesis by simp
qed

section \<open>Declaring\<close>

lemma new_requirements_facts:
  "map rq_id (new_requirements n ev rs) = [n..<n + length rs] \<and> length (new_requirements n ev rs) = length rs \<and>
   (\<forall>r \<in> set (new_requirements n ev rs). rq_event_id r = ev \<and> rq_filled_count r = 0 \<and> rq_status r = OPEN \<and>
      rq_required_count r \<in> snd ` set rs)"
proof (induction n ev rs rule: new_requirements.induct)
  case (1 n ev)
  then show ?case by simp
next
  case (2 n ev skill quota rs)
  then show ?case by (auto simp: upt_conv_Cons simp del: upt_Suc)
qed

lemma declare_event_inv:
  assumes inv: "vol_inv s" and "ec_requirements data \<noteq> []" "\<forall>r \<in> set (ec_requirements data). 0 < snd r"
  shows "vol_inv (fst (declare_event now t u data s))"
proof (cases "resolve_broadcast_districts (broadcast_type_value (ec_broadcast_type data))
    (ec_source_district data) (ec_target_districts data)")
  case (Inl e)
  then show ?thesis using inv by (simp add: declare_event_def)
next
  case (Inr resolved)
  let ?n = "next_uuid s"
  let ?reqs = "new_requirements (Suc ?n) ?n (ec_requirements data)"
  note facts = new_requirements_facts [of "Suc ?n" ?n "ec_requirements data"]
  obtain event s1 s2 where s2: "declare_event now t u data s = (s2, Inr event)"
    and s1: "s1 = s\<lparr>events := events s @ [event], requirements := requirements s @ ?reqs,
      next_uuid := Suc ?n + length ?reqs\<rparr>"
    and ev: "ev_id event = ?n" "ev_status event = DECLARED"
    and emitted: "\<exists>k tt d. s2 = vol_emit now k tt d s1"
    using Inr by (simp add: declare_event_def Let_def) blast
  have kids: "rq_id r < Suc ?n + length ?reqs \<and> ?n < rq_id r" if "r \<in> set ?reqs" for r
  proof -
    have "rq_id r \<in> set (map rq_id ?reqs)" using that by simp
    then show ?thesis using facts by (simp only: facts) auto
  qed
  have ks: "keys_ok s" "refs_ok s" "quota_ok s" "team_ok s" using inv by (simp_all add: vol_inv_def)
  have "keys_ok s1"
    using ks(1) facts kids ev(1) unfolding s1 keys_ok_def below_iff
    by (auto simp del: upt_Suc)
  moreover have refs: "refs_ok s1"
    using ks(2) facts ev(1) unfolding s1 refs_ok_def by (auto 4 3)
  moreover have "quota_ok s1"
  proof -
    have "row_count (\<lambda>m. mp_requirement_id m = rq_id r \<and> holds_place m) (mappings s) = 0" if "r \<in> set ?reqs" for r
      unfolding row_count_0_iff using ks(1,2) kids [OF that] by (force simp: refs_ok_def keys_ok_def below_iff)
    then show ?thesis
      using ks(3) facts assms(3) unfolding s1 quota_ok_def by (auto 4 3)
  qed
  moreover have "team_ok s1"
  proof -
    obtain r where r: "r \<in> set ?reqs" using facts assms(2) by (cases ?reqs) auto
    have old: "ev_id e \<noteq> ?n" if "e \<in> set (events s)" for e
      using that ks(1) by (auto simp: keys_ok_def below_iff)
    have "all_full (ev_id e) s1 = all_full (ev_id e) s" if "e \<in> set (events s)" for e
      using facts old [OF that] by (auto simp: all_full_def s1)
    moreover have "\<not> all_full ?n s1" using r facts by (auto simp: all_full_def s1)
    ultimately show ?thesis using ks(4) r facts ev unfolding s1 team_ok_def by (auto 4 3)
  qed
  ultimately have "vol_inv s1" by (simp add: vol_inv_def)
  with emitted s2 show ?thesis by auto
qed

section \<open>Matching\<close>

text \<open>What a round of notifications adds: \<open>new\<close> are NOTIFIED mappings of the event, appended, with
  fresh ids.\<close>

definition notices ::
  "disaster_event \<Rightarrow> volunteer_db \<Rightarrow> volunteer_db \<Rightarrow> event_volunteer_mapping list \<Rightarrow> bool" where
  "notices event s s' new \<longleftrightarrow>
     profiles s' = profiles s \<and> events s' = events s \<and> requirements s' = requirements s \<and>
     processed_events s' = processed_events s \<and>
     mappings s' = mappings s @ new \<and> length (outbox s') = length (outbox s) + length new \<and>
     next_uuid s \<le> next_uuid s' \<and> distinct (map mp_id new) \<and>
     (\<forall>m \<in> set new. mp_event_id m = ev_id event \<and> mp_status m = NOTIFIED \<and>
        next_uuid s \<le> mp_id m \<and> mp_id m < next_uuid s')"

lemma notices_refl: "notices event s s []"
  by (simp add: notices_def)

lemma notices_trans:
  assumes "notices event s s1 new1" "notices event s1 s2 new2"
  shows "notices event s s2 (new1 @ new2)"
  using assms by (fastforce simp: notices_def)

lemma notify_notices:
  "\<exists>m. notices event s (notify_volunteer now event r v s) [m] \<and>
     mp_volunteer_id m = vp_id v \<and> mp_requirement_id m = rq_id r"
  by (simp add: notify_volunteer_def notices_def)

lemma fold_notify_notices:
  "\<exists>new. notices event s (fold (notify_volunteer now event r) vs s) new \<and>
     map mp_volunteer_id new = map vp_id vs \<and> (\<forall>m \<in> set new. mp_requirement_id m = rq_id r)"
proof (induction vs arbitrary: s)
  case Nil
  then show ?case using notices_refl by fastforce
next
  case (Cons v vs)
  obtain m where m: "notices event s (notify_volunteer now event r v s) [m]"
    "mp_volunteer_id m = vp_id v" "mp_requirement_id m = rq_id r"
    using notify_notices by blast
  obtain new where new: "notices event (notify_volunteer now event r v s)
      (fold (notify_volunteer now event r) vs (notify_volunteer now event r v s)) new"
    "map mp_volunteer_id new = map vp_id vs" "\<forall>m \<in> set new. mp_requirement_id m = rq_id r"
    using Cons.IH by blast
  have "notices event s (fold (notify_volunteer now event r) (v # vs) s) (m # new)"
    using notices_trans [OF m(1) new(1)] by simp
  then show ?case using m new by (intro exI [of _ "m # new"]) simp
qed

lemma set_find_candidates:
  "set (find_candidates ds skill ex s) = {v \<in> set (profiles s). is_candidate ds skill v \<and> vp_id v \<notin> set ex}"
  by (auto simp: find_candidates_def)

lemma distinct_find_candidates:
  "distinct (map vp_id (profiles s)) \<Longrightarrow> distinct (map vp_id (find_candidates ds skill ex s))"
  unfolding find_candidates_def
  by (auto simp: distinct_map intro: inj_on_subset)

text \<open>The whole loop over the buckets: who is notified, for which bucket, and that nobody eligible is
  left out.\<close>

definition eligible ::
  "string list \<Rightarrow> event_requirement list \<Rightarrow> volunteer_db \<Rightarrow> event_requirement \<Rightarrow> volunteer_profile \<Rightarrow> bool" where
  "eligible ds rs s r v \<longleftrightarrow>
     r \<in> set rs \<and> rq_status r = OPEN \<and> v \<in> set (profiles s) \<and> is_candidate ds (rq_skill r) v"

lemma match_requirements_spec:
  assumes "match_requirements now ds event rs mapped s = (s', n)" "distinct (map vp_id (profiles s))"
  shows "\<exists>new. notices event s s' new \<and> length new = n \<and>
    distinct (map mp_volunteer_id new) \<and> mp_volunteer_id ` set new \<inter> set mapped = {} \<and>
    (\<forall>m \<in> set new. \<exists>r v. eligible ds rs s r v \<and> mp_requirement_id m = rq_id r \<and> mp_volunteer_id m = vp_id v) \<and>
    (\<forall>r v. eligible ds rs s r v \<longrightarrow> vp_id v \<in> set mapped \<union> mp_volunteer_id ` set new)"
  using assms
proof (induction rs arbitrary: mapped s n)
  case Nil
  then show ?case using notices_refl by (intro exI [of _ "[]"]) (simp add: eligible_def)
next
  case (Cons r rs)
  show ?case
  proof (cases "rq_status r = OPEN")
    case False
    then have el: "eligible ds (r # rs) s = eligible ds rs s" by (auto simp: eligible_def fun_eq_iff)
    show ?thesis unfolding el using Cons.IH [of mapped s n] Cons.prems False by simp
  next
    case True
    let ?vs = "find_candidates ds (rq_skill r) mapped s"
    let ?s1 = "fold (notify_volunteer now event r) ?vs s"
    obtain n2 where m: "match_requirements now ds event rs (map vp_id ?vs @ mapped) ?s1 = (s', n2)"
      and n: "n = length ?vs + n2"
      using Cons.prems(1) True by (auto simp: Let_def split: prod.splits)
    obtain new1 where new1: "notices event s ?s1 new1" "map mp_volunteer_id new1 = map vp_id ?vs"
      "\<forall>m \<in> set new1. mp_requirement_id m = rq_id r"
      using fold_notify_notices by blast
    then have p: "profiles ?s1 = profiles s" by (simp add: notices_def)
    then have el: "eligible ds rs ?s1 = eligible ds rs s" by (auto simp: eligible_def fun_eq_iff)
    obtain new2 where new2: "notices event ?s1 s' new2" "length new2 = n2"
      "distinct (map mp_volunteer_id new2)"
      "mp_volunteer_id ` set new2 \<inter> set (map vp_id ?vs @ mapped) = {}"
      "\<forall>m \<in> set new2. \<exists>r v. eligible ds rs s r v \<and> mp_requirement_id m = rq_id r \<and> mp_volunteer_id m = vp_id v"
      "\<forall>r v. eligible ds rs s r v \<longrightarrow> vp_id v \<in> set (map vp_id ?vs @ mapped) \<union> mp_volunteer_id ` set new2"
      using Cons.IH [OF m] Cons.prems(2) unfolding p el by blast
    have ids1: "mp_volunteer_id ` set new1 = vp_id ` set ?vs" using new1(2) by (metis image_set)
    have len: "length new1 = length ?vs" using new1(2) by (metis length_map)
    have d1: "distinct (map mp_volunteer_id new1)"
      using new1(2) distinct_find_candidates [OF Cons.prems(2)] by simp
    have src1: "\<exists>v. eligible ds (r # rs) s r v \<and> mp_volunteer_id m = vp_id v" if "m \<in> set new1" for m
      using that ids1 True by (auto simp: eligible_def set_find_candidates dest!: equalityD1)
    have "vp_id ` set ?vs \<inter> set mapped = {}" by (auto simp: set_find_candidates)
    then have "mp_volunteer_id ` set (new1 @ new2) \<inter> set mapped = {}"
      using new2(4) ids1 by (simp add: image_Un Int_Un_distrib Int_Un_distrib2)
    moreover have "distinct (map mp_volunteer_id (new1 @ new2))"
      using d1 new2(3,4) ids1 by auto
    moreover have "\<exists>r' v. eligible ds (r # rs) s r' v \<and> mp_requirement_id m = rq_id r' \<and> mp_volunteer_id m = vp_id v"
      if "m \<in> set (new1 @ new2)" for m
      using that src1 new1(3) new2(5) by (fastforce simp: eligible_def)
    moreover have "vp_id v \<in> set mapped \<union> mp_volunteer_id ` set (new1 @ new2)"
      if "eligible ds (r # rs) s r' v" for r' v
    proof (cases "r' \<in> set rs")
      case True
      then have "eligible ds rs s r' v" using that by (simp add: eligible_def)
      then show ?thesis using new2(6) ids1 by (auto simp: image_Un)
    next
      case False
      then have "v \<in> set ?vs \<or> vp_id v \<in> set mapped" using that by (auto simp: eligible_def set_find_candidates)
      then show ?thesis using ids1 by (auto simp: image_Un)
    qed
    ultimately show ?thesis
      using notices_trans [OF new1(1) new2(1)] len new2(2) n
      by (intro exI [of _ "new1 @ new2"] conjI ballI allI impI) (simp_all only: length_append)
  qed
qed

text \<open>Appending notifications keeps the invariant when the buckets belong to the event and no
  volunteer is mapped twice.\<close>

lemma notices_inv:
  assumes "notices event s s' new" "vol_inv s"
    and "distinct (map mp_volunteer_id new)"
    and "\<And>m. m \<in> set new \<Longrightarrow> mp_volunteer_id m \<in> vp_id ` set (profiles s)"
    and "\<And>m. m \<in> set new \<Longrightarrow> \<exists>r \<in> set (requirements s). rq_id r = mp_requirement_id m \<and> rq_event_id r = ev_id event"
    and "\<And>m x. m \<in> set new \<Longrightarrow> x \<in> set (mappings s) \<Longrightarrow> mp_event_id x = ev_id event \<Longrightarrow>
           mp_volunteer_id x \<noteq> mp_volunteer_id m"
  shows "vol_inv s'"
proof -
  have n: "profiles s' = profiles s" "events s' = events s" "requirements s' = requirements s"
    "mappings s' = mappings s @ new" "next_uuid s \<le> next_uuid s'" "distinct (map mp_id new)"
    "\<And>m. m \<in> set new \<Longrightarrow> mp_event_id m = ev_id event \<and> mp_status m = NOTIFIED \<and>
       next_uuid s \<le> mp_id m \<and> mp_id m < next_uuid s'"
    using assms(1) by (simp_all add: notices_def)
  have ks: "keys_ok s" "refs_ok s" "quota_ok s" "team_ok s" using assms(2) by (simp_all add: vol_inv_def)
  have "distinct (map (\<lambda>m. (mp_event_id m, mp_volunteer_id m)) new)"
    using assms(3) by (auto simp: distinct_map inj_on_def)
  moreover have "(\<lambda>m. (mp_event_id m, mp_volunteer_id m)) ` set (mappings s) \<inter>
      (\<lambda>m. (mp_event_id m, mp_volunteer_id m)) ` set new = {}"
    using assms(6) n(7) by fastforce
  moreover have "mp_id ` set (mappings s) \<inter> mp_id ` set new = {}"
    using ks(1) n(7) by (fastforce simp: keys_ok_def below_iff)
  ultimately have "keys_ok s'"
    using ks(1) n(5,6,7) unfolding keys_ok_def below_iff n(1-4) by auto
  moreover have "refs_ok s'"
    using ks(2) assms(4,5) n(7) unfolding refs_ok_def n(1-4) by auto
  moreover have "row_count (\<lambda>m. mp_requirement_id m = k \<and> holds_place m) new = 0" for k
    unfolding row_count_0_iff using n(7) by (auto simp: holds_place_def)
  then have "quota_ok s' = quota_ok s"
    unfolding quota_ok_def n(1-4) by (simp add: row_count_append)
  moreover have "team_ok s' = team_ok s" unfolding team_ok_def all_full_def n(1-4) ..
  ultimately show ?thesis using ks by (simp add: vol_inv_def)
qed

lemma events_status_inv:
  assumes "vol_inv s"
    and "\<And>e. e \<in> set (events s) \<Longrightarrow> ev_id e = eid \<Longrightarrow>
      (st = TEAM_FORMED \<longrightarrow> all_full eid s) \<and> (all_full eid s \<longrightarrow> st \<in> {TEAM_FORMED, CLOSED})"
  shows "vol_inv (s\<lparr>events := row_upd (\<lambda>e. ev_id e = eid) (\<lambda>e. e\<lparr>ev_status := st\<rparr>) (events s)\<rparr>)"
proof -
  let ?s = "s\<lparr>events := row_upd (\<lambda>e. ev_id e = eid) (\<lambda>e. e\<lparr>ev_status := st\<rparr>) (events s)\<rparr>"
  have ks: "keys_ok s" "refs_ok s" "quota_ok s" "team_ok s" using assms(1) by (simp_all add: vol_inv_def)
  have "keys_ok ?s \<and> refs_ok ?s" by (rule events_upd_keys_refs [OF _ ks(1,2)]) simp
  moreover have "team_ok ?s"
    using ks(4) assms(2) unfolding team_ok_def by (auto simp: set_row_upd)
  ultimately show ?thesis using ks(3) by (simp add: vol_inv_def)
qed

lemma run_matching_cases:
  assumes "run_matching now eid s = (s', res)" "vol_inv s"
  obtains (skipped) "s' = s" "res = Inr 0" "\<And>e. row_get ev_id eid (events s) = Some e \<Longrightarrow> ev_status e \<notin> {DECLARED, BROADCASTING}"
  | (failed) err where "s' = s" "res = Inl err"
  | (ran) event ds s1 new where "row_get ev_id eid (events s) = Some event"
      "ev_status event \<in> {DECLARED, BROADCASTING}"
      "resolve_broadcast_districts (broadcast_type_value (ev_broadcast_type event))
         (ev_source_district event) (Some (ev_target_districts event)) = Inr ds"
      "notices event s s1 new" "res = Inr (length new)" "distinct (map mp_volunteer_id new)"
      "s' = s1\<lparr>events := row_upd (\<lambda>e. ev_id e = eid) (\<lambda>e. e\<lparr>ev_status := BROADCASTING\<rparr>) (events s1)\<rparr>"
      "\<And>m x. m \<in> set new \<Longrightarrow> x \<in> set (mappings s) \<Longrightarrow> mp_event_id x = eid \<Longrightarrow> mp_volunteer_id x \<noteq> mp_volunteer_id m"
      "\<And>m. m \<in> set new \<Longrightarrow> \<exists>r v. eligible ds (filter (\<lambda>r. rq_event_id r = eid) (requirements s)) s r v \<and>
         mp_requirement_id m = rq_id r \<and> mp_volunteer_id m = vp_id v"
      "\<And>r v. eligible ds (filter (\<lambda>r. rq_event_id r = eid) (requirements s)) s r v \<Longrightarrow>
         \<exists>m \<in> set (mappings s @ new). mp_event_id m = eid \<and> mp_volunteer_id m = vp_id v"
proof (cases "row_get ev_id eid (events s)")
  case None
  then show ?thesis using assms(1) by (intro skipped) (auto simp: run_matching_def)
next
  case (Some event)
  have eid: "ev_id event = eid" using row_get_Some [OF Some] by simp
  show ?thesis
  proof (cases "ev_status event \<in> {DECLARED, BROADCASTING}")
    case False
    then show ?thesis using Some assms(1) by (intro skipped) (auto simp: run_matching_def)
  next
    case True
    show ?thesis
    proof (cases "resolve_broadcast_districts (broadcast_type_value (ev_broadcast_type event))
        (ev_source_district event) (Some (ev_target_districts event))")
      case (Inl err)
      then show ?thesis using Some True assms(1) by (intro failed [of err]) (auto simp: run_matching_def)
    next
      case (Inr ds)
      let ?mapped = "map mp_volunteer_id (filter (\<lambda>m. mp_event_id m = eid) (mappings s))"
      obtain s1 n where m: "match_requirements now ds event
          (filter (\<lambda>r. rq_event_id r = eid) (requirements s)) ?mapped s = (s1, n)"
        by fastforce
      have "distinct (map vp_id (profiles s))" using assms(2) by (simp add: vol_inv_def keys_ok_def)
      from match_requirements_spec [OF m this] obtain new where new: "notices event s s1 new" "length new = n"
        "distinct (map mp_volunteer_id new)" "mp_volunteer_id ` set new \<inter> set ?mapped = {}"
        "\<And>m. m \<in> set new \<Longrightarrow> \<exists>r v. eligible ds (filter (\<lambda>r. rq_event_id r = eid) (requirements s)) s r v \<and>
           mp_requirement_id m = rq_id r \<and> mp_volunteer_id m = vp_id v"
        "\<And>r v. eligible ds (filter (\<lambda>r. rq_event_id r = eid) (requirements s)) s r v \<Longrightarrow>
           vp_id v \<in> set ?mapped \<union> mp_volunteer_id ` set new"
        by blast
      have all: "\<exists>m \<in> set (mappings s @ new). mp_event_id m = eid \<and> mp_volunteer_id m = vp_id v"
        if "eligible ds (filter (\<lambda>r. rq_event_id r = eid) (requirements s)) s r v" for r v
        using new(6) [OF that] new(1) eid by (auto simp: notices_def)
      show ?thesis
        using assms(1) Some True Inr m new(2,4) eid
        by (intro ran [OF Some True Inr new(1) _ new(3) _ _ new(5) all]) (auto simp: run_matching_def)
    qed
  qed
qed

lemma run_matching_inv:
  assumes "vol_inv s"
  shows "vol_inv (fst (run_matching now eid s))"
proof -
  obtain s' res where r: "run_matching now eid s = (s', res)" by fastforce
  from r assms have "vol_inv s'"
  proof (cases rule: run_matching_cases)
    case (ran event ds s1 new)
    have eid: "ev_id event = eid" "event \<in> set (events s)" using row_get_Some [OF ran(1)] by auto
    have "vol_inv s1"
      by (rule notices_inv [OF ran(4) assms ran(6)]) (use ran(8,9) eid in \<open>fastforce simp: eligible_def\<close>)+
    moreover have "\<not> all_full eid s1"
      using ran(2,4) assms eid by (auto simp: vol_inv_def team_ok_def all_full_def notices_def)
    ultimately show ?thesis
      unfolding ran(7) by (intro events_status_inv) auto
  qed (use assms in simp_all)
  with r show ?thesis by simp
qed

section \<open>Accepting\<close>

definition set_status :: "timestamp \<Rightarrow> uuid \<Rightarrow> assignment_status \<Rightarrow> volunteer_db \<Rightarrow> volunteer_db" where
  "set_status now mid st s =
     s\<lparr>mappings := row_upd (\<lambda>m. mp_id m = mid) (\<lambda>m. m\<lparr>mp_status := st, mp_responded_at := Some now\<rparr>) (mappings s)\<rparr>"

definition fill_place :: "uuid \<Rightarrow> volunteer_db \<Rightarrow> volunteer_db" where
  "fill_place k s =
     s\<lparr>requirements := row_upd (\<lambda>r. rq_id r = k)
        (\<lambda>r. r\<lparr>rq_filled_count := rq_filled_count r + 1,
               rq_status := (if rq_filled_count r + 1 = rq_required_count r then FULFILLED_REQ else rq_status r)\<rparr>)
        (requirements s)\<rparr>"

lemma set_status_frame [simp]:
  "profiles (set_status now mid st s) = profiles s" "events (set_status now mid st s) = events s"
  "requirements (set_status now mid st s) = requirements s" "next_uuid (set_status now mid st s) = next_uuid s"
  "outbox (set_status now mid st s) = outbox s"
  "mappings (set_status now mid st s) = row_upd (\<lambda>m. mp_id m = mid)
     (\<lambda>m. m\<lparr>mp_status := st, mp_responded_at := Some now\<rparr>) (mappings s)"
  by (simp_all add: set_status_def)

lemma fill_place_frame [simp]:
  "profiles (fill_place k s) = profiles s" "events (fill_place k s) = events s"
  "mappings (fill_place k s) = mappings s" "outbox (fill_place k s) = outbox s"
  by (simp_all add: fill_place_def)

lemma own_mapping_Some:
  "own_mapping mid u s = Some m \<Longrightarrow>
   m \<in> set (mappings s) \<and> mp_id m = mid \<and>
   (\<exists>v \<in> set (profiles s). vp_id v = mp_volunteer_id m \<and> vp_user_id v = u)"
  by (auto simp: own_mapping_def find_Some_iff)

lemma mapping_unique:
  "keys_ok s \<Longrightarrow> m \<in> set (mappings s) \<Longrightarrow> m' \<in> set (mappings s) \<Longrightarrow> mp_id m' = mp_id m \<Longrightarrow> m' = m"
  by (auto simp: keys_ok_def distinct_map inj_on_def)

lemma requirement_unique:
  "keys_ok s \<Longrightarrow> r \<in> set (requirements s) \<Longrightarrow> r' \<in> set (requirements s) \<Longrightarrow> rq_id r' = rq_id r \<Longrightarrow> r' = r"
  by (auto simp: keys_ok_def distinct_map inj_on_def)

lemma guarded_count:
  assumes "keys_ok s" "m \<in> set (mappings s)"
  shows "row_count (\<lambda>x. mp_id x = mp_id m \<and> P (mp_status x)) (mappings s) = 0 \<longleftrightarrow> \<not> P (mp_status m)"
  unfolding row_count_0_iff using mapping_unique [OF assms] assms(2) by auto

lemma guarded_update:
  assumes "keys_ok s" "m \<in> set (mappings s)" "P (mp_status m)"
  shows "row_upd (\<lambda>x. mp_id x = mp_id m \<and> P (mp_status x)) f (mappings s) =
    row_upd (\<lambda>x. mp_id x = mp_id m) f (mappings s)"
  using mapping_unique [OF assms(1,2)] assms(3) by (intro row_upd_cong) auto

lemma set_status_inv:
  assumes "vol_inv s" "\<And>m. m \<in> set (mappings s) \<Longrightarrow> mp_id m = mid \<Longrightarrow>
    holds_place m = (st \<in> {ACCEPTED, EN_ROUTE, COMPLETED})"
  shows "vol_inv (set_status now mid st s)"
proof -
  have ks: "keys_ok s" "refs_ok s" "quota_ok s" "team_ok s" using assms(1) by (simp_all add: vol_inv_def)
  have "keys_ok (set_status now mid st s) \<and> refs_ok (set_status now mid st s)"
    unfolding set_status_def by (rule mappings_upd_keys_refs) (simp_all add: ks)
  moreover have "quota_ok (set_status now mid st s)"
    unfolding set_status_def using assms(2) ks(3) by (intro mappings_upd_quota) (auto simp: holds_place_def)
  ultimately show ?thesis using ks(4) by (simp add: vol_inv_def set_status_def)
qed

text \<open>Claiming a NOTIFIED mapping and taking a place in a bucket that is not full.\<close>

lemma accept_tables_ok:
  assumes inv: "vol_inv s" and m: "m \<in> set (mappings s)" "mp_status m = NOTIFIED"
    and r: "r \<in> set (requirements s)" "rq_id r = mp_requirement_id m" "rq_filled_count r < rq_required_count r"
    and s2: "s2 = fill_place (rq_id r) (set_status now (mp_id m) ACCEPTED s)"
  shows "keys_ok s2 \<and> refs_ok s2 \<and> quota_ok s2"
proof -
  have ks: "keys_ok s" "refs_ok s" "quota_ok s" using inv by (simp_all add: vol_inv_def)
  let ?s1 = "set_status now (mp_id m) ACCEPTED s"
  have k1: "keys_ok ?s1 \<and> refs_ok ?s1"
    unfolding set_status_def by (rule mappings_upd_keys_refs) (simp_all add: ks)
  then have kr: "keys_ok s2 \<and> refs_ok s2"
    unfolding s2 fill_place_def by (intro requirements_upd_keys_refs) simp_all
  have own: "row_count (\<lambda>x. mp_requirement_id x = rq_id r \<and> holds_place x) (mappings ?s1) =
    Suc (row_count (\<lambda>x. mp_requirement_id x = rq_id r \<and> holds_place x) (mappings s))"
    unfolding set_status_frame using ks(1) m r(2)
    by (intro row_count_row_upd_one) (auto simp: keys_ok_def holds_place_def)
  have other: "row_count (\<lambda>x. mp_requirement_id x = k \<and> holds_place x) (mappings ?s1) =
    row_count (\<lambda>x. mp_requirement_id x = k \<and> holds_place x) (mappings s)" if "k \<noteq> rq_id r" for k
    unfolding set_status_frame using mapping_unique [OF ks(1) m(1)] r(2) that
    by (intro row_count_row_upd_same) auto
  have "quota_ok s2"
    unfolding quota_ok_def
  proof
    fix x assume x: "x \<in> set (requirements s2)"
    then obtain y where y: "y \<in> set (requirements s)" "x = (if rq_id y = rq_id r then
        y\<lparr>rq_filled_count := rq_filled_count y + 1,
          rq_status := (if rq_filled_count y + 1 = rq_required_count y then FULFILLED_REQ else rq_status y)\<rparr> else y)"
      by (auto simp: s2 fill_place_def set_row_upd)
    note q = ks(3) [unfolded quota_ok_def, rule_format, OF y(1)]
    show "0 < rq_required_count x \<and> rq_filled_count x \<le> rq_required_count x \<and>
        rq_filled_count x = int (row_count (\<lambda>m. mp_requirement_id m = rq_id x \<and> holds_place m) (mappings s2)) \<and>
        (rq_status x = FULFILLED_REQ \<longleftrightarrow> rq_filled_count x = rq_required_count x)"
    proof (cases "rq_id y = rq_id r")
      case True
      then have "y = r" using requirement_unique [OF ks(1) r(1) y(1)] by simp
      then show ?thesis using q own r(3) y(2) by (auto simp: s2)
    next
      case False
      then show ?thesis using q other [OF False] y(2) by (simp add: s2)
    qed
  qed
  with kr show ?thesis by blast
qed

text \<open>The three outcomes of an acceptance whose mapping exists and is NOTIFIED, in terms of the two
  table updates.\<close>

lemma find_gate:
  assumes "keys_ok s" "r \<in> set (requirements s)"
  shows "find (\<lambda>x. rq_id x = rq_id r \<and> rq_filled_count x < rq_required_count x) (requirements s) =
    (if rq_filled_count r < rq_required_count r then Some r else None)"
proof (cases "find (\<lambda>x. rq_id x = rq_id r \<and> rq_filled_count x < rq_required_count x) (requirements s)")
  case None
  then show ?thesis using assms(2) by (auto simp: find_None_iff)
next
  case (Some y)
  then have "y \<in> set (requirements s)" "rq_id y = rq_id r" "rq_filled_count y < rq_required_count y"
    by (auto simp: find_Some_iff)
  then show ?thesis using Some requirement_unique [OF assms] by auto
qed

lemma gate_update:
  assumes "keys_ok s" "r \<in> set (requirements s)" "rq_filled_count r < rq_required_count r"
  shows "row_upd (\<lambda>x. rq_id x = rq_id r \<and> rq_filled_count x < rq_required_count x) f (requirements s) =
    row_upd (\<lambda>x. rq_id x = rq_id r) f (requirements s)"
  using requirement_unique [OF assms(1,2)] assms(3) by (intro row_upd_cong) auto

lemma all_full_count:
  "(row_count (\<lambda>r. rq_event_id r = e \<and> rq_status r \<noteq> FULFILLED_REQ) (requirements s) = 0) = all_full e s"
  by (auto simp: row_count_0_iff all_full_def)

text \<open>Closing a bucket: what \<open>mark_requirement_fulfilled\<close> does to a database whose bucket \<open>k\<close> has just
  received its last place.\<close>

lemma mark_outcome:
  assumes "row_get rq_id k (requirements s) = Some r" "row_get ev_id (rq_event_id r) (events s) = Some event"
    and "s2 = s\<lparr>requirements := row_upd (\<lambda>r. rq_id r = k) (\<lambda>r. r\<lparr>rq_status := FULFILLED_REQ\<rparr>) (requirements s)\<rparr>"
  shows "\<exists>d1 d2 t. mark_requirement_fulfilled now k s =
    Some (let s1 = vol_emit now ''volunteer.requirement.fulfilled'' t d1 s2 in
          if all_full (ev_id event) s2 \<and> ev_status event \<noteq> TEAM_FORMED then
            vol_emit now ''volunteer.team.formed'' t ((''event_id'', JUuid (ev_id event)) # d2)
              (s1\<lparr>events := row_upd (\<lambda>e. ev_id e = ev_id event) (\<lambda>e. e\<lparr>ev_status := TEAM_FORMED\<rparr>) (events s1)\<rparr>)
          else s1)"
  unfolding mark_requirement_fulfilled_def assms(1,2) option.case assms(3) [symmetric] Let_def
    all_full_count other_ok_emit by auto

lemma accept_cases:
  assumes acc: "accept_assignment now mid u s = (s', res)" and inv: "vol_inv s"
  obtains (not_found) "own_mapping mid u s = None" "s' = s" "res = Inl AssignmentNotFound"
  | (responded) m where "own_mapping mid u s = Some m" "mp_status m \<noteq> NOTIFIED" "s' = s"
      "res = Inl (AlreadyResponded (mp_status m))"
  | (full) m r where "own_mapping mid u s = Some m" "mp_status m = NOTIFIED" "r \<in> set (requirements s)"
      "rq_id r = mp_requirement_id m" "rq_event_id r = mp_event_id m" "rq_filled_count r = rq_required_count r"
      "s' = set_status now mid REJECTED_FULL s" "res = Inl QuotaFullError"
  | (placed) m r where "own_mapping mid u s = Some m" "mp_status m = NOTIFIED" "r \<in> set (requirements s)"
      "rq_id r = mp_requirement_id m" "rq_event_id r = mp_event_id m" "rq_filled_count r + 1 < rq_required_count r"
      "s' = fill_place (rq_id r) (set_status now mid ACCEPTED s)"
      "res = Inr (m\<lparr>mp_status := ACCEPTED, mp_responded_at := Some now\<rparr>)"
  | (last_place) m r s2 event t d1 d2 where "own_mapping mid u s = Some m" "mp_status m = NOTIFIED"
      "r \<in> set (requirements s)" "rq_id r = mp_requirement_id m" "rq_event_id r = mp_event_id m"
      "rq_filled_count r + 1 = rq_required_count r"
      "s2 = fill_place (rq_id r) (set_status now mid ACCEPTED s)"
      "event \<in> set (events s)" "ev_id event = rq_event_id r"
      "s' = (let s1 = vol_emit now ''volunteer.requirement.fulfilled'' t d1 s2 in
          if all_full (ev_id event) s2 \<and> ev_status event \<noteq> TEAM_FORMED then
            vol_emit now ''volunteer.team.formed'' t ((''event_id'', JUuid (ev_id event)) # d2)
              (s1\<lparr>events := row_upd (\<lambda>e. ev_id e = ev_id event) (\<lambda>e. e\<lparr>ev_status := TEAM_FORMED\<rparr>) (events s1)\<rparr>)
          else s1)"
      "res = Inr (m\<lparr>mp_status := ACCEPTED, mp_responded_at := Some now\<rparr>)"
proof (cases "own_mapping mid u s")
  case None
  then show ?thesis using acc by (intro not_found) (auto simp: accept_assignment_def)
next
  case (Some m)
  have ks: "keys_ok s" "refs_ok s" "quota_ok s" using inv by (simp_all add: vol_inv_def)
  have m: "m \<in> set (mappings s)" "mp_id m = mid" using own_mapping_Some [OF Some] by auto
  note cnt = guarded_count [OF ks(1) m(1), of "\<lambda>x. x = NOTIFIED", unfolded m(2)]
  show ?thesis
  proof (cases "mp_status m = NOTIFIED")
    case False
    then show ?thesis using acc Some cnt by (intro responded [OF Some]) (auto simp: accept_assignment_def)
  next
    case st: True
    obtain r where r: "r \<in> set (requirements s)" "rq_id r = mp_requirement_id m" "rq_event_id r = mp_event_id m"
      using ks(2) m(1) by (auto simp: refs_ok_def)
    let ?s1 = "set_status now mid ACCEPTED s"
    have s1: "s\<lparr>mappings := row_upd (\<lambda>x. mp_id x = mid \<and> mp_status x = NOTIFIED)
        (\<lambda>m. m\<lparr>mp_status := ACCEPTED, mp_responded_at := Some now\<rparr>) (mappings s)\<rparr> = ?s1"
      using guarded_update [OF ks(1) m(1), of "\<lambda>x. x = NOTIFIED"] st m(2) by (simp add: set_status_def)
    note gate = find_gate [OF ks(1) r(1), unfolded r(2)]
    show ?thesis
    proof (cases "rq_filled_count r < rq_required_count r")
      case False
      then have eq: "rq_filled_count r = rq_required_count r" using ks(3) r(1) by (force simp: quota_ok_def)
      have "s' = set_status now mid REJECTED_FULL ?s1" "res = Inl QuotaFullError"
        using acc Some st cnt gate False
        by (auto simp: accept_assignment_def Let_def s1) (simp add: set_status_def)
      moreover have "set_status now mid REJECTED_FULL ?s1 = set_status now mid REJECTED_FULL s"
        by (simp add: set_status_def row_upd_row_upd)
      ultimately show ?thesis using full [OF Some st r eq] by simp
    next
      case room: True
      let ?s2 = "?s1\<lparr>requirements := row_upd (\<lambda>x. rq_id x = rq_id r)
        (\<lambda>x. x\<lparr>rq_filled_count := rq_filled_count x + 1\<rparr>) (requirements s)\<rparr>"
      have code: "(case (if rq_filled_count r + 1 \<ge> rq_required_count r
             then mark_requirement_fulfilled now (mp_requirement_id m) ?s2 else Some ?s2) of
           None \<Rightarrow> (s, Inl NoResultFound)
         | Some s3 \<Rightarrow> (s3, Inr (m\<lparr>mp_status := ACCEPTED, mp_responded_at := Some now\<rparr>))) = (s', res)"
        using acc [unfolded accept_assignment_def Some option.case Let_def s1]
          st cnt gate room gate_update [OF ks(1) r(1) room, unfolded r(2)]
        by (simp add: r(2) split: if_splits)
      show ?thesis
      proof (cases "rq_filled_count r + 1 = rq_required_count r")
        case False
        then have "?s2 = fill_place (rq_id r) ?s1"
          using requirement_unique [OF ks(1) r(1)] unfolding fill_place_def set_status_frame
          by (intro arg_cong2 [where f = requirements_update] refl ext row_upd_fun_cong) auto
        then show ?thesis using placed [OF Some st r] code room False by simp
      next
        case True
        define s3 where "s3 = fill_place (rq_id r) ?s1"
        have s3: "s3 = ?s2\<lparr>requirements := row_upd (\<lambda>x. rq_id x = rq_id r)
            (\<lambda>x. x\<lparr>rq_status := FULFILLED_REQ\<rparr>) (requirements ?s2)\<rparr>"
          using requirement_unique [OF ks(1) r(1)] True unfolding s3_def fill_place_def set_status_frame
          by (simp add: row_upd_row_upd) (intro arg_cong2 [where f = requirements_update] refl ext row_upd_fun_cong, auto)
        have g: "row_get rq_id (rq_id r) (requirements ?s2) = Some (r\<lparr>rq_filled_count := rq_filled_count r + 1\<rparr>)"
        proof -
          have "row_get rq_id (rq_id r) (requirements s) = Some r"
            using ks(1) r(1) by (intro row_get_member) (simp_all add: keys_ok_def)
          then show ?thesis by (simp add: row_get_row_upd)
        qed
        obtain event where ev: "row_get ev_id (rq_event_id r) (events s) = Some event"
          using ks(2) r(1) by (metis option.exhaust refs_ok_def row_get_None_iff)
        then have e: "event \<in> set (events s)" "ev_id event = rq_event_id r" using row_get_Some by fast+
        obtain d1 d2 t where mk: "mark_requirement_fulfilled now (rq_id r) ?s2 =
          Some (let s1 = vol_emit now ''volunteer.requirement.fulfilled'' t d1 s3 in
            if all_full (ev_id event) s3 \<and> ev_status event \<noteq> TEAM_FORMED then
              vol_emit now ''volunteer.team.formed'' t ((''event_id'', JUuid (ev_id event)) # d2)
                (s1\<lparr>events := row_upd (\<lambda>e. ev_id e = ev_id event) (\<lambda>e. e\<lparr>ev_status := TEAM_FORMED\<rparr>) (events s1)\<rparr>)
            else s1)"
          using mark_outcome [OF g _ s3, of event now] ev by auto
        have "Some s' = mark_requirement_fulfilled now (rq_id r) ?s2"
          and res: "res = Inr (m\<lparr>mp_status := ACCEPTED, mp_responded_at := Some now\<rparr>)"
          using code mk True r(2) by simp_all
        note this(1) [unfolded mk option.inject]
        then show ?thesis by (rule last_place [OF Some st r True s3_def e _ res])
      qed
    qed
  qed
qed

lemma accept_inv:
  assumes inv: "vol_inv s"
  shows "vol_inv (fst (accept_assignment now mid u s))"
proof -
  obtain s' res where acc: "accept_assignment now mid u s = (s', res)" by fastforce
  have ks: "keys_ok s" "team_ok s" using inv by (simp_all add: vol_inv_def)
  from acc inv have "vol_inv s'"
  proof (cases rule: accept_cases)
    case (full m r)
    have m: "m \<in> set (mappings s)" "mp_id m = mid" using own_mapping_Some [OF full(1)] by auto
    have "holds_place x = (REJECTED_FULL \<in> {ACCEPTED, EN_ROUTE, COMPLETED})"
      if "x \<in> set (mappings s)" "mp_id x = mid" for x
      using mapping_unique [OF ks(1) m(1) that(1)] that(2) m(2) full(2) by (simp add: holds_place_def)
    then show ?thesis unfolding full(7) by (rule set_status_inv [OF inv])
  next
    case (placed m r)
    have m: "m \<in> set (mappings s)" "mp_id m = mid" using own_mapping_Some [OF placed(1)] by auto
    have ok: "keys_ok s' \<and> refs_ok s' \<and> quota_ok s'"
      by (rule accept_tables_ok [OF inv m(1) placed(2,3,4)]) (use placed m in simp_all)
    have req: "requirements s' = row_upd (\<lambda>x. rq_id x = rq_id r)
        (\<lambda>x. x\<lparr>rq_filled_count := rq_filled_count x + 1,
               rq_status := (if rq_filled_count x + 1 = rq_required_count x then FULFILLED_REQ else rq_status x)\<rparr>)
        (requirements s)"
      by (simp add: placed(7) fill_place_def)
    have "all_full e s' = all_full e s" for e
      unfolding all_full_def req ball_row_upd
      using placed(6) by (intro ball_cong refl) (auto dest: requirement_unique [OF ks(1) placed(3)])
    moreover have "(\<exists>x \<in> set (requirements s'). rq_event_id x = e) = (\<exists>x \<in> set (requirements s). rq_event_id x = e)" for e
      unfolding req bex_row_upd by (intro bex_cong refl) auto
    ultimately have "team_ok s'" using ks(2) by (simp add: team_ok_def placed(7))
    with ok show ?thesis by (simp add: vol_inv_def)
  next
    case (last_place m r s2 event t d1 d2)
    have m: "m \<in> set (mappings s)" "mp_id m = mid" using own_mapping_Some [OF last_place(1)] by auto
    have ok: "keys_ok s2 \<and> refs_ok s2 \<and> quota_ok s2"
      by (rule accept_tables_ok [OF inv m(1) last_place(2,3,4)]) (use last_place m in simp_all)
    have req: "requirements s2 = row_upd (\<lambda>x. rq_id x = rq_id r)
        (\<lambda>x. x\<lparr>rq_filled_count := rq_filled_count x + 1,
               rq_status := (if rq_filled_count x + 1 = rq_required_count x then FULFILLED_REQ else rq_status x)\<rparr>)
        (requirements s)"
      by (simp add: last_place(7) fill_place_def)
    have some: "(\<exists>x \<in> set (requirements s2). rq_event_id x = e) = (\<exists>x \<in> set (requirements s). rq_event_id x = e)" for e
      unfolding req bex_row_upd by (intro bex_cong refl) auto
    have other: "all_full e s2 = all_full e s" if "e \<noteq> rq_event_id r" for e
      unfolding all_full_def req ball_row_upd
      using that by (intro ball_cong refl) (auto dest: requirement_unique [OF ks(1) last_place(3)])
    have notfull: "rq_status r \<noteq> FULFILLED_REQ"
      using inv last_place(3,6) by (auto simp: vol_inv_def quota_ok_def)
    then have nottf: "ev_status event \<noteq> TEAM_FORMED"
      using ks(2) last_place(3,8,9) by (auto simp: team_ok_def all_full_def)
    have evs: "e = event" if "e \<in> set (events s)" "ev_id e = rq_event_id r" for e
      using ks(1) that last_place(8,9) by (auto simp: keys_ok_def distinct_map inj_on_def)
    show ?thesis
    proof (cases "all_full (ev_id event) s2")
      case False
      then have "team_ok s2"
        using ks(2) some other evs nottf last_place(9) unfolding team_ok_def last_place(7) fill_place_frame set_status_frame
        by (metis (no_types, lifting))
      then show ?thesis using ok False by (simp add: last_place(10) Let_def vol_inv_def)
    next
      case True
      let ?upd = "\<lambda>es. row_upd (\<lambda>e. ev_id e = ev_id event) (\<lambda>e. e\<lparr>ev_status := TEAM_FORMED\<rparr>) es"
      let ?s3 = "vol_emit now ''volunteer.requirement.fulfilled'' t d1 s2"
      have ok3: "keys_ok ?s3" "refs_ok ?s3" using ok by simp_all
      have "keys_ok (?s3\<lparr>events := ?upd (events ?s3)\<rparr>) \<and> refs_ok (?s3\<lparr>events := ?upd (events ?s3)\<rparr>)"
        by (rule events_upd_keys_refs [OF _ ok3]) simp
      moreover have "team_ok (?s3\<lparr>events := ?upd (events ?s3)\<rparr>)"
        unfolding team_ok_def
      proof
        fix e assume e: "e \<in> set (events (?s3\<lparr>events := ?upd (events ?s3)\<rparr>))"
        then obtain e0 where e0: "e0 \<in> set (events s)"
          "e = (if ev_id e0 = ev_id event then e0\<lparr>ev_status := TEAM_FORMED\<rparr> else e0)"
          by (auto simp: set_row_upd last_place(7))
        show "(\<exists>x \<in> set (requirements (?s3\<lparr>events := ?upd (events ?s3)\<rparr>)). rq_event_id x = ev_id e) \<and>
          (ev_status e = TEAM_FORMED \<longrightarrow> all_full (ev_id e) (?s3\<lparr>events := ?upd (events ?s3)\<rparr>)) \<and>
          (all_full (ev_id e) (?s3\<lparr>events := ?upd (events ?s3)\<rparr>) \<longrightarrow> ev_status e \<in> {TEAM_FORMED, CLOSED})"
          using ks(2) e0 True some other last_place(3,9) by (cases "ev_id e0 = ev_id event") (auto simp: team_ok_def)
      qed
      moreover have "quota_ok (?s3\<lparr>events := ?upd (events ?s3)\<rparr>)" using ok by simp
      ultimately have "vol_inv (?s3\<lparr>events := ?upd (events ?s3)\<rparr>)" by (simp add: vol_inv_def)
      then show ?thesis using True nottf by (simp add: last_place(10) Let_def)
    qed
  qed (use inv in simp_all)
  with acc show ?thesis by simp
qed

section \<open>The other moves\<close>

lemma allowed_from_same_place:
  "allowed_from st = Some froms \<Longrightarrow> x \<in> set froms \<Longrightarrow>
   (x \<in> {ACCEPTED, EN_ROUTE, COMPLETED}) = (st \<in> {ACCEPTED, EN_ROUTE, COMPLETED})"
  by (cases st) auto

lemma transition_cases:
  assumes "transition_assignment now mid u st s = (s', res)" "vol_inv s"
  obtains (refused) e where "s' = s" "res = Inl e"
  | (moved) m froms event k d where "own_mapping mid u s = Some m" "allowed_from st = Some froms"
      "mp_status m \<in> set froms" "event \<in> set (events s)" "ev_id event = mp_event_id m"
      "s' = vol_emit now k (Some (ev_tenant_id event)) d (set_status now mid st s)"
      "res = Inr (m\<lparr>mp_status := st, mp_responded_at := Some now\<rparr>)"
proof (cases "allowed_from st")
  case None
  then show ?thesis
    using assms(1) by (intro refused [of "CannotTransitionTo st"]) (auto simp: transition_assignment_def)
next
  case a: (Some froms)
  show ?thesis
  proof (cases "own_mapping mid u s")
    case None
    then show ?thesis
      using assms(1) a by (intro refused [of AssignmentNotFound]) (auto simp: transition_assignment_def)
  next
    case (Some m)
    have ks: "keys_ok s" "refs_ok s" using assms(2) by (simp_all add: vol_inv_def)
    have m: "m \<in> set (mappings s)" "mp_id m = mid" using own_mapping_Some [OF Some] by auto
    note cnt = guarded_count [OF ks(1) m(1), of "\<lambda>x. x \<in> set froms", unfolded m(2)]
    note upd = guarded_update [OF ks(1) m(1), of "\<lambda>x. x \<in> set froms", unfolded m(2)]
    show ?thesis
    proof (cases "mp_status m \<in> set froms")
      case False
      then show ?thesis
        using assms(1) a Some cnt
        by (intro refused [of "CannotMove (mp_status m) st"]) (auto simp: transition_assignment_def)
    next
      case True
      have "mp_event_id m \<in> ev_id ` set (events s)" using ks(2) m(1) by (force simp: refs_ok_def)
      then obtain event where e: "row_get ev_id (mp_event_id m) (events s) = Some event"
        by (metis option.exhaust row_get_None_iff)
      show ?thesis
        using assms(1) a Some cnt True e row_get_Some [OF e] upd
        by (intro moved [OF Some a True]) (auto simp: transition_assignment_def set_status_def)
    qed
  qed
qed

lemma transition_inv:
  assumes inv: "vol_inv s"
  shows "vol_inv (fst (transition_assignment now mid u st s))"
proof -
  obtain s' res where t: "transition_assignment now mid u st s = (s', res)" by fastforce
  from t inv have "vol_inv s'"
  proof (cases rule: transition_cases)
    case (moved m froms event k d)
    have m: "m \<in> set (mappings s)" "mp_id m = mid" using own_mapping_Some [OF moved(1)] by auto
    have "keys_ok s" using inv by (simp add: vol_inv_def)
    then have "holds_place x = (st \<in> {ACCEPTED, EN_ROUTE, COMPLETED})"
      if "x \<in> set (mappings s)" "mp_id x = mid" for x
      using mapping_unique [OF _ m(1) that(1)] that(2) m(2) allowed_from_same_place [OF moved(2,3)]
      by (simp add: holds_place_def)
    then have "vol_inv (set_status now mid st s)" by (rule set_status_inv [OF inv])
    then show ?thesis by (simp add: moved(6))
  qed (use inv in simp)
  with t show ?thesis by simp
qed

lemma close_inv:
  assumes "vol_inv s"
  shows "vol_inv (fst (route_close_event p eid s))"
proof (cases "portal p")
  case (Inl e)
  then show ?thesis using assms by (simp add: route_close_event_def)
next
  case (Inr q)
  then show ?thesis
    using assms by (auto simp: route_close_event_def intro!: events_status_inv split: sum.split)
qed

end
