(* ===== verification/Profiles.thy ===== *)
theory Profiles
  imports Matching
begin

text \<open>
  The volunteer profile as a replica of an IAM user and as the volunteer's own record:
  \<open>services/volunteer/app/events/consumers/iam.py\<close>, \<open>events/consumers/disaster.py\<close>,
  \<open>api/routes_profiles.py\<close>, \<open>services/directory.py\<close> with \<open>api/routes_directory.py\<close>,
  \<open>api/routes_help_requests.py\<close> and \<open>api/routes_reports.py\<close>.
\<close>

section \<open>The IAM consumer\<close>

text \<open>\<open>data["full_name"]\<close>, \<open>data.get("phone")\<close>, \<open>data.get("is_active", True)\<close>.\<close>

definition identity_fields :: "(string \<times> json) list \<Rightarrow> py_error + (string \<times> string option \<times> bool)" where
  "identity_fields data =
     andthen (andthen (dindex data ''full_name'') col_str) (\<lambda>n.
     andthen (col_str_opt (dget_default data ''phone'' JNull)) (\<lambda>p.
     andthen (col_bool (dget_default data ''is_active'' (JBool True))) (\<lambda>a. Inr (n, p, a))))"

definition new_profile ::
  "uuid \<Rightarrow> uuid \<Rightarrow> timestamp \<Rightarrow> timestamp \<Rightarrow> string \<times> string option \<times> bool \<Rightarrow> volunteer_profile" where
  "new_profile fresh u now src = (\<lambda>(n, p, a).
     \<lparr>vp_id = fresh, vp_user_id = u, vp_full_name = n, vp_phone = p, vp_is_active = a,
      vp_source_updated_at = Some src, vp_base_district = None, vp_city = None,
      vp_available_status = False, vp_skills = [], vp_created_at = now\<rparr>)"

definition set_identity ::
  "timestamp \<Rightarrow> string \<times> string option \<times> bool \<Rightarrow> volunteer_profile \<Rightarrow> volunteer_profile" where
  "set_identity src = (\<lambda>(n, p, a) v.
     v\<lparr>vp_full_name := n, vp_phone := p, vp_is_active := a, vp_source_updated_at := Some src\<rparr>)"

text \<open>The out-of-order guard of \<open>_upsert_profile\<close>.\<close>

definition accepts_update :: "timestamp \<Rightarrow> volunteer_profile \<Rightarrow> bool" where
  "accepts_update src v \<longleftrightarrow> (case vp_source_updated_at v of None \<Rightarrow> True | Some t \<Rightarrow> t \<le> src)"

definition upsert_profile ::
  "timestamp \<Rightarrow> (string \<times> json) list \<Rightarrow> volunteer_db \<Rightarrow> py_error + volunteer_db" where
  "upsert_profile now data s =
     (if dget data ''user_type'' \<noteq> Some (JStr ''VOLUNTEER'') then Inr s
      else andthen (andthen (dindex data ''user_id'') uuid_of) (\<lambda>u.
           andthen (andthen (dindex data ''updated_at'') fromisoformat) (\<lambda>src.
             case row_get vp_user_id u (profiles s) of
               None \<Rightarrow> andthen (identity_fields data) (\<lambda>f.
                 Inr (s\<lparr>profiles := profiles s @ [new_profile (next_uuid s) u now src f],
                        next_uuid := Suc (next_uuid s)\<rparr>))
             | Some profile \<Rightarrow>
                 if accepts_update src profile then andthen (identity_fields data) (\<lambda>f.
                   Inr (s\<lparr>profiles := row_upd (\<lambda>v. vp_user_id v = u) (set_identity src f) (profiles s)\<rparr>))
                 else Inr s)))"

definition deactivate_profile :: "(string \<times> json) list \<Rightarrow> volunteer_db \<Rightarrow> py_error + volunteer_db" where
  "deactivate_profile data s =
     andthen (andthen (dindex data ''user_id'') uuid_of) (\<lambda>u.
       Inr (s\<lparr>profiles := row_upd (\<lambda>v. vp_user_id v = u)
                (\<lambda>v. v\<lparr>vp_is_active := False, vp_available_status := False\<rparr>) (profiles s)\<rparr>))"

definition mark_processed :: "uuid \<Rightarrow> volunteer_db \<Rightarrow> volunteer_db" where
  "mark_processed e s = s\<lparr>processed_events := e # processed_events s\<rparr>"

definition handle_iam :: "timestamp \<times> json \<Rightarrow> volunteer_db \<Rightarrow> py_error + volunteer_db" where
  "handle_iam = (\<lambda>(now, envelope) s.
     case envelope of
       JObj env \<Rightarrow>
         andthen (andthen (dindex env ''event_id'') uuid_of) (\<lambda>event_id.
         andthen (dindex env ''event_type'') (\<lambda>event_type.
         andthen (dindex env ''data'') (\<lambda>data.
           if event_id \<in> set (processed_events s) then Inr s
           else andthen
             (if event_type \<in> {JStr ''iam.user.registered'', JStr ''iam.user.updated''} then
                (case data of JObj d \<Rightarrow> upsert_profile now d s | _ \<Rightarrow> Inl AttributeError)
              else if event_type = JStr ''iam.user.deactivated'' then
                (case data of JObj d \<Rightarrow> deactivate_profile d s | _ \<Rightarrow> Inl TypeError)
              else Inr s)
             (\<lambda>s'. Inr (mark_processed event_id s')))))
     | _ \<Rightarrow> Inl TypeError)"

section \<open>The disaster consumer\<close>

definition handle_disaster :: "timestamp \<times> json \<Rightarrow> volunteer_db \<Rightarrow> py_error + volunteer_db" where
  "handle_disaster = (\<lambda>(now, envelope) s.
     case envelope of
       JObj env \<Rightarrow>
         andthen (andthen (dindex env ''event_id'') uuid_of) (\<lambda>event_id.
           if event_id \<in> set (processed_events s) then Inr s
           else andthen (dindex env ''data'') (\<lambda>data.
             case data of
               JObj d \<Rightarrow> andthen (andthen (dindex d ''event_id'') uuid_of) (\<lambda>target.
                 case run_matching now target (mark_processed event_id s) of
                   (s', Inl _) \<Rightarrow> Inl ValueError
                 | (s', Inr _) \<Rightarrow> Inr s')
             | _ \<Rightarrow> Inl TypeError))
     | _ \<Rightarrow> Inl TypeError)"

section \<open>The volunteer's own profile\<close>

definition own_profile :: "principal \<Rightarrow> volunteer_db \<Rightarrow> http_error + volunteer_profile" where
  "own_profile p s =
     (case row_get vp_user_id (p_user_id p) (profiles s) of
        None \<Rightarrow> Inl (HTTPException 404 ''Profile not provisioned yet; retry shortly'')
      | Some v \<Rightarrow> Inr v)"

definition route_read_my_profile :: "principal \<Rightarrow> volunteer_db \<Rightarrow> http_error + volunteer_profile" where
  "route_read_my_profile p s = andthen (only_volunteer p) (\<lambda>p. own_profile p s)"

definition route_update_my_profile ::
  "principal \<Rightarrow> profile_update \<Rightarrow> volunteer_db \<Rightarrow> volunteer_db \<times> (http_error + volunteer_profile)" where
  "route_update_my_profile p raw s =
     (case only_volunteer p of
        Inl e \<Rightarrow> (s, Inl e)
      | Inr _ \<Rightarrow>
          (case profile_update_valid raw of
             Inl _ \<Rightarrow> (s, Inl (HTTPException 422 ''validation error''))
           | Inr d \<Rightarrow>
               (case own_profile p s of
                  Inl e \<Rightarrow> (s, Inl e)
                | Inr v \<Rightarrow>
                    (let f = (\<lambda>v. v\<lparr>vp_base_district := Some (pu_base_district d), vp_city := pu_city d,
                                    vp_available_status := pu_available_status d, vp_skills := pu_skills d\<rparr>)
                     in (s\<lparr>profiles := row_upd (\<lambda>x. vp_user_id x = p_user_id p) f (profiles s)\<rparr>, Inr (f v))))))"

definition route_set_availability ::
  "principal \<Rightarrow> bool \<Rightarrow> volunteer_db \<Rightarrow> volunteer_db \<times> (http_error + volunteer_profile)" where
  "route_set_availability p available s =
     (case only_volunteer p of
        Inl e \<Rightarrow> (s, Inl e)
      | Inr _ \<Rightarrow>
          (case own_profile p s of
             Inl e \<Rightarrow> (s, Inl e)
           | Inr v \<Rightarrow>
               if available \<and> vp_base_district v = None then
                 (s, Inl (HTTPException 422 ''Set base_district before going available''))
               else (s\<lparr>profiles := row_upd (\<lambda>x. vp_user_id x = p_user_id p)
                          (\<lambda>x. x\<lparr>vp_available_status := available\<rparr>) (profiles s)\<rparr>,
                     Inr (v\<lparr>vp_available_status := available\<rparr>))))"

section \<open>The directory\<close>

text \<open>SQL \<open>ILIKE '%' || needle || '%'\<close>: case-insensitive containment, with \<open>%\<close> and \<open>_\<close> of the needle
  as wildcards.\<close>

fun like :: "string \<Rightarrow> string \<Rightarrow> bool" where
  "like [] s = (s = [])"
| "like (c # ps) s =
     (if c = CHR ''%'' then like ps s \<or> (case s of [] \<Rightarrow> False | _ # s' \<Rightarrow> like (c # ps) s')
      else (case s of [] \<Rightarrow> False | x # s' \<Rightarrow> (c = CHR ''_'' \<or> x = c) \<and> like ps s'))"

definition ilike :: "string \<Rightarrow> string \<Rightarrow> bool" where
  "ilike s pat = like (lower pat) (lower s)"

definition contains_pattern :: "string \<Rightarrow> string" where
  "contains_pattern q = ''%'' @ q @ ''%''"

text \<open>A query parameter that is absent or empty filters nothing.\<close>

definition given :: "string option \<Rightarrow> bool" where
  "given q \<longleftrightarrow> q \<noteq> None \<and> q \<noteq> Some []"

definition build_filters ::
  "string option \<Rightarrow> string option \<Rightarrow> string option \<Rightarrow> string option \<Rightarrow> bool \<Rightarrow> volunteer_profile \<Rightarrow> bool" where
  "build_filters q skill district city available_only v \<longleftrightarrow>
     vp_is_active v \<and>
     (available_only \<longrightarrow> vp_available_status v) \<and>
     (given district \<longrightarrow> vp_base_district v = district) \<and>
     (given city \<longrightarrow> (\<exists>c. vp_city v = Some c \<and> ilike c (contains_pattern (the city)))) \<and>
     (given skill \<longrightarrow> normalise_skill (the skill) \<in> set (vp_skills v)) \<and>
     (given q \<longrightarrow> ilike (vp_full_name v) (contains_pattern (strip (the q))) \<or>
        (\<exists>ph. vp_phone v = Some ph \<and> ilike ph (contains_pattern (strip (the q)))))"

text \<open>\<open>ORDER BY available_status DESC, created_at DESC\<close>: the stable sort by the minor key first.\<close>

definition directory_order :: "volunteer_profile list \<Rightarrow> volunteer_profile list" where
  "directory_order vs =
     sort_key (\<lambda>v. if vp_available_status v then 0 else 1 :: nat) (sort_key (\<lambda>v. - vp_created_at v) vs)"

definition search ::
  "string option \<Rightarrow> string option \<Rightarrow> string option \<Rightarrow> string option \<Rightarrow> bool \<Rightarrow> nat \<Rightarrow> nat \<Rightarrow> volunteer_db \<Rightarrow>
   volunteer_profile list \<times> nat" where
  "search q skill district city available_only limit offset s =
     (let rows = filter (build_filters q skill district city available_only) (profiles s)
      in (take limit (drop offset (directory_order rows)), length rows))"

definition distinct_skills :: "volunteer_db \<Rightarrow> string list" where
  "distinct_skills s = sorted_set (concat (map vp_skills (profiles s)))"

definition route_list_skills :: "principal \<Rightarrow> volunteer_db \<Rightarrow> http_error + string list" where
  "route_list_skills p s = andthen (portal p) (\<lambda>_. Inr (distinct_skills s))"

definition route_search_volunteers ::
  "principal \<Rightarrow> string option \<Rightarrow> string option \<Rightarrow> string option \<Rightarrow> string option \<Rightarrow> bool \<Rightarrow> int \<Rightarrow> int \<Rightarrow>
   volunteer_db \<Rightarrow> http_error + (volunteer_profile list \<times> nat \<times> int \<times> int)" where
  "route_search_volunteers p q skill district city available_only limit offset s =
     andthen (portal p) (\<lambda>_.
       if limit < 1 \<or> limit > 200 \<or> offset < 0 then Inl (HTTPException 422 ''validation error'')
       else (case search q skill district city available_only (nat limit) (nat offset) s of
           (items, cnt) \<Rightarrow> Inr (items, cnt, limit, offset)))"

section \<open>Help requests and reports\<close>

record help_request_create =
  hc_disaster_type :: string
  hc_needs :: "string list"
  hc_description :: "string option"
  hc_latitude :: "pyfloat option"
  hc_longitude :: "pyfloat option"

definition route_create_help_request ::
  "timestamp \<Rightarrow> principal \<Rightarrow> help_request_create \<Rightarrow> volunteer_db \<Rightarrow> volunteer_db \<times> (http_error + victim_request)" where
  "route_create_help_request now p d s =
     (case require_any_role [''victim''] p of
        Inl e \<Rightarrow> (s, Inl e)
      | Inr _ \<Rightarrow>
          (let r = \<lparr>vr_id = next_uuid s, vr_victim_id = Some (p_user_id p),
                    vr_disaster_type = hc_disaster_type d, vr_needs = hc_needs d,
                    vr_description = hc_description d, vr_latitude = hc_latitude d,
                    vr_longitude = hc_longitude d, vr_status = ''PENDING'', vr_event_id = None,
                    vr_created_at = now\<rparr>
           in (s\<lparr>victim_requests := victim_requests s @ [r], next_uuid := Suc (next_uuid s)\<rparr>, Inr r)))"

definition route_pending_requests :: "principal \<Rightarrow> volunteer_db \<Rightarrow> http_error + victim_request list" where
  "route_pending_requests p s =
     andthen (require_any_role [''tenant_admin'', ''coordinator'', ''super_admin''] p) (\<lambda>_.
       Inr (sort_key (\<lambda>r. - vr_created_at r) (filter (\<lambda>r. vr_status r = ''PENDING'') (victim_requests s))))"

definition route_my_requests :: "principal \<Rightarrow> volunteer_db \<Rightarrow> http_error + victim_request list" where
  "route_my_requests p s =
     andthen (require_any_role [''victim''] p) (\<lambda>_.
       Inr (sort_key (\<lambda>r. - vr_created_at r)
         (filter (\<lambda>r. vr_victim_id r = Some (p_user_id p)) (victim_requests s))))"

record report_create =
  rc_category :: string
  rc_severity :: string
  rc_district :: string
  rc_city :: string
  rc_description :: "string option"
  rc_image_url :: "string option"

definition route_submit_report ::
  "timestamp \<Rightarrow> principal \<Rightarrow> report_create \<Rightarrow> volunteer_db \<Rightarrow> volunteer_db \<times> (http_error + volunteer_report)" where
  "route_submit_report now p d s =
     (case only_volunteer p of
        Inl e \<Rightarrow> (s, Inl e)
      | Inr _ \<Rightarrow>
          (case row_get vp_user_id (p_user_id p) (profiles s) of
             None \<Rightarrow> (s, Inl (HTTPException 404 ''Volunteer profile not found''))
           | Some v \<Rightarrow>
               (let r = \<lparr>vrp_id = next_uuid s, vrp_volunteer_id = vp_id v, vrp_category = rc_category d,
                         vrp_severity = rc_severity d, vrp_district = rc_district d, vrp_city = rc_city d,
                         vrp_description = rc_description d, vrp_image_url = rc_image_url d,
                         vrp_status = ''PENDING'', vrp_created_at = now\<rparr>
                in (s\<lparr>reports := reports s @ [r], next_uuid := Suc (next_uuid s)\<rparr>, Inr r))))"

end
