(* ===== verification/Volunteer.thy ===== *)
theory Volunteer
  imports Matching_Inv Profiles
begin

text \<open>
  The volunteer service as a transition system over its database, and its correctness: the invariant
  of every reachable state, first-come-first-serve acceptance, completeness and idempotence of
  matching, effectively-once consumption of events, convergence of the identity replica, and
  agreement of the directory with the matching engine.
\<close>

section \<open>The remaining operations keep the invariant\<close>

lemma profiles_inv:
  assumes "vol_inv s" "distinct (map vp_id ps)" "distinct (map vp_user_id ps)"
    and "vp_id ` set (profiles s) \<subseteq> vp_id ` set ps" "below vp_id ps n" "next_uuid s \<le> n"
  shows "vol_inv (s\<lparr>profiles := ps, next_uuid := n\<rparr>)"
proof -
  have "below key rows (next_uuid s) \<Longrightarrow> below key rows n" for key :: "'x \<Rightarrow> uuid" and rows
    using assms(6) by (auto simp: below_iff)
  then show ?thesis
    using assms by (auto simp: vol_inv_def keys_ok_def refs_ok_def quota_ok_def team_ok_def all_full_def below_iff)
qed

lemma profiles_upd_inv:
  assumes "vol_inv s" "\<And>v. vp_id (f v) = vp_id v" "\<And>v. vp_user_id (f v) = vp_user_id v"
  shows "vol_inv (s\<lparr>profiles := row_upd p f (profiles s)\<rparr>)"
proof -
  have "vol_inv (s\<lparr>profiles := row_upd p f (profiles s), next_uuid := next_uuid s\<rparr>)"
    using assms by (intro profiles_inv) (auto simp: map_key_row_upd image_key_row_upd vol_inv_def keys_ok_def)
  then show ?thesis by simp
qed

lemma new_profile_inv:
  assumes "vol_inv s" "row_get vp_user_id u (profiles s) = None"
  shows "vol_inv (s\<lparr>profiles := profiles s @ [new_profile (next_uuid s) u now src f], next_uuid := Suc (next_uuid s)\<rparr>)"
proof -
  obtain n p a where f: "f = (n, p, a)" by (cases f)
  have "keys_ok s" using assms(1) by (simp add: vol_inv_def)
  then show ?thesis
    using assms by (intro profiles_inv)
      (auto simp: keys_ok_def below_iff row_get_None_iff new_profile_def f less_Suc_eq)
qed

lemma vol_inv_frame [simp]:
  "vol_inv (s\<lparr>processed_events := x\<rparr>) = vol_inv s" "vol_inv (s\<lparr>outbox := ob\<rparr>) = vol_inv s"
  "vol_inv (s\<lparr>victim_requests := vr\<rparr>) = vol_inv s" "vol_inv (s\<lparr>reports := rp\<rparr>) = vol_inv s"
  by (simp_all add: vol_inv_def keys_ok_def refs_ok_def quota_ok_def team_ok_def all_full_def)

lemma vol_inv_draw:
  assumes "vol_inv s" "next_uuid s \<le> n"
  shows "vol_inv (s\<lparr>next_uuid := n\<rparr>)"
proof -
  have "vol_inv (s\<lparr>profiles := profiles s, next_uuid := n\<rparr>)"
    using assms by (intro profiles_inv) (auto simp: vol_inv_def keys_ok_def below_iff)
  then show ?thesis by simp
qed

lemma set_identity_keys [simp]:
  "vp_id (set_identity src f v) = vp_id v" "vp_user_id (set_identity src f v) = vp_user_id v"
  by (simp_all add: set_identity_def split: prod.split)

lemma upsert_cases:
  assumes "upsert_profile now d s = Inr s'"
  obtains (ignored) "s' = s"
  | (created) u src f where "row_get vp_user_id u (profiles s) = None"
      "s' = s\<lparr>profiles := profiles s @ [new_profile (next_uuid s) u now src f], next_uuid := Suc (next_uuid s)\<rparr>"
  | (updated) u src f where
      "s' = s\<lparr>profiles := row_upd (\<lambda>v. vp_user_id v = u) (set_identity src f) (profiles s)\<rparr>"
proof (cases "dget d ''user_type'' = Some (JStr ''VOLUNTEER'')")
  case False
  then show ?thesis using assms ignored by (simp add: upsert_profile_def)
next
  case True
  with assms obtain u src where u: "andthen (dindex d ''user_id'') uuid_of = Inr u"
    "andthen (dindex d ''updated_at'') fromisoformat = Inr src"
    by (cases "andthen (dindex d ''user_id'') uuid_of"; cases "andthen (dindex d ''updated_at'') fromisoformat")
      (auto simp: upsert_profile_def)
  show ?thesis
  proof (cases "row_get vp_user_id u (profiles s)")
    case None
    with True assms u obtain f where "identity_fields d = Inr f"
      "s' = s\<lparr>profiles := profiles s @ [new_profile (next_uuid s) u now src f], next_uuid := Suc (next_uuid s)\<rparr>"
      by (cases "identity_fields d") (auto simp: upsert_profile_def)
    then show ?thesis using created None by blast
  next
    case (Some v)
    show ?thesis
    proof (cases "accepts_update src v")
      case acc: True
      with True Some assms u obtain f where "identity_fields d = Inr f"
        "s' = s\<lparr>profiles := row_upd (\<lambda>v. vp_user_id v = u) (set_identity src f) (profiles s)\<rparr>"
        by (cases "identity_fields d") (auto simp: upsert_profile_def)
      then show ?thesis using updated by blast
    next
      case False
      then show ?thesis using True Some assms u ignored by (simp add: upsert_profile_def)
    qed
  qed
qed

lemma upsert_inv: "upsert_profile now d s = Inr s' \<Longrightarrow> vol_inv s \<Longrightarrow> vol_inv s'"
  by (erule upsert_cases) (auto intro: profiles_upd_inv new_profile_inv)

lemma deactivate_inv: "deactivate_profile d s = Inr s' \<Longrightarrow> vol_inv s \<Longrightarrow> vol_inv s'"
  by (auto simp: deactivate_profile_def andthen_Inr intro!: profiles_upd_inv)

lemma handle_iam_cases:
  assumes "handle_iam (now, m) s = Inr s'"
  obtains (seen) e where "envelope_id m = Some e" "e \<in> set (processed_events s)" "s' = s"
  | (applied) e s1 where "envelope_id m = Some e" "e \<notin> set (processed_events s)" "s' = mark_processed e s1"
      "s1 = s \<or> (\<exists>d. upsert_profile now d s = Inr s1) \<or> (\<exists>d. deactivate_profile d s = Inr s1)"
proof (cases m)
  case (JObj env)
  from assms JObj obtain v e where e: "dindex env ''event_id'' = Inr v" "uuid_of v = Inr e"
    by (auto simp: handle_iam_def andthen_Inr)
  then have id: "envelope_id m = Some e"
    by (auto simp: JObj envelope_id_def dget_def dindex_def split: option.splits)
  from assms JObj e show ?thesis
    by (cases "e \<in> set (processed_events s)")
      (auto simp: handle_iam_def andthen_Inr id intro: seen [OF id] applied [OF id] split: if_splits json.splits)
qed (use assms in \<open>auto simp: handle_iam_def\<close>)

lemma handle_disaster_cases:
  assumes "handle_disaster (now, m) s = Inr s'"
  obtains (seen) e where "envelope_id m = Some e" "e \<in> set (processed_events s)" "s' = s"
  | (applied) e t n where "envelope_id m = Some e" "e \<notin> set (processed_events s)"
      "run_matching now t (mark_processed e s) = (s', Inr n)"
proof (cases m)
  case (JObj env)
  from assms JObj obtain v e where e: "dindex env ''event_id'' = Inr v" "uuid_of v = Inr e"
    by (auto simp: handle_disaster_def andthen_Inr)
  then have id: "envelope_id m = Some e"
    by (auto simp: JObj envelope_id_def dget_def dindex_def split: option.splits)
  show ?thesis
  proof (cases "e \<in> set (processed_events s)")
    case True
    then show ?thesis using seen [OF id] assms JObj e by (simp add: handle_disaster_def)
  next
    case False
    with assms JObj e obtain d where d: "dindex env ''data'' = Inr (JObj d)"
      by (cases "dindex env ''data''") (auto simp: handle_disaster_def split: json.splits)
    with False assms JObj e obtain t where t: "andthen (dindex d ''event_id'') uuid_of = Inr t"
      by (cases "andthen (dindex d ''event_id'') uuid_of") (auto simp: handle_disaster_def)
    obtain s1 res where r: "run_matching now t (mark_processed e s) = (s1, res)" by fastforce
    with False assms JObj e d t show ?thesis
      by (cases res) (auto simp: handle_disaster_def intro: applied [OF id False])
  qed
qed (use assms in \<open>auto simp: handle_disaster_def\<close>)

lemma handle_iam_inv: "handle_iam (now, m) s = Inr s' \<Longrightarrow> vol_inv s \<Longrightarrow> vol_inv s'"
  by (erule handle_iam_cases) (auto simp: mark_processed_def intro: upsert_inv deactivate_inv)

lemma handle_disaster_inv: "handle_disaster (now, m) s = Inr s' \<Longrightarrow> vol_inv s \<Longrightarrow> vol_inv s'"
  using run_matching_inv [of "mark_processed _ s" now]
  by (elim handle_disaster_cases) (simp, metis fst_conv mark_processed_def vol_inv_frame(1))

section \<open>The transition system\<close>

text \<open>One step is one committed transaction: an HTTP request, a consumed message, or a drain of the
  outbox.\<close>

inductive vol_call :: "volunteer_db \<Rightarrow> volunteer_db \<Rightarrow> bool" where
  step_declare: "route_declare_event now p raw s = (s', res) \<Longrightarrow> vol_call s s'"
| step_rebroadcast: "route_rebroadcast now p eid s = (s', res') \<Longrightarrow> vol_call s s'"
| step_close: "route_close_event p eid s = (s', res'') \<Longrightarrow> vol_call s s'"
| step_accept: "route_accept now p mid s = (s', res3) \<Longrightarrow> vol_call s s'"
| step_transition: "route_transition now p mid st s = (s', res3) \<Longrightarrow> vol_call s s'"
| step_update_profile: "route_update_my_profile p upd s = (s', res4) \<Longrightarrow> vol_call s s'"
| step_availability: "route_set_availability p b s = (s', res4) \<Longrightarrow> vol_call s s'"
| step_help: "route_create_help_request now p hc s = (s', res5) \<Longrightarrow> vol_call s s'"
| step_report: "route_submit_report now p rc s = (s', res6) \<Longrightarrow> vol_call s s'"

inductive vol_step :: "volunteer_db \<Rightarrow> volunteer_db \<Rightarrow> bool" where
  step_call: "vol_call s s' \<Longrightarrow> vol_step s s'"
| step_iam: "handle_iam (now, m) s = Inr s' \<Longrightarrow> vol_step s s'"
| step_disaster: "handle_disaster (now, m) s = Inr s' \<Longrightarrow> vol_step s s'"
| step_relay: "drain_once locked broker now (outbox s) = (ob, sent, n) \<Longrightarrow> vol_step s (s\<lparr>outbox := ob\<rparr>)"

lemma route_declare_inv:
  assumes "vol_inv s"
  shows "vol_inv (fst (route_declare_event now p raw s))"
proof (cases "event_create_valid raw")
  case (Inr d)
  note v = event_create_valid_Inr [OF Inr]
  have "vol_inv (fst (declare_event now t u d s))" for t u
    using v by (intro declare_event_inv [OF assms]) auto
  then show ?thesis
    using assms Inr by (auto simp: route_declare_event_def split: sum.splits option.splits prod.splits)
      (metis fst_conv)+
qed (use assms in \<open>auto simp: route_declare_event_def split: sum.splits\<close>)

lemma vol_call_inv: "vol_call s s' \<Longrightarrow> vol_inv s \<Longrightarrow> vol_inv s'"
proof (induction rule: vol_call.induct)
  case (step_declare now p raw s s' res)
  then show ?case using route_declare_inv by (metis fst_conv)
next
  case (step_rebroadcast now p eid s s' res')
  then show ?case using run_matching_inv [of s now eid]
    by (auto simp: route_rebroadcast_def split: sum.splits if_splits prod.splits)
next
  case (step_close p eid s s' res'')
  then show ?case using close_inv by (metis fst_conv)
next
  case (step_accept now p mid s s' res3)
  then show ?case using accept_inv [of s now mid "p_user_id p"]
    by (auto simp: route_accept_def split: sum.splits prod.splits)
next
  case (step_transition now p mid st s s' res3)
  then show ?case using transition_inv [of s now mid "p_user_id p" st]
    by (auto simp: route_transition_def split: sum.splits prod.splits)
next
  case (step_update_profile p upd s s' res4)
  then show ?case
    by (auto simp: route_update_my_profile_def Let_def intro: profiles_upd_inv split: sum.splits)
next
  case (step_availability p b s s' res4)
  then show ?case
    by (auto simp: route_set_availability_def intro: profiles_upd_inv split: sum.splits if_splits)
next
  case (step_help now p hc s s' res5)
  then show ?case
    by (auto simp: route_create_help_request_def Let_def intro!: vol_inv_draw split: sum.splits)
next
  case (step_report now p rc s s' res6)
  then show ?case
    by (auto simp: route_submit_report_def Let_def intro!: vol_inv_draw split: sum.splits option.splits)
qed

lemma vol_step_inv: "vol_step s s' \<Longrightarrow> vol_inv s \<Longrightarrow> vol_inv s'"
  by (induction rule: vol_step.induct) (auto intro: vol_call_inv handle_iam_inv handle_disaster_inv)

lemma empty_inv: "vol_inv empty_volunteer_db"
  by (simp add: empty_volunteer_db_def vol_inv_def keys_ok_def refs_ok_def quota_ok_def team_ok_def below_def)

lemma reachable_inv: "vol_step\<^sup>*\<^sup>* empty_volunteer_db s \<Longrightarrow> vol_inv s"
  by (induction rule: rtranclp_induct) (auto intro: empty_inv vol_step_inv)

section \<open>First come, first served\<close>

text \<open>A sequence of acceptances, each by its volunteer at its time; the flags say which succeeded.\<close>

fun accept_all :: "(timestamp \<times> uuid \<times> uuid) list \<Rightarrow> volunteer_db \<Rightarrow> volunteer_db \<times> bool list" where
  "accept_all [] s = (s, [])"
| "accept_all ((now, mid, u) # as) s =
     (case accept_assignment now mid u s of
        (s', res) \<Rightarrow> (case accept_all as s' of (s'', flags) \<Rightarrow> (s'', (\<exists>m. res = Inr m) # flags)))"

text \<open>The places left in a bucket.\<close>

definition places_left :: "uuid \<Rightarrow> volunteer_db \<Rightarrow> nat" where
  "places_left k s =
     (case row_get rq_id k (requirements s) of
        None \<Rightarrow> 0
      | Some r \<Rightarrow> nat (rq_required_count r - rq_filled_count r))"

text \<open>A pending invitation of volunteer \<open>u\<close> to bucket \<open>k\<close>.\<close>

definition invited :: "uuid \<Rightarrow> uuid \<Rightarrow> uuid \<Rightarrow> volunteer_db \<Rightarrow> bool" where
  "invited k mid u s \<longleftrightarrow>
     (case own_mapping mid u s of
        None \<Rightarrow> False
      | Some m \<Rightarrow> mp_status m = NOTIFIED \<and> mp_requirement_id m = k)"

lemma own_mapping_other:
  assumes "mid' \<noteq> mid" "profiles s' = profiles s" "mappings s' = mappings (set_status now mid st s)"
  shows "own_mapping mid' u s' = own_mapping mid' u s"
  unfolding own_mapping_def assms(2,3) set_status_frame
  by (rule find_row_upd_other) (use assms(1) in auto)

lemma places_left_fill:
  "places_left k (fill_place k' s) =
     (if k = k' then places_left k s - 1 else places_left k s)"
  by (auto simp: places_left_def fill_place_def row_get_row_upd dest: row_get_Some split: option.split)

lemma places_left_frame [simp]:
  "places_left k (set_status now mid st s) = places_left k s"
  "places_left k (vol_emit now key t d s) = places_left k s"
  "places_left k (s\<lparr>events := es\<rparr>) = places_left k s"
  by (simp_all add: places_left_def)

lemma row_get_requirement:
  "keys_ok s \<Longrightarrow> r \<in> set (requirements s) \<Longrightarrow> row_get rq_id (rq_id r) (requirements s) = Some r"
  by (rule row_get_member) (simp_all add: keys_ok_def)

text \<open>One acceptance of a pending invitation succeeds exactly when there is room, uses one place, and
  leaves every other assignment as it was.\<close>

lemma accept_invited:
  assumes inv: "vol_inv s" and i: "invited k mid u s" and acc: "accept_assignment now mid u s = (s', res)"
  shows "((\<exists>m. res = Inr m) \<longleftrightarrow> 0 < places_left k s) \<and> (res = Inl QuotaFullError \<longleftrightarrow> places_left k s = 0) \<and>
    places_left k s' = places_left k s - 1 \<and>
    (\<forall>mid' u'. mid' \<noteq> mid \<longrightarrow> own_mapping mid' u' s' = own_mapping mid' u' s)"
proof -
  have keys: "keys_ok s" using inv by (simp add: vol_inv_def)
  from acc inv show ?thesis
  proof (cases rule: accept_cases)
    case not_found
    then show ?thesis using i by (simp add: invited_def)
  next
    case (responded m)
    then show ?thesis using i by (simp add: invited_def)
  next
    case (full m r)
    then have k: "k = rq_id r" using i by (simp add: invited_def)
    have "places_left k s = 0"
      using row_get_requirement [OF keys full(3)] full(6) by (simp add: places_left_def k)
    moreover have "own_mapping mid' u' s' = own_mapping mid' u' s" if "mid' \<noteq> mid" for mid' u'
      using that by (rule own_mapping_other [where now = now and st = REJECTED_FULL]) (simp_all add: full(7))
    ultimately show ?thesis using full(7,8) by simp
  next
    case (placed m r)
    then have k: "k = rq_id r" using i by (simp add: invited_def)
    have "0 < places_left k s"
      using row_get_requirement [OF keys placed(3)] placed(6) by (simp add: places_left_def k)
    moreover have "own_mapping mid' u' s' = own_mapping mid' u' s" if "mid' \<noteq> mid" for mid' u'
      using that by (rule own_mapping_other [where now = now and st = ACCEPTED]) (simp_all add: placed(7))
    ultimately show ?thesis using placed(7,8) k by (simp add: places_left_fill)
  next
    case (last_place m r s2 event t d1 d2)
    then have k: "k = rq_id r" using i by (simp add: invited_def)
    have "0 < places_left k s"
      using row_get_requirement [OF keys last_place(3)] last_place(6) by (simp add: places_left_def k)
    moreover have "own_mapping mid' u' s' = own_mapping mid' u' s" if "mid' \<noteq> mid" for mid' u'
      using that by (rule own_mapping_other [where now = now and st = ACCEPTED]) (simp_all add: last_place(7,10) Let_def)
    moreover have "places_left k s' = places_left k s2" by (simp add: last_place(10) Let_def)
    ultimately show ?thesis using last_place(7,11) k by (simp add: places_left_fill)
  qed
qed

lemma accept_all_flags:
  assumes "vol_inv s" "distinct (map (fst \<circ> snd) as)" "\<forall>(now, mid, u) \<in> set as. invited k mid u s"
    and "accept_all as s = (s', flags)"
  shows "flags = replicate (min (length as) (places_left k s)) True @
      replicate (length as - places_left k s) False \<and>
    places_left k s' = places_left k s - length as"
  using assms
proof (induction as arbitrary: s flags)
  case Nil
  then show ?case by simp
next
  case (Cons a as)
  obtain now mid u where a: "a = (now, mid, u)" by (cases a)
  obtain s1 res where acc: "accept_assignment now mid u s = (s1, res)" by fastforce
  obtain fl where all: "accept_all as s1 = (s', fl)" and flags: "flags = (\<exists>m. res = Inr m) # fl"
    using Cons.prems(4) acc by (auto simp: a split: prod.splits)
  have inv1: "vol_inv s1" using accept_inv [OF Cons.prems(1)] acc by (metis fst_conv)
  have i: "invited k mid u s" using Cons.prems(3) a by simp
  note one = accept_invited [OF Cons.prems(1) i acc]
  have "\<forall>(now, mid', u') \<in> set as. invited k mid' u' s1"
  proof (clarify)
    fix now' mid' u' assume x: "(now', mid', u') \<in> set as"
    then have "mid' \<noteq> mid" using Cons.prems(2) a by force
    then show "invited k mid' u' s1" using one x Cons.prems(3) by (auto simp: invited_def)
  qed
  with Cons.IH [OF inv1 _ _ all] Cons.prems(2) one flags show ?case
    by (cases "places_left k s") auto
qed

section \<open>Consumers\<close>

lemma upsert_processed: "upsert_profile now d s = Inr s' \<Longrightarrow> processed_events s' = processed_events s"
  by (erule upsert_cases) simp_all

lemma deactivate_processed: "deactivate_profile d s = Inr s' \<Longrightarrow> processed_events s' = processed_events s"
  by (auto simp: deactivate_profile_def andthen_Inr)

lemma fold_notify_processed [simp]:
  "processed_events (fold (notify_volunteer now event r) vs s) = processed_events s"
  by (induction vs arbitrary: s) (simp_all add: notify_volunteer_def)

lemma match_requirements_processed:
  "match_requirements now ds event rs mapped s = (s', n) \<Longrightarrow> processed_events s' = processed_events s"
  by (induction rs arbitrary: mapped s n) (auto simp: Let_def split: if_splits prod.splits)

lemma run_matching_processed: "run_matching now t s = (s', res) \<Longrightarrow> processed_events s' = processed_events s"
  by (auto simp: run_matching_def dest: match_requirements_processed
      split: option.splits if_splits sum.splits prod.splits)

interpretation vol_iam: idempotent_consumer handle_iam
  "\<lambda>s. set (processed_events s)" "\<lambda>m. envelope_id (snd m)"
proof (unfold_locales, goal_cases)
  case (1 m s s')
  obtain now x where m: "m = (now, x)" by fastforce
  have frame: "processed_events s1 = processed_events s"
    if "s1 = s \<or> (\<exists>d. upsert_profile now d s = Inr s1) \<or> (\<exists>d. deactivate_profile d s = Inr s1)" for s1
    using that by (auto simp: upsert_processed deactivate_processed)
  show ?case
    using 1 [unfolded m]
  proof (cases rule: handle_iam_cases)
    case (seen e)
    then show ?thesis using m by auto
  next
    case (applied e s1)
    then show ?thesis using m frame [OF applied(4)] by (simp add: mark_processed_def)
  qed
next
  case (2 m e s s')
  obtain now x where m: "m = (now, x)" by fastforce
  show ?case using 2(3) [unfolded m] 2(1,2) m by (cases rule: handle_iam_cases) auto
qed

interpretation vol_disaster: idempotent_consumer handle_disaster
  "\<lambda>s. set (processed_events s)" "\<lambda>m. envelope_id (snd m)"
proof (unfold_locales, goal_cases)
  case (1 m s s')
  obtain now x where m: "m = (now, x)" by fastforce
  show ?case
    using 1 [unfolded m]
  proof (cases rule: handle_disaster_cases)
    case (seen e)
    then show ?thesis using m by auto
  next
    case (applied e t n)
    then show ?thesis using m run_matching_processed [OF applied(3)] by (auto simp: mark_processed_def)
  qed
next
  case (2 m e s s')
  obtain now x where m: "m = (now, x)" by fastforce
  show ?case using 2(3) [unfolded m] 2(1,2) m by (cases rule: handle_disaster_cases) auto
qed

section \<open>Convergence of the identity replica\<close>

text \<open>An identity update as one row sees it: the id a new row would get, the user, the local and the
  source time, and the replicated fields.\<close>

type_synonym identity_update = "uuid \<times> uuid \<times> timestamp \<times> timestamp \<times> string \<times> string option \<times> bool"

definition profile_upd :: "identity_update \<Rightarrow> volunteer_profile option \<Rightarrow> volunteer_profile option" where
  "profile_upd = (\<lambda>(fresh, u, now, src, f) row.
     case row of
       None \<Rightarrow> Some (new_profile fresh u now src f)
     | Some v \<Rightarrow> Some (if accepts_update src v then set_identity src f v else v))"

definition source_time :: "identity_update \<Rightarrow> timestamp" where
  "source_time = (\<lambda>(fresh, u, now, src, f). src)"

definition carried :: "identity_update \<Rightarrow> string \<times> string option \<times> bool" where
  "carried = (\<lambda>(fresh, u, now, src, f). f)"

definition identity_of :: "volunteer_profile \<Rightarrow> string \<times> string option \<times> bool" where
  "identity_of v = (vp_full_name v, vp_phone v, vp_is_active v)"

interpretation profile_lww: lww_register profile_upd source_time vp_source_updated_at identity_of carried
  by unfold_locales
    (auto simp: profile_upd_def source_time_def carried_def identity_of_def new_profile_def
      set_identity_def accepts_update_def)

text \<open>A well-formed \<open>iam.user.registered\<close> or \<open>iam.user.updated\<close> envelope about a volunteer: its event
  id, the user, the source time and the fields.\<close>

definition volunteer_update :: "json \<Rightarrow> (uuid \<times> uuid \<times> timestamp \<times> string \<times> string option \<times> bool) option" where
  "volunteer_update m =
     (case m of
        JObj env \<Rightarrow>
          (case (andthen (dindex env ''event_id'') uuid_of, dindex env ''event_type'', dindex env ''data'') of
             (Inr e, Inr ty, Inr (JObj d)) \<Rightarrow>
               if ty \<in> {JStr ''iam.user.registered'', JStr ''iam.user.updated''} \<and>
                  dget d ''user_type'' = Some (JStr ''VOLUNTEER'') then
                 (case (andthen (dindex d ''user_id'') uuid_of, andthen (dindex d ''updated_at'') fromisoformat,
                        identity_fields d) of
                    (Inr u, Inr src, Inr f) \<Rightarrow> Some (e, u, src, f)
                  | _ \<Rightarrow> None)
               else None
           | _ \<Rightarrow> None)
      | _ \<Rightarrow> None)"

lemma volunteer_update_Some:
  assumes "volunteer_update m = Some (e, u, src, f)"
  obtains env ty d where "m = JObj env" "andthen (dindex env ''event_id'') uuid_of = Inr e"
    "dindex env ''event_type'' = Inr ty" "dindex env ''data'' = Inr (JObj d)"
    "ty \<in> {JStr ''iam.user.registered'', JStr ''iam.user.updated''}"
    "dget d ''user_type'' = Some (JStr ''VOLUNTEER'')"
    "andthen (dindex d ''user_id'') uuid_of = Inr u"
    "andthen (dindex d ''updated_at'') fromisoformat = Inr src" "identity_fields d = Inr f"
  using assms by (auto simp: volunteer_update_def split: json.splits sum.splits if_splits)

lemma handle_iam_update:
  assumes "volunteer_update m = Some (e, u, src, f)" "e \<notin> set (processed_events s)"
  shows "\<exists>s'. handle_iam (now, m) s = Inr s' \<and> processed_events s' = e # processed_events s \<and>
    row_get vp_user_id u (profiles s') =
      profile_upd (next_uuid s, u, now, src, f) (row_get vp_user_id u (profiles s))"
proof -
  obtain env ty d where m: "m = JObj env" "andthen (dindex env ''event_id'') uuid_of = Inr e"
    "dindex env ''event_type'' = Inr ty" "dindex env ''data'' = Inr (JObj d)"
    "ty \<in> {JStr ''iam.user.registered'', JStr ''iam.user.updated''}"
    "dget d ''user_type'' = Some (JStr ''VOLUNTEER'')"
    "andthen (dindex d ''user_id'') uuid_of = Inr u"
    "andthen (dindex d ''updated_at'') fromisoformat = Inr src" "identity_fields d = Inr f"
    using volunteer_update_Some [OF assms(1)] by metis
  have h: "handle_iam (now, m) s = andthen (upsert_profile now d s) (\<lambda>s'. Inr (mark_processed e s'))"
    unfolding m(1) handle_iam_def prod.case json.case m(2-4) andthen_simps using assms(2) m(5) by simp
  have id: "vp_user_id (new_profile fresh u now src f) = u" for fresh
    by (cases f) (simp add: new_profile_def)
  show ?thesis
  proof (cases "row_get vp_user_id u (profiles s)")
    case None
    then show ?thesis
      unfolding h upsert_profile_def using m(6-9) id
      by (auto simp: mark_processed_def profile_upd_def row_get_append split: option.split)
  next
    case (Some v)
    then show ?thesis
      unfolding h upsert_profile_def using m(6-9) row_get_Some [OF Some]
      by (cases "accepts_update src v") (auto simp: mark_processed_def profile_upd_def row_get_row_upd)
  qed
qed

lemma deliver_updates:
  assumes "list_all2 (\<lambda>m (e, src, f). volunteer_update (snd m) = Some (e, u, src, f)) ms us"
    and "distinct (map fst us)" "\<forall>x \<in> set us. fst x \<notin> set (processed_events s)"
  shows "\<exists>es. row_get vp_user_id u (profiles (deliver_all handle_iam ms s)) =
      fold profile_upd es (row_get vp_user_id u (profiles s)) \<and>
    map (\<lambda>x. (source_time x, carried x)) es = map snd us"
  using assms
proof (induction ms us arbitrary: s rule: list_all2_induct)
  case Nil
  then show ?case by (intro exI [of _ "[]"]) (simp add: deliver_all_def)
next
  case (Cons m ms x us)
  obtain now j where m: "m = (now, j)" by fastforce
  obtain e src f where x: "x = (e, src, f)" by (cases x)
  have "volunteer_update j = Some (e, u, src, f)" "e \<notin> set (processed_events s)"
    using Cons.hyps(1) Cons.prems(2) by (simp_all add: m x)
  from handle_iam_update [OF this, of now] obtain s' where s': "handle_iam m s = Inr s'"
    "processed_events s' = e # processed_events s"
    "row_get vp_user_id u (profiles s') =
      profile_upd (next_uuid s, u, now, src, f) (row_get vp_user_id u (profiles s))"
    unfolding m by blast
  have "\<forall>y \<in> set us. fst y \<notin> set (processed_events s')" using Cons.prems s'(2) by (auto simp: x)
  from Cons.IH [OF _ this] Cons.prems(1) obtain es where
    "row_get vp_user_id u (profiles (deliver_all handle_iam ms s')) =
      fold profile_upd es (row_get vp_user_id u (profiles s'))"
    "map (\<lambda>x. (source_time x, carried x)) es = map snd us" by auto
  then show ?case
    using s' by (intro exI [of _ "(next_uuid s, u, now, src, f) # es"])
      (simp add: deliver_all_def deliver_def x source_time_def carried_def)
qed

end
