(* ===== verification/Volunteer_Correct.thy ===== *)
theory Volunteer_Correct
  imports Volunteer
begin

text \<open>
  The properties of the volunteer service, each with a concrete instance where it has hypotheses.
  The instances share a small database: one RADIUS_L1 event in Galle with one \<open>boat_driver\<close> bucket of
  quota one, two available boat drivers in Galle, both notified.
\<close>

section \<open>A small database\<close>

definition demo_volunteer :: "uuid \<Rightarrow> uuid \<Rightarrow> volunteer_profile" where
  "demo_volunteer i u =
     \<lparr>vp_id = i, vp_user_id = u, vp_full_name = ''V'', vp_phone = None, vp_is_active = True,
      vp_source_updated_at = Some 1, vp_base_district = Some ''Galle'', vp_city = None,
      vp_available_status = True, vp_skills = [''boat_driver''], vp_created_at = int i\<rparr>"

definition demo_event :: disaster_event where
  "demo_event =
     \<lparr>ev_id = 3, ev_tenant_id = 50, ev_title = ''Flood'', ev_description = None,
      ev_source_district = ''Galle'', ev_broadcast_type = RADIUS_L1, ev_target_districts = [],
      ev_status = DECLARED, ev_created_by = 60, ev_latitude = None, ev_longitude = None,
      ev_created_at = 10\<rparr>"

definition demo_requirement :: event_requirement where
  "demo_requirement =
     \<lparr>rq_id = 4, rq_event_id = 3, rq_skill = ''boat_driver'', rq_required_count = 1,
      rq_filled_count = 0, rq_status = OPEN\<rparr>"

definition demo_db :: volunteer_db where
  "demo_db = empty_volunteer_db\<lparr>next_uuid := 9, profiles := [demo_volunteer 1 101, demo_volunteer 2 102],
     events := [demo_event], requirements := [demo_requirement]\<rparr>"

definition demo_mapping :: "uuid \<Rightarrow> uuid \<Rightarrow> event_volunteer_mapping" where
  "demo_mapping i v =
     \<lparr>mp_id = i, mp_event_id = 3, mp_requirement_id = 4, mp_volunteer_id = v, mp_status = NOTIFIED,
      mp_responded_at = None, mp_created_at = 20\<rparr>"

definition demo_notified :: volunteer_db where
  "demo_notified = demo_db\<lparr>mappings := [demo_mapping 5 1, demo_mapping 6 2],
     events := [demo_event\<lparr>ev_status := BROADCASTING\<rparr>]\<rparr>"

lemmas demo_defs = demo_volunteer_def demo_event_def demo_requirement_def demo_db_def demo_mapping_def
  demo_notified_def empty_volunteer_db_def

lemma demo_inv: "vol_inv demo_db" "vol_inv demo_notified"
  by (simp_all add: demo_defs vol_inv_def keys_ok_def refs_ok_def quota_ok_def team_ok_def all_full_def
      below_def holds_place_def)

section \<open>The invariant\<close>

text \<open>C1. In every reachable state of the service, whatever requests, messages and relay rounds led
  to it: ids are unique, a volunteer has at most one assignment per event, every reference
  resolves and an assignment's bucket belongs to its event; every quota counter equals the number
  of assignments that hold a place and never exceeds the quota; a bucket is fulfilled exactly when
  it is full; and an event is TEAM_FORMED only when all its buckets are fulfilled.\<close>

theorem volunteer_reachable_inv:
  assumes "vol_step\<^sup>*\<^sup>* empty_volunteer_db s"
  shows "vol_inv s \<and>
    (\<forall>r \<in> set (requirements s).
       rq_filled_count r = int (row_count (\<lambda>m. mp_requirement_id m = rq_id r \<and> holds_place m) (mappings s)) \<and>
       rq_filled_count r \<le> rq_required_count r) \<and>
    (\<forall>e \<in> set (events s). ev_status e = TEAM_FORMED \<longrightarrow>
       (\<forall>r \<in> set (requirements s). rq_event_id r = ev_id e \<longrightarrow> rq_filled_count r = rq_required_count r))"
  using reachable_inv [OF assms] by (auto simp: vol_inv_def quota_ok_def team_ok_def all_full_def)

theorem volunteer_reachable_inv_witness:
  "vol_inv (snd (1 :: nat, fst (route_create_help_request 7
      \<lparr>p_user_id = 1, p_tenant_id = None, p_user_type = JNull, p_roles = [JStr ''victim'']\<rparr>
      \<lparr>hc_disaster_type = ''flood'', hc_needs = [], hc_description = None, hc_latitude = None, hc_longitude = None\<rparr>
      empty_volunteer_db)))"
proof -
  let ?p = "\<lparr>p_user_id = 1, p_tenant_id = None, p_user_type = JNull, p_roles = [JStr ''victim'']\<rparr>"
  let ?d = "\<lparr>hc_disaster_type = ''flood'', hc_needs = [], hc_description = None, hc_latitude = None, hc_longitude = None\<rparr>"
  have "vol_step empty_volunteer_db (fst (route_create_help_request 7 ?p ?d empty_volunteer_db))"
    by (rule step_call, rule step_help) (rule prod.collapse [symmetric])
  then have "vol_step\<^sup>*\<^sup>* empty_volunteer_db (fst (route_create_help_request 7 ?p ?d empty_volunteer_db))" ..
  from volunteer_reachable_inv [OF this] show ?thesis by simp
qed

section \<open>Acceptance\<close>

text \<open>C2. First come, first served, exactly: when volunteers with pending invitations to the same
  bucket accept one after the other, the first ones succeed as long as places are left and every
  later one fails, so exactly the smaller of the number of volunteers and the number of places
  succeed and the quota is never exceeded.\<close>

theorem accept_first_come_first_served:
  assumes "vol_inv s" and "distinct (map (fst \<circ> snd) as)"
    and "\<forall>(now, mid, u) \<in> set as. invited k mid u s"
    and "accept_all as s = (s', flags)"
  shows "flags = replicate (min (length as) (places_left k s)) True @
      replicate (length as - places_left k s) False \<and>
    length (filter (\<lambda>b. b) flags) = min (length as) (places_left k s) \<and>
    places_left k s' = places_left k s - length as \<and> vol_inv s'"
proof -
  have "accept_all as s = (s', flags) \<Longrightarrow> vol_inv s \<Longrightarrow> vol_inv s'" for as s s' flags
  proof (induction as s arbitrary: s' flags rule: accept_all.induct)
    case (2 now mid u as s)
    obtain s1 res where a: "accept_assignment now mid u s = (s1, res)" by fastforce
    then have "vol_inv s1" using accept_inv [OF 2(3)] by (metis fst_conv)
    then show ?case using 2(1) [OF a [symmetric]] 2(2) a by (auto split: prod.splits)
  qed simp
  then show ?thesis using accept_all_flags [OF assms] assms(1,4) by (simp add: filter_replicate)
qed

theorem accept_first_come_first_served_witness:
  "snd (accept_all [(30, 5, 101), (31, 6, 102)] demo_notified) = [True, False]"
proof -
  obtain s' flags where a: "accept_all [(30, 5, 101), (31, 6, 102)] demo_notified = (s', flags)" by fastforce
  have i: "\<forall>(now, mid, u) \<in> set [(30, 5, 101), (31, 6, 102)]. invited 4 mid u demo_notified"
    by (simp add: invited_def own_mapping_def demo_defs)
  have p: "places_left 4 demo_notified = 1" by (simp add: places_left_def demo_defs)
  show ?thesis
    using accept_first_come_first_served [OF demo_inv(2) _ i a] a p by (simp add: numeral_2_eq_2)
qed



section \<open>Matching\<close>

lemma match_requirements_nobody:
  "(\<And>r v. eligible ds rs s r v \<Longrightarrow> vp_id v \<in> set mapped) \<Longrightarrow>
   match_requirements now ds event rs mapped s = (s, 0)"
proof (induction rs)
  case Nil
  then show ?case by simp
next
  case (Cons r rs)
  have rec: "match_requirements now ds event rs mapped s = (s, 0)"
    using Cons by (auto simp: eligible_def)
  have "rq_status r = OPEN \<Longrightarrow> set (find_candidates ds (rq_skill r) mapped s) = {}"
    using Cons.prems unfolding set_find_candidates by (auto simp: eligible_def)
  with rec show ?case by (auto simp: Let_def)
qed



text \<open>Matching is idempotent: after a run, running it again for the same event, at any time, notifies
  nobody and changes nothing.\<close>

theorem run_matching_idempotent:
  assumes "vol_inv s" and "run_matching now eid s = (s', Inr n)"
  shows "run_matching now' eid s' = (s', Inr 0)"
  using assms(2,1)
proof (cases rule: run_matching_cases)
  case skipped
  then show ?thesis by (auto simp: run_matching_def split: option.splits)
next
  case (ran event ds s1 new)
  have ev: "ev_id event = eid" using row_get_Some [OF ran(1)] by simp
  have s1: "profiles s1 = profiles s" "events s1 = events s" "requirements s1 = requirements s"
    "mappings s1 = mappings s @ new"
    using ran(4) by (simp_all add: notices_def)
  let ?e = "event\<lparr>ev_status := BROADCASTING\<rparr>"
  let ?mapped = "map mp_volunteer_id (filter (\<lambda>m. mp_event_id m = eid) (mappings s'))"
  have get: "row_get ev_id eid (events s') = Some ?e"
    using ran(1) ev by (simp add: ran(7) s1 row_get_row_upd)
  have "vp_id v \<in> set ?mapped"
    if "eligible ds (filter (\<lambda>r. rq_event_id r = eid) (requirements s')) s' r v" for r v
  proof -
    have "eligible ds (filter (\<lambda>r. rq_event_id r = eid) (requirements s)) s r v"
      using that by (simp add: ran(7) s1 eligible_def)
    from ran(10) [OF this] show ?thesis by (auto simp: ran(7) s1 rev_image_eqI)
  qed
  then have none: "match_requirements now' ds ?e (filter (\<lambda>r. rq_event_id r = eid) (requirements s')) ?mapped s' = (s', 0)"
    by (rule match_requirements_nobody)
  have "row_upd (\<lambda>e. ev_id e = eid) (\<lambda>e. e\<lparr>ev_status := BROADCASTING\<rparr>) (events s') = events s'"
    by (simp add: ran(7) row_upd_row_upd)
  then show ?thesis
    unfolding run_matching_def get using ran(3) none by simp
qed simp

theorem run_matching_idempotent_witness:
  "run_matching 99 3 (fst (run_matching 40 3 demo_db)) = (fst (run_matching 40 3 demo_db), Inr 0)"
proof -
  have r: "snd (run_matching 40 3 demo_db) = Inr 2"
    by (simp add: run_matching_def resolve_broadcast_districts_def demo_defs Let_def find_candidates_def
        is_candidate_def notify_volunteer_def DISTRICTS_def ADJACENCY_def)
  then have "run_matching 40 3 demo_db = (fst (run_matching 40 3 demo_db), Inr 2)" by (metis prod.collapse)
  from run_matching_idempotent [OF demo_inv(1) this] show ?thesis .
qed

section \<open>Tenants\<close>

lemma tenant_event_Inr:
  "tenant_event p eid s = Inr e \<Longrightarrow> e \<in> set (events s) \<and> ev_id e = eid \<and> p_tenant_id p = Some (ev_tenant_id e)"
  by (auto simp: tenant_event_def find_Some_iff split: option.splits)

lemma foreign_event_kept:
  assumes "keys_ok s" "e \<in> set (events s)" "ev_id e = eid" "x \<in> set (events s)" "ev_tenant_id x \<noteq> ev_tenant_id e"
  shows "x \<in> set (row_upd (\<lambda>e. ev_id e = eid) f (events s))"
proof -
  have "ev_id x \<noteq> eid" using assms by (auto simp: keys_ok_def distinct_map inj_on_def)
  with assms(4) show ?thesis by (force simp: set_row_upd)
qed

lemma run_matching_events:
  "run_matching now eid s = (s', res) \<Longrightarrow>
   events s' = events s \<or> events s' = row_upd (\<lambda>e. ev_id e = eid) (\<lambda>e. e\<lparr>ev_status := BROADCASTING\<rparr>) (events s)"
proof -
  assume r: "run_matching now eid s = (s', res)"
  have f: "events (fold (notify_volunteer now event q) vs s0) = events s0" for event q vs s0
    by (induction vs arbitrary: s0) (simp_all add: notify_volunteer_def)
  have m: "match_requirements now ds event rs mapped s0 = (s1, n) \<Longrightarrow> events s1 = events s0"
    for ds event rs mapped s0 s1 n
    by (induction rs arbitrary: mapped s0 n) (auto simp: Let_def f split: if_splits prod.splits)
  show ?thesis
    using r by (auto simp: run_matching_def dest: m split: option.splits if_splits sum.splits prod.splits)
qed

text \<open>Tenant isolation of the portal: declaring, re-broadcasting and closing never touch an event of
  another tenant, and they are refused to a principal without a tenant.\<close>

theorem portal_tenant_isolation:
  assumes "vol_inv s" and "x \<in> set (events s)" and "Some (ev_tenant_id x) \<noteq> p_tenant_id p"
  shows "x \<in> set (events (fst (route_declare_event now p raw s))) \<and>
    x \<in> set (events (fst (route_rebroadcast now p eid s))) \<and>
    x \<in> set (events (fst (route_close_event p eid s))) \<and>
    (p_tenant_id p = None \<longrightarrow>
       fst (route_declare_event now p raw s) = s \<and> fst (route_rebroadcast now p eid s) = s \<and>
       fst (route_close_event p eid s) = s)"
proof -
  have keys: "keys_ok s" using assms(1) by (simp add: vol_inv_def)
  have "x \<in> set (events (fst (route_declare_event now p raw s)))"
    using assms(2) by (auto simp: route_declare_event_def declare_event_def Let_def
        split: sum.splits option.splits prod.splits)
  moreover have kept: "x \<in> set (row_upd (\<lambda>e. ev_id e = eid) f (events s))"
    if "tenant_event p eid s = Inr e" for e f
    using tenant_event_Inr [OF that] assms(2,3) by (intro foreign_event_kept [OF keys]) auto
  then have "x \<in> set (events (fst (route_close_event p eid s)))"
    using assms(2) by (auto simp: route_close_event_def split: sum.split)
  moreover have "x \<in> set (events (fst (route_rebroadcast now p eid s)))"
    using assms(2) kept run_matching_events [of now eid s]
    by (auto simp: route_rebroadcast_def split: sum.split prod.split)
  ultimately show ?thesis
    by (auto simp: route_declare_event_def route_rebroadcast_def route_close_event_def portal_def
        require_tenant_role_def)
qed

theorem portal_tenant_isolation_witness:
  "demo_event \<in> set (events (fst (route_close_event
     \<lparr>p_user_id = 1, p_tenant_id = Some 51, p_user_type = JNull, p_roles = [JStr ''coordinator'']\<rparr> 3 demo_db)))"
proof -
  let ?p = "\<lparr>p_user_id = 1, p_tenant_id = Some 51, p_user_type = JNull, p_roles = [JStr ''coordinator'']\<rparr>"
  have "demo_event \<in> set (events demo_db)" "Some (ev_tenant_id demo_event) \<noteq> p_tenant_id ?p"
    by (simp_all add: demo_defs)
  from portal_tenant_isolation [OF demo_inv(1) this] show ?thesis by blast
qed

section \<open>Consumers\<close>



section \<open>The directory\<close>

text \<open>The directory promises exactly the reach the matching engine delivers: searching available
  volunteers by skill and district lists the profiles that matching would consider for a bucket
  with that skill broadcast to those districts, however the skill is typed.\<close>

theorem directory_agrees_with_matching:
  assumes "normalise_skill typed \<noteq> []" and "[] \<notin> set ds"
  shows "is_candidate ds (normalise_skill typed) v =
    (\<exists>d \<in> set ds. build_filters None (Some typed) (Some d) None True v)"
proof -
  have "typed \<noteq> []" using assms(1) by (auto simp: normalise_skill_def lower_def replace_char_def)
  then have "given (Some typed)" "d \<in> set ds \<Longrightarrow> given (Some d)" for d
    using assms(2) by (auto simp: given_def)
  moreover have "\<not> given None" by (simp add: given_def)
  ultimately show ?thesis
    by (auto simp: is_candidate_def build_filters_def split: option.splits)
qed

theorem directory_agrees_with_matching_witness:
  "\<exists>d \<in> set [''Galle'']. build_filters None (Some '' Boat Driver'') (Some d) None True (demo_volunteer 1 101)"
proof -
  have n: "normalise_skill '' Boat Driver'' = ''boat_driver''" by code_simp
  have "is_candidate [''Galle''] (normalise_skill '' Boat Driver'') (demo_volunteer 1 101)"
    unfolding n by (simp add: is_candidate_def demo_volunteer_def)
  then show ?thesis
    using directory_agrees_with_matching [of "'' Boat Driver''" "[''Galle'']" "demo_volunteer 1 101"] n by simp
qed

end
