(* ===== verification/Form_Schema.thy ===== *)
theory Form_Schema
  imports Py_Value
begin

text \<open>
  \<open>services/logistics/app/services/form_schema.py\<close>: the form half of the customizable workflow engine.
  A category's definition is JSON, checked and normalised by \<open>validate_definition\<close>; a request's
  \<open>extra_fields\<close> are checked and coerced against it by \<open>validate_payload\<close>. A normalised field
  definition is a dictionary with optional entries, here a record with optional components;
  \<open>spec_json\<close> is the dictionary that is stored.

  \<open>iso_date\<close> stands for \<open>date.fromisoformat\<close>, falling back on \<open>datetime.fromisoformat\<close>, followed by
  \<open>isoformat\<close>: the canonical date string of an accepted input, \<open>None\<close> when both raise. The texts of
  error messages are abbreviated: labels and limits the code interpolates are left out.
\<close>

section \<open>Field types\<close>

datatype field_type = TEXT | TEXTAREA | INTEGER | NUMBER | BOOLEAN | DATE | SELECT | MULTISELECT | PHONE

fun field_type_value :: "field_type \<Rightarrow> string" where
  "field_type_value TEXT = ''text''"
| "field_type_value TEXTAREA = ''textarea''"
| "field_type_value INTEGER = ''integer''"
| "field_type_value NUMBER = ''number''"
| "field_type_value BOOLEAN = ''boolean''"
| "field_type_value DATE = ''date''"
| "field_type_value SELECT = ''select''"
| "field_type_value MULTISELECT = ''multiselect''"
| "field_type_value PHONE = ''phone''"

definition field_types :: "field_type list" where
  "field_types = [TEXT, TEXTAREA, INTEGER, NUMBER, BOOLEAN, DATE, SELECT, MULTISELECT, PHONE]"

text \<open>\<open>FieldType(v)\<close>.\<close>

fun FieldType :: "json \<Rightarrow> field_type option" where
  "FieldType (JStr s) = find (\<lambda>t. field_type_value t = s) field_types"
| "FieldType _ = None"

definition TEXTUAL :: "field_type list" where "TEXTUAL = [TEXT, TEXTAREA, PHONE]"
definition NUMERIC :: "field_type list" where "NUMERIC = [INTEGER, NUMBER]"
definition CHOICE :: "field_type list" where "CHOICE = [SELECT, MULTISELECT]"

text \<open>\<open>_DEFAULT_MAX_LENGTH\<close>, consulted for textual types only.\<close>

fun default_max_length :: "field_type \<Rightarrow> int" where
  "default_max_length TEXT = 500"
| "default_max_length TEXTAREA = 5000"
| "default_max_length PHONE = 30"
| "default_max_length _ = 0"

definition MAX_FIELDS :: nat where "MAX_FIELDS = 50"
definition MAX_OPTIONS :: nat where "MAX_OPTIONS = 100"

definition SPEC_KEYS :: "string list" where
  "SPEC_KEYS = [''key'', ''label'', ''type'', ''required'', ''options'', ''min'', ''max'', ''max_length'', ''help_text'']"

section \<open>Values\<close>

text \<open>\<open>KEY_PATTERN.match\<close>: a lower-case letter, then at most 49 characters of \<open>[a-z0-9_]\<close>; \<open>$\<close> also
  matches before a final newline. The strings with a constructor of their own contain a hyphen or
  start with a digit.\<close>

definition key_char :: "char \<Rightarrow> bool" where
  "key_char c = (let n = of_char c :: nat in (97 \<le> n \<and> n \<le> 122) \<or> (48 \<le> n \<and> n \<le> 57) \<or> n = 95)"

definition drop_newline :: "string \<Rightarrow> string" where
  "drop_newline s = (if s \<noteq> [] \<and> of_char (last s) = (10 :: nat) then butlast s else s)"

definition key_match :: "string \<Rightarrow> bool" where
  "key_match s =
     (case s of
        [] \<Rightarrow> False
      | c # cs \<Rightarrow>
          (let n = of_char c :: nat in 97 \<le> n \<and> n \<le> 122) \<and>
          list_all key_char (drop_newline cs) \<and> length (drop_newline cs) \<le> 49)"

text \<open>\<open>isinstance(v, str) and v.strip()\<close>.\<close>

fun nonblank_str :: "json \<Rightarrow> bool" where
  "nonblank_str (JStr s) = (strip s \<noteq> [])"
| "nonblank_str (JUuid u) = True"
| "nonblank_str (JTime t) = True"
| "nonblank_str _ = False"

text \<open>\<open>isinstance(v, (int, float)) and not isinstance(v, bool)\<close>, and the number.\<close>

fun is_number :: "json \<Rightarrow> bool" where
  "is_number (JInt i) = True"
| "is_number (JFloat f) = True"
| "is_number _ = False"

fun num_of :: "json \<Rightarrow> pyfloat" where
  "num_of (JInt i) = Fin (of_int i)"
| "num_of (JFloat f) = f"
| "num_of _ = NaN"

section \<open>Definitions\<close>

record field_spec =
  fs_key :: string
  fs_label :: json
  fs_type :: field_type
  fs_required :: bool
  fs_help_text :: "json option"
  fs_options :: "json list option"
  fs_min :: "json option"
  fs_max :: "json option"
  fs_max_length :: "int option"

datatype form_schema_error =
    NotAList
  | TooManyFields
  | DuplicateKey string
  | NotAnObject
  | UnsupportedSpecKeys "string list"
  | BadKey
  | BadType
  | BadLabel
  | BadRequired
  | BadHelpText
  | OptionsMissing
  | TooManyOptions
  | BadOption
  | DuplicateOptions
  | OptionsNotApplicable
  | NotANumber string
  | MinAboveMax
  | RangeNotApplicable
  | BadMaxLength
  | MaxLengthTooLarge
  | MaxLengthNotApplicable

definition optional_number :: "(string \<times> json) list \<Rightarrow> string \<Rightarrow> form_schema_error + json option" where
  "optional_number raw name =
     (case dget raw name of
        None \<Rightarrow> Inr None
      | Some v \<Rightarrow> if is_number v then Inr (Some v) else Inl (NotANumber name))"

definition options_part :: "field_type \<Rightarrow> (string \<times> json) list \<Rightarrow> form_schema_error + json list option" where
  "options_part ft raw =
     (if ft \<in> set CHOICE then
        (case dget raw ''options'' of
           Some (JArr options) \<Rightarrow>
             if options = [] then Inl OptionsMissing
             else if length options > MAX_OPTIONS then Inl TooManyOptions
             else if \<not> list_all nonblank_str options then Inl BadOption
             else if length (remdups options) \<noteq> length options then Inl DuplicateOptions
             else Inr (Some options)
         | _ \<Rightarrow> Inl OptionsMissing)
      else if dget raw ''options'' \<noteq> None then Inl OptionsNotApplicable
      else Inr None)"

definition range_part :: "field_type \<Rightarrow> (string \<times> json) list \<Rightarrow> form_schema_error + (json option \<times> json option)" where
  "range_part ft raw =
     (if ft \<in> set NUMERIC then
        andthen (optional_number raw ''min'') (\<lambda>mn.
        andthen (optional_number raw ''max'') (\<lambda>mx.
          if mn \<noteq> None \<and> mx \<noteq> None \<and> num_less (num_of (the mx)) (num_of (the mn)) then Inl MinAboveMax
          else Inr (mn, mx)))
      else if dget raw ''min'' \<noteq> None \<or> dget raw ''max'' \<noteq> None then Inl RangeNotApplicable
      else Inr (None, None))"

definition max_length_part :: "field_type \<Rightarrow> (string \<times> json) list \<Rightarrow> form_schema_error + int option" where
  "max_length_part ft raw =
     (if ft \<in> set TEXTUAL then
        (case dget_default raw ''max_length'' (JInt (default_max_length ft)) of
           JInt n \<Rightarrow>
             if n \<le> 0 then Inl BadMaxLength
             else if n > default_max_length ft then Inl MaxLengthTooLarge
             else Inr (Some n)
         | _ \<Rightarrow> Inl BadMaxLength)
      else if dget raw ''max_length'' \<noteq> None then Inl MaxLengthNotApplicable
      else Inr None)"

definition validate_field_spec :: "json \<Rightarrow> form_schema_error + field_spec" where
  "validate_field_spec v =
     (case v of
        JObj raw \<Rightarrow>
          (let unknown = filter (\<lambda>k. k \<notin> set SPEC_KEYS) (map fst raw) in
           if unknown \<noteq> [] then Inl (UnsupportedSpecKeys (sorted_set unknown))
           else (case dget raw ''key'' of
               Some (JStr key) \<Rightarrow>
                 if \<not> key_match key then Inl BadKey
                 else (case FieldType (dget_default raw ''type'' JNull) of
                     None \<Rightarrow> Inl BadType
                   | Some ft \<Rightarrow>
                       (let label = dget_default raw ''label'' (JStr key) in
                        if \<not> nonblank_str label then Inl BadLabel
                        else (case dget_default raw ''required'' (JBool False) of
                            JBool required \<Rightarrow>
                              (let help_text = dget_default raw ''help_text'' JNull in
                               if help_text \<noteq> JNull \<and> \<not> is_str help_text then Inl BadHelpText
                               else
                                 andthen (options_part ft raw) (\<lambda>opts.
                                 andthen (range_part ft raw) (\<lambda>(mn, mx).
                                 andthen (max_length_part ft raw) (\<lambda>ml.
                                   Inr \<lparr>fs_key = key, fs_label = label, fs_type = ft, fs_required = required,
                                        fs_help_text = (if help_text = JNull then None else Some help_text),
                                        fs_options = opts, fs_min = mn, fs_max = mx, fs_max_length = ml\<rparr>))))
                          | _ \<Rightarrow> Inl BadRequired)))
             | _ \<Rightarrow> Inl BadKey))
      | _ \<Rightarrow> Inl NotAnObject)"

text \<open>The loop of \<open>validate_definition\<close>, with the keys seen so far.\<close>

fun validate_fields :: "json list \<Rightarrow> string list \<Rightarrow> form_schema_error + field_spec list" where
  "validate_fields [] seen = Inr []"
| "validate_fields (raw # rest) seen =
     andthen (validate_field_spec raw) (\<lambda>spec.
       if fs_key spec \<in> set seen then Inl (DuplicateKey (fs_key spec))
       else andthen (validate_fields rest (fs_key spec # seen)) (\<lambda>specs. Inr (spec # specs)))"

definition validate_definition :: "json \<Rightarrow> form_schema_error + field_spec list option" where
  "validate_definition form_schema =
     (case form_schema of
        JNull \<Rightarrow> Inr None
      | JArr raws \<Rightarrow>
          if length raws > MAX_FIELDS then Inl TooManyFields
          else andthen (validate_fields raws []) (\<lambda>specs. Inr (Some specs))
      | _ \<Rightarrow> Inl NotAList)"

text \<open>The stored dictionary: an absent component is an absent key.\<close>

definition opt_entry :: "string \<Rightarrow> json option \<Rightarrow> (string \<times> json) list" where
  "opt_entry k v = (case v of None \<Rightarrow> [] | Some x \<Rightarrow> [(k, x)])"

definition spec_dict :: "field_spec \<Rightarrow> (string \<times> json) list" where
  "spec_dict s =
     [(''key'', JStr (fs_key s)), (''label'', fs_label s),
      (''type'', JStr (field_type_value (fs_type s))), (''required'', JBool (fs_required s))] @
     opt_entry ''help_text'' (fs_help_text s) @
     opt_entry ''options'' (map_option JArr (fs_options s)) @
     opt_entry ''min'' (fs_min s) @ opt_entry ''max'' (fs_max s) @
     opt_entry ''max_length'' (map_option JInt (fs_max_length s))"

definition specs_json :: "field_spec list \<Rightarrow> json" where
  "specs_json specs = JArr (map (\<lambda>s. JObj (spec_dict s)) specs)"

section \<open>Payloads\<close>

fun is_blank :: "json \<Rightarrow> bool" where
  "is_blank JNull = True"
| "is_blank (JStr s) = (strip s = [])"
| "is_blank (JArr xs) = (xs = [])"
| "is_blank _ = False"

text \<open>A field that does not fit, or an exception the caller does not catch.\<close>

datatype coerce_error = Invalid string | Escaped py_error

text \<open>\<open>len(v)\<close> of a string: a UUID has 36 characters, a UTC timestamp 25, or 32 with microseconds.\<close>

fun str_len :: "json \<Rightarrow> int" where
  "str_len (JStr s) = int (length s)"
| "str_len (JUuid u) = 36"
| "str_len (JTime t) = (if t mod 1000000 = 0 then 25 else 32)"
| "str_len _ = 0"

fun strip_json :: "json \<Rightarrow> json" where
  "strip_json (JStr s) = JStr (strip s)"
| "strip_json v = v"

definition to_number :: "json \<Rightarrow> coerce_error + json" where
  "to_number v = (if is_number v then Inr v else Inl (Invalid ''must be a number''))"

text \<open>\<open>int(number)\<close> on a Python number: truncation, ValueError on NaN, OverflowError on an infinity.\<close>

definition py_int :: "json \<Rightarrow> coerce_error + int" where
  "py_int v =
     (case v of
        JInt i \<Rightarrow> Inr i
      | JFloat (Fin q) \<Rightarrow> Inr (if q < 0 then - \<lfloor>- q\<rfloor> else \<lfloor>q\<rfloor>)
      | JFloat NaN \<Rightarrow> Inl (Invalid ''cannot convert float NaN to integer'')
      | JFloat _ \<Rightarrow> Inl (Escaped OverflowError)
      | _ \<Rightarrow> Inl (Escaped TypeError))"

definition check_range :: "field_spec \<Rightarrow> json \<Rightarrow> coerce_error + json" where
  "check_range spec number =
     (if fs_min spec \<noteq> None \<and> num_less (num_of number) (num_of (the (fs_min spec))) then
        Inl (Invalid ''must be at least min'')
      else if fs_max spec \<noteq> None \<and> num_less (num_of (the (fs_max spec))) (num_of number) then
        Inl (Invalid ''must be at most max'')
      else Inr number)"

definition coerce_text :: "field_spec \<Rightarrow> json \<Rightarrow> coerce_error + json" where
  "coerce_text spec v =
     (if \<not> is_str v then Inl (Invalid ''must be text'')
      else (let text = strip_json v;
                max_length = (case fs_max_length spec of None \<Rightarrow> default_max_length (fs_type spec) | Some n \<Rightarrow> n)
            in if str_len text > max_length then Inl (Invalid ''must be at most max_length characters'')
               else Inr text))"

definition coerce_boolean :: "json \<Rightarrow> coerce_error + json" where
  "coerce_boolean v =
     (case v of
        JBool b \<Rightarrow> Inr (JBool b)
      | JStr s \<Rightarrow>
          if lower s \<in> {''true'', ''false''} then Inr (JBool (lower s = ''true''))
          else Inl (Invalid ''must be true or false'')
      | _ \<Rightarrow> Inl (Invalid ''must be true or false''))"

definition coerce :: "(json \<Rightarrow> json option) \<Rightarrow> field_spec \<Rightarrow> json \<Rightarrow> coerce_error + json" where
  "coerce iso_date spec value =
     (case fs_type spec of
        INTEGER \<Rightarrow>
          andthen (to_number value) (\<lambda>number.
          andthen (py_int number) (\<lambda>i.
            if Fin (of_int i) \<noteq> num_of number then Inl (Invalid ''must be a whole number'')
            else check_range spec (JInt i)))
      | NUMBER \<Rightarrow> andthen (to_number value) (check_range spec)
      | BOOLEAN \<Rightarrow> coerce_boolean value
      | DATE \<Rightarrow>
          if \<not> is_str value then Inl (Invalid ''must be an ISO date (YYYY-MM-DD)'')
          else (case iso_date value of
              None \<Rightarrow> Inl (Invalid ''must be an ISO date (YYYY-MM-DD)'')
            | Some d \<Rightarrow> Inr d)
      | SELECT \<Rightarrow>
          (case fs_options spec of
             None \<Rightarrow> Inl (Escaped (KeyError ''options''))
           | Some options \<Rightarrow>
               if value \<notin> set options then Inl (Invalid ''must be one of options'') else Inr value)
      | MULTISELECT \<Rightarrow>
          (case value of
             JArr items \<Rightarrow>
               (case fs_options spec of
                  None \<Rightarrow> Inl (Escaped (KeyError ''options''))
                | Some options \<Rightarrow>
                    if filter (\<lambda>i. i \<notin> set options) items \<noteq> [] then Inl (Invalid ''contains options not offered'')
                    else if length (remdups items) \<noteq> length items then Inl (Invalid ''contains duplicate options'')
                    else Inr value)
           | _ \<Rightarrow> Inl (Invalid ''must be a list of options''))
      | _ \<Rightarrow> coerce_text spec value)"

type_synonym field_errors = "(string \<times> string) list"

text \<open>The loop over the specs: the coerced entries and the errors, in spec order.\<close>

fun coerce_fields ::
  "(json \<Rightarrow> json option) \<Rightarrow> field_spec list \<Rightarrow> (string \<times> json) list \<Rightarrow>
   py_error + ((string \<times> json) list \<times> field_errors)" where
  "coerce_fields iso_date [] payload = Inr ([], [])"
| "coerce_fields iso_date (spec # specs) payload =
     (let value = dget_default payload (fs_key spec) JNull in
      if is_blank value then
        andthen (coerce_fields iso_date specs payload) (\<lambda>(coerced, errors).
          Inr (coerced, if fs_required spec then (fs_key spec, ''is required'') # errors else errors))
      else (case coerce iso_date spec value of
          Inl (Escaped e) \<Rightarrow> Inl e
        | Inl (Invalid msg) \<Rightarrow>
            andthen (coerce_fields iso_date specs payload) (\<lambda>(coerced, errors).
              Inr (coerced, (fs_key spec, msg) # errors))
        | Inr v \<Rightarrow>
            andthen (coerce_fields iso_date specs payload) (\<lambda>(coerced, errors).
              Inr ((fs_key spec, v) # coerced, errors))))"

datatype payload_error = FormValidationError field_errors | PayloadRaised py_error

definition unknown_fields :: "field_spec list \<Rightarrow> (string \<times> json) list \<Rightarrow> field_errors" where
  "unknown_fields specs payload =
     map (\<lambda>kv. (fst kv, ''not defined on this category''))
       (filter (\<lambda>kv. fst kv \<notin> set (map fs_key specs)) payload)"

definition validate_payload ::
  "(json \<Rightarrow> json option) \<Rightarrow> field_spec list option \<Rightarrow> json \<Rightarrow> payload_error + (string \<times> json) list option" where
  "validate_payload iso_date form_schema extra_fields =
     (case (if truthy extra_fields then extra_fields else JObj []) of
        JObj payload \<Rightarrow>
          (let specs = (case form_schema of None \<Rightarrow> [] | Some s \<Rightarrow> s) in
           case coerce_fields iso_date specs payload of
             Inl e \<Rightarrow> Inl (PayloadRaised e)
           | Inr (coerced, errors) \<Rightarrow>
               (let all_errors = unknown_fields specs payload @ errors in
                if all_errors \<noteq> [] then Inl (FormValidationError all_errors)
                else Inr (if coerced = [] then None else Some coerced)))
      | _ \<Rightarrow> Inl (FormValidationError [(''extra_fields'', ''must be an object'')]))"

section \<open>Well-formed definitions\<close>

definition wf_options :: "field_type \<Rightarrow> json list option \<Rightarrow> bool" where
  "wf_options ft opts =
     (if ft \<in> set CHOICE then
        (case opts of
           None \<Rightarrow> False
         | Some os \<Rightarrow> os \<noteq> [] \<and> length os \<le> MAX_OPTIONS \<and> list_all nonblank_str os \<and> distinct os)
      else opts = None)"

definition wf_range :: "field_type \<Rightarrow> json option \<Rightarrow> json option \<Rightarrow> bool" where
  "wf_range ft mn mx =
     (if ft \<in> set NUMERIC then
        pred_option is_number mn \<and> pred_option is_number mx \<and>
        \<not> (mn \<noteq> None \<and> mx \<noteq> None \<and> num_less (num_of (the mx)) (num_of (the mn)))
      else mn = None \<and> mx = None)"

definition wf_max_length :: "field_type \<Rightarrow> int option \<Rightarrow> bool" where
  "wf_max_length ft ml =
     (if ft \<in> set TEXTUAL then (case ml of None \<Rightarrow> False | Some n \<Rightarrow> 0 < n \<and> n \<le> default_max_length ft)
      else ml = None)"

definition wf_spec :: "field_spec \<Rightarrow> bool" where
  "wf_spec s \<longleftrightarrow>
     key_match (fs_key s) \<and> nonblank_str (fs_label s) \<and> pred_option is_str (fs_help_text s) \<and>
     wf_options (fs_type s) (fs_options s) \<and> wf_range (fs_type s) (fs_min s) (fs_max s) \<and>
     wf_max_length (fs_type s) (fs_max_length s)"

definition wf_specs :: "field_spec list \<Rightarrow> bool" where
  "wf_specs specs \<longleftrightarrow>
     length specs \<le> MAX_FIELDS \<and> distinct (map fs_key specs) \<and> list_all wf_spec specs"

subsection \<open>Lemmas\<close>

lemma FieldType_value [simp]: "FieldType (JStr (field_type_value t)) = Some t"
  by (cases t) (simp_all add: field_types_def)

lemma dget_default_alt: "dget_default d k v = (case dget d k of None \<Rightarrow> v | Some x \<Rightarrow> x)"
  by (simp add: dget_default_def dget_def)

lemma dget_opt_entry [simp]: "dget (opt_entry k' v) k = (if k = k' then v else None)"
  by (simp add: opt_entry_def split: option.split)

lemma options_part_Inr: "options_part ft raw = Inr o' \<Longrightarrow> wf_options ft o'"
  by (auto simp: options_part_def wf_options_def split: if_splits option.splits json.splits)

lemma optional_number_Inr: "optional_number raw n = Inr v \<Longrightarrow> pred_option is_number v"
proof (cases "dget raw n")
  case (Some a)
  assume "optional_number raw n = Inr v"
  with Some have "is_number a \<and> Some a = v" by (simp add: optional_number_def split: if_splits)
  then show ?thesis by auto
qed (auto simp: optional_number_def)

lemma range_part_Inr: "range_part ft raw = Inr (mn, mx) \<Longrightarrow> wf_range ft mn mx"
  by (auto simp: range_part_def wf_range_def andthen_Inr dest: optional_number_Inr split: if_splits)

lemma max_length_part_Inr: "max_length_part ft raw = Inr ml \<Longrightarrow> wf_max_length ft ml"
  by (auto simp: max_length_part_def wf_max_length_def split: if_splits json.splits)

lemma validate_field_spec_Inr:
  assumes "validate_field_spec v = Inr s"
  shows "wf_spec s"
proof (cases v)
  case (JObj raw)
  with assms obtain key where key: "dget raw ''key'' = Some (JStr key)" "key_match key"
    by (auto simp: validate_field_spec_def Let_def split: if_splits option.splits json.splits)
  with assms JObj obtain ft where ft: "FieldType (dget_default raw ''type'' JNull) = Some ft"
    by (auto simp: validate_field_spec_def Let_def split: if_splits option.splits)
  with assms JObj key obtain req where
    req: "nonblank_str (dget_default raw ''label'' (JStr key))" "dget_default raw ''required'' (JBool False) = JBool req"
    by (auto simp: validate_field_spec_def Let_def split: if_splits json.splits)
  let ?h = "dget_default raw ''help_text'' JNull"
  obtain opts mn mx ml where parts: "options_part ft raw = Inr opts" "range_part ft raw = Inr (mn, mx)"
    "max_length_part ft raw = Inr ml" "\<not> (?h \<noteq> JNull \<and> \<not> is_str ?h)"
    and s: "s = \<lparr>fs_key = key, fs_label = dget_default raw ''label'' (JStr key), fs_type = ft, fs_required = req,
       fs_help_text = (if ?h = JNull then None else Some ?h), fs_options = opts, fs_min = mn, fs_max = mx,
       fs_max_length = ml\<rparr>"
    using assms JObj key ft req
    by (auto simp: validate_field_spec_def Let_def andthen_Inr split: if_splits)
  show ?thesis
    using key(2) req(1) parts options_part_Inr range_part_Inr max_length_part_Inr by (auto simp: wf_spec_def s)
qed (use assms in \<open>simp_all add: validate_field_spec_def\<close>)

lemma spec_dict_keys: "filter (\<lambda>k. k \<notin> set SPEC_KEYS) (map fst (spec_dict s)) = []"
  by (auto simp: spec_dict_def SPEC_KEYS_def opt_entry_def filter_empty_conv split: option.splits)

lemma spec_dict_get:
  "dget (spec_dict s) ''key'' = Some (JStr (fs_key s))"
  "dget (spec_dict s) ''label'' = Some (fs_label s)"
  "dget (spec_dict s) ''type'' = Some (JStr (field_type_value (fs_type s)))"
  "dget (spec_dict s) ''required'' = Some (JBool (fs_required s))"
  "dget (spec_dict s) ''help_text'' = fs_help_text s"
  "dget (spec_dict s) ''options'' = map_option JArr (fs_options s)"
  "dget (spec_dict s) ''min'' = fs_min s"
  "dget (spec_dict s) ''max'' = fs_max s"
  "dget (spec_dict s) ''max_length'' = map_option JInt (fs_max_length s)"
  by (simp_all add: spec_dict_def dget_append split: option.split)

lemma parts_canonical:
  assumes "wf_spec s"
  shows "options_part (fs_type s) (spec_dict s) = Inr (fs_options s)"
    "range_part (fs_type s) (spec_dict s) = Inr (fs_min s, fs_max s)"
    "max_length_part (fs_type s) (spec_dict s) = Inr (fs_max_length s)"
proof -
  show "options_part (fs_type s) (spec_dict s) = Inr (fs_options s)"
    using assms by (auto simp: options_part_def spec_dict_get wf_spec_def wf_options_def distinct_remdups_id
        split: if_splits option.splits)
  show "range_part (fs_type s) (spec_dict s) = Inr (fs_min s, fs_max s)"
    using assms by (auto simp: range_part_def optional_number_def spec_dict_get wf_spec_def wf_range_def
        split: if_splits option.splits)
  show "max_length_part (fs_type s) (spec_dict s) = Inr (fs_max_length s)"
    using assms by (auto simp: max_length_part_def dget_default_alt spec_dict_get wf_spec_def wf_max_length_def
        split: if_splits option.splits)
qed

lemma validate_field_spec_canonical:
  assumes "wf_spec s"
  shows "validate_field_spec (JObj (spec_dict s)) = Inr s"
proof -
  have h: "\<not> (dget_default (spec_dict s) ''help_text'' JNull \<noteq> JNull \<and>
      \<not> is_str (dget_default (spec_dict s) ''help_text'' JNull))"
    "(if dget_default (spec_dict s) ''help_text'' JNull = JNull then None
      else Some (dget_default (spec_dict s) ''help_text'' JNull)) = fs_help_text s"
    using assms by (auto simp: dget_default_alt spec_dict_get wf_spec_def split: option.splits)
  have d: "dget_default (spec_dict s) ''label'' x = fs_label s"
    "dget_default (spec_dict s) ''type'' x = JStr (field_type_value (fs_type s))"
    "dget_default (spec_dict s) ''required'' x = JBool (fs_required s)" for x
    by (simp_all add: dget_default_alt spec_dict_get)
  have "key_match (fs_key s)" "nonblank_str (fs_label s)" using assms by (simp_all add: wf_spec_def)
  then show ?thesis
    unfolding validate_field_spec_def json.case spec_dict_keys spec_dict_get(1) option.case d FieldType_value Let_def h(2)
    using h(1) by (simp add: parts_canonical [OF assms])
qed

lemma validate_fields_Inr:
  "validate_fields raws seen = Inr specs \<Longrightarrow>
   length specs = length raws \<and> list_all wf_spec specs \<and> distinct (map fs_key specs) \<and>
   set (map fs_key specs) \<inter> set seen = {}"
proof (induction raws seen arbitrary: specs rule: validate_fields.induct)
  case (1 seen)
  then show ?case by simp
next
  case (2 raw rest seen)
  then obtain spec where spec: "validate_field_spec raw = Inr spec" "fs_key spec \<notin> set seen"
    by (auto simp: andthen_Inr split: if_splits)
  with 2(2) obtain rest' where "validate_fields rest (fs_key spec # seen) = Inr rest'" "specs = spec # rest'"
    by (auto simp: andthen_Inr)
  with 2(1) [OF spec(2)] validate_field_spec_Inr [OF spec(1)] spec(2) show ?case by auto
qed

lemma validate_fields_canonical:
  "list_all wf_spec specs \<Longrightarrow> distinct (map fs_key specs) \<Longrightarrow> set (map fs_key specs) \<inter> set seen = {} \<Longrightarrow>
   validate_fields (map (\<lambda>s. JObj (spec_dict s)) specs) seen = Inr specs"
  by (induction specs arbitrary: seen) (auto simp: validate_field_spec_canonical)

section \<open>Typed payloads\<close>

definition in_range :: "field_spec \<Rightarrow> json \<Rightarrow> bool" where
  "in_range spec v \<longleftrightarrow>
     (case fs_min spec of None \<Rightarrow> True | Some m \<Rightarrow> \<not> num_less (num_of v) (num_of m)) \<and>
     (case fs_max spec of None \<Rightarrow> True | Some m \<Rightarrow> \<not> num_less (num_of m) (num_of v))"

text \<open>What a stored value of a field satisfies.\<close>

definition fits :: "(json \<Rightarrow> json option) \<Rightarrow> field_spec \<Rightarrow> json \<Rightarrow> bool" where
  "fits iso_date spec v =
     (case fs_type spec of
        INTEGER \<Rightarrow> (\<exists>i. v = JInt i) \<and> in_range spec v
      | NUMBER \<Rightarrow> is_number v \<and> in_range spec v
      | BOOLEAN \<Rightarrow> (\<exists>b. v = JBool b)
      | DATE \<Rightarrow> (\<exists>x. iso_date x = Some v)
      | SELECT \<Rightarrow> (\<exists>os. fs_options spec = Some os \<and> v \<in> set os)
      | MULTISELECT \<Rightarrow> (\<exists>os items. fs_options spec = Some os \<and> v = JArr items \<and> set items \<subseteq> set os \<and> distinct items)
      | _ \<Rightarrow> is_str v \<and> strip_json v = v \<and>
             str_len v \<le> (case fs_max_length spec of None \<Rightarrow> default_max_length (fs_type spec) | Some n \<Rightarrow> n))"

text \<open>What \<open>isoformat\<close> promises of \<open>fromisoformat\<close>: its results are non-blank strings it accepts
  unchanged.\<close>

definition iso_canonical :: "(json \<Rightarrow> json option) \<Rightarrow> bool" where
  "iso_canonical iso_date \<longleftrightarrow>
     (\<forall>x d. iso_date x = Some d \<longrightarrow> is_str d \<and> \<not> is_blank d \<and> iso_date d = Some d)"

lemma strip_json_idem [simp]: "strip_json (strip_json v) = strip_json v"
  by (cases v) simp_all

lemma is_str_strip_json [simp]: "is_str (strip_json v) = is_str v"
  by (cases v) simp_all

lemma is_blank_strip_json [simp]: "is_str v \<Longrightarrow> is_blank (strip_json v) = is_blank v"
  by (cases v) simp_all

lemma check_range_Inr: "check_range spec v = Inr w \<longleftrightarrow> w = v \<and> in_range spec v"
  by (auto simp: check_range_def in_range_def split: option.splits)

lemma py_int_JInt [simp]: "py_int (JInt i) = Inr i"
  by (simp add: py_int_def)

lemma coerce_text_Inr:
  "coerce_text spec v = Inr w \<longleftrightarrow>
   is_str v \<and> w = strip_json v \<and>
   str_len w \<le> (case fs_max_length spec of None \<Rightarrow> default_max_length (fs_type spec) | Some n \<Rightarrow> n)"
  by (auto simp: coerce_text_def Let_def)

lemma coerce_fits: "coerce iso_date spec v = Inr w \<Longrightarrow> fits iso_date spec w"
  by (cases "fs_type spec")
    (auto simp: coerce_def fits_def check_range_Inr coerce_text_Inr to_number_def andthen_Inr coerce_boolean_def
      filter_empty_conv split: if_splits json.splits option.splits)

text \<open>Coercion is idempotent.\<close>

lemma coerce_again:
  assumes "coerce iso_date spec v = Inr w" "\<not> is_blank v" "iso_canonical iso_date"
  shows "coerce iso_date spec w = Inr w \<and> \<not> is_blank w"
proof (cases "fs_type spec")
  case DATE
  then obtain d where "iso_date v = Some d" "w = d"
    using assms(1) by (auto simp: coerce_def split: if_splits option.splits)
  then show ?thesis using DATE assms(3) by (auto simp: coerce_def iso_canonical_def)
next
  case INTEGER
  then obtain i where "w = JInt i" "in_range spec w"
    using coerce_fits [OF assms(1)] by (auto simp: fits_def)
  then show ?thesis using INTEGER by (simp add: coerce_def to_number_def check_range_Inr)
next
  case BOOLEAN
  then obtain b where "w = JBool b" using coerce_fits [OF assms(1)] by (auto simp: fits_def)
  then show ?thesis using BOOLEAN by (simp add: coerce_def coerce_boolean_def)
next
  case NUMBER
  then show ?thesis
    using assms(1) by (cases v) (auto simp: coerce_def to_number_def andthen_Inr check_range_Inr)
next
  case SELECT
  then have "w = v" using assms(1) by (auto simp: coerce_def split: option.splits if_splits)
  with assms(1,2) show ?thesis by simp
next
  case MULTISELECT
  then have "w = v" using assms(1) by (auto simp: coerce_def split: json.splits option.splits if_splits)
  with assms(1,2) show ?thesis by simp
next
  case TEXT
  then show ?thesis using assms(1,2) by (auto simp: coerce_def coerce_text_Inr)
next
  case TEXTAREA
  then show ?thesis using assms(1,2) by (auto simp: coerce_def coerce_text_Inr)
next
  case PHONE
  then show ?thesis using assms(1,2) by (auto simp: coerce_def coerce_text_Inr)
qed

lemma coerce_fields_Cons:
  assumes "coerce_fields iso_date (spec # specs) p = Inr (c, es)"
  obtains (blank) es' where "is_blank (dget_default p (fs_key spec) JNull)"
      "coerce_fields iso_date specs p = Inr (c, es')"
      "es = (if fs_required spec then (fs_key spec, ''is required'') # es' else es')"
  | (invalid) msg es' where "\<not> is_blank (dget_default p (fs_key spec) JNull)"
      "coerce iso_date spec (dget_default p (fs_key spec) JNull) = Inl (Invalid msg)"
      "coerce_fields iso_date specs p = Inr (c, es')" "es = (fs_key spec, msg) # es'"
  | (valid) v c' where "\<not> is_blank (dget_default p (fs_key spec) JNull)"
      "coerce iso_date spec (dget_default p (fs_key spec) JNull) = Inr v"
      "coerce_fields iso_date specs p = Inr (c', es)" "c = (fs_key spec, v) # c'"
proof (cases "is_blank (dget_default p (fs_key spec) JNull)")
  case True
  then show ?thesis using assms by (auto simp: Let_def andthen_Inr intro: blank split: if_splits)
next
  case False
  show ?thesis
  proof (cases "coerce iso_date spec (dget_default p (fs_key spec) JNull)")
    case (Inl e)
    then show ?thesis
      using assms False by (cases e) (auto simp: Let_def andthen_Inr intro: invalid)
  next
    case (Inr v)
    then show ?thesis using assms False by (auto simp: Let_def andthen_Inr intro: valid)
  qed
qed

lemma coerce_fields_keys:
  "coerce_fields iso_date specs p = Inr (c, es) \<Longrightarrow> fst ` set c \<subseteq> set (map fs_key specs)"
proof (induction specs arbitrary: c es)
  case (Cons spec specs)
  from Cons.prems show ?case
  proof (cases rule: coerce_fields_Cons)
    case (blank es')
    with Cons.IH [OF blank(2)] show ?thesis by auto
  next
    case (invalid msg es')
    with Cons.IH [OF invalid(3)] show ?thesis by auto
  next
    case (valid v c')
    with Cons.IH [OF valid(3)] show ?thesis by auto
  qed
qed simp

text \<open>Every coerced entry comes from its spec and fits it, and nothing required is missing.\<close>

lemma coerce_fields_sound:
  assumes "coerce_fields iso_date specs p = Inr (c, [])" "distinct (map fs_key specs)"
  shows "distinct (map fst c) \<and>
    (\<forall>(k, v) \<in> set c. \<exists>spec \<in> set specs. fs_key spec = k \<and> fits iso_date spec v) \<and>
    (\<forall>spec \<in> set specs. fs_required spec \<longrightarrow> fs_key spec \<in> fst ` set c)"
  using assms
proof (induction specs arbitrary: c)
  case Nil
  then show ?case by simp
next
  case (Cons spec specs)
  from Cons.prems(1) show ?case
  proof (cases rule: coerce_fields_Cons)
    case (blank es')
    then have "\<not> fs_required spec" "es' = []" by (auto split: if_splits)
    then show ?thesis using Cons.IH [of c] blank(2) Cons.prems(2) by auto
  next
    case (valid v c')
    have "fs_key spec \<notin> fst ` set c'" using coerce_fields_keys [OF valid(3)] Cons.prems(2) by auto
    then show ?thesis
      using Cons.IH [OF valid(3)] Cons.prems(2) valid(4) coerce_fits [OF valid(2)] by auto
  qed simp
qed

lemma coerce_fields_again:
  assumes "coerce_fields iso_date specs p = Inr (c, [])" "distinct (map fs_key specs)" "iso_canonical iso_date"
    and "\<forall>spec \<in> set specs. dget_default q (fs_key spec) JNull = dget_default c (fs_key spec) JNull"
  shows "coerce_fields iso_date specs q = Inr (c, [])"
  using assms
proof (induction specs arbitrary: c)
  case Nil
  then show ?case by simp
next
  case (Cons spec specs)
  from Cons.prems(1) show ?case
  proof (cases rule: coerce_fields_Cons)
    case (blank es')
    then have r: "\<not> fs_required spec" "es' = []" by (auto split: if_splits)
    have "fs_key spec \<notin> fst ` set c" using coerce_fields_keys [OF blank(2)] Cons.prems(2) by auto
    then have "dget_default c (fs_key spec) JNull = JNull"
      by (simp add: dget_default_def map_of_eq_None_iff split: option.split) (metis option.distinct(1) map_of_eq_None_iff)
    then show ?thesis
      using Cons.IH [of c] blank(2) r Cons.prems(2-4) by simp
  next
    case (valid v c')
    have again: "coerce iso_date spec v = Inr v" "\<not> is_blank v"
      using coerce_again [OF valid(2,1) Cons.prems(3)] by auto
    have "dget_default q (fs_key s) JNull = dget_default c' (fs_key s) JNull" if "s \<in> set specs" for s
    proof -
      have "fs_key spec \<notin> fs_key ` set specs" using Cons.prems(2) by simp
      then have "fs_key s \<noteq> fs_key spec" using that by (metis imageI)
      then show ?thesis using Cons.prems(4) that valid(4) by auto
    qed
    then have "coerce_fields iso_date specs q = Inr (c', [])"
      using Cons.IH [OF valid(3)] Cons.prems(2,3) by simp
    then show ?thesis using again Cons.prems(4) valid(4) by simp
  qed simp
qed

lemma coerce_fields_errors:
  "coerce_fields iso_date specs p = Inr (c, es) \<Longrightarrow>
   fst ` set es = fs_key ` {spec \<in> set specs.
     if is_blank (dget_default p (fs_key spec) JNull) then fs_required spec
     else \<exists>msg. coerce iso_date spec (dget_default p (fs_key spec) JNull) = Inl (Invalid msg)}"
proof (induction specs arbitrary: c es)
  case Nil
  then show ?case by simp
next
  case (Cons spec specs)
  let ?bad = "\<lambda>spec. if is_blank (dget_default p (fs_key spec) JNull) then fs_required spec
     else \<exists>msg. coerce iso_date spec (dget_default p (fs_key spec) JNull) = Inl (Invalid msg)"
  have ins: "fs_key ` {s \<in> set (spec # specs). ?bad s} =
    (if ?bad spec then insert (fs_key spec) (fs_key ` {s \<in> set specs. ?bad s}) else fs_key ` {s \<in> set specs. ?bad s})"
    by auto
  from Cons.prems show ?case
  proof (cases rule: coerce_fields_Cons)
    case (blank es')
    then show ?thesis unfolding ins using Cons.IH [OF blank(2)] by simp
  next
    case (invalid msg es')
    then show ?thesis unfolding ins using Cons.IH [OF invalid(3)] by simp
  next
    case (valid v c')
    then show ?thesis unfolding ins using Cons.IH [OF valid(3)] by simp
  qed
qed

lemma validate_definition_wf: "validate_definition j = Inr fs \<Longrightarrow> pred_option wf_specs fs"
  using validate_fields_Inr
  by (fastforce simp: validate_definition_def wf_specs_def andthen_Inr split: json.splits if_splits)

section \<open>Properties\<close>

text \<open>C39. The definition validator decides well-formedness and returns the canonical form: whatever JSON
  is sent, an accepted definition is well-formed (keys, labels, options, ranges and lengths as
  the engine promises, no key twice), and a definition in stored form is accepted, unchanged, exactly
  when it is well-formed; so validating what was stored changes nothing.\<close>

theorem form_definition_canonical:
  "(\<forall>specs. validate_definition j = Inr (Some specs) \<longrightarrow> wf_specs specs) \<and>
   (validate_definition (specs_json specs') = Inr (Some specs')) = wf_specs specs'"
proof -
  have sound: "wf_specs specs" if "validate_definition j = Inr (Some specs)" for j specs
    using validate_definition_wf [OF that] by simp
  have "validate_definition (specs_json specs') = Inr (Some specs')" if "wf_specs specs'"
    using that by (simp add: validate_definition_def specs_json_def wf_specs_def validate_fields_canonical)
  with sound show ?thesis by blast
qed

theorem form_definition_canonical_witness:
  "wf_specs [\<lparr>fs_key = ''size'', fs_label = JStr ''size'', fs_type = INTEGER, fs_required = True,
     fs_help_text = None, fs_options = None, fs_min = Some (JInt 1), fs_max = None, fs_max_length = None\<rparr>]"
proof -
  have "validate_definition (JArr [JObj [(''key'', JStr ''size''), (''type'', JStr ''integer''),
      (''required'', JBool True), (''min'', JInt 1)]]) =
    Inr (Some [\<lparr>fs_key = ''size'', fs_label = JStr ''size'', fs_type = INTEGER, fs_required = True,
     fs_help_text = None, fs_options = None, fs_min = Some (JInt 1), fs_max = None, fs_max_length = None\<rparr>])"
    by code_simp
  then show ?thesis using form_definition_canonical by blast
qed

text \<open>C30. A payload that passes is typed: with a well-formed definition, every submitted key is defined on
  the category, every stored entry belongs to a field and has that field's type, range, length and
  options, each field at most once, and every required field is there.\<close>

theorem form_payload_sound:
  assumes "wf_specs specs"
    and "validate_payload iso_date (Some specs) (JObj payload) = Inr stored"
  shows "fst ` set payload \<subseteq> set (map fs_key specs) \<and>
    (let c = (case stored of None \<Rightarrow> [] | Some c \<Rightarrow> c) in
     distinct (map fst c) \<and>
     (\<forall>(k, v) \<in> set c. \<exists>spec \<in> set specs. fs_key spec = k \<and> fits iso_date spec v) \<and>
     (\<forall>spec \<in> set specs. fs_required spec \<longrightarrow> fs_key spec \<in> fst ` set c))"
proof -
  obtain c where c: "coerce_fields iso_date specs payload = Inr (c, [])" "unknown_fields specs payload = []"
    "stored = (if c = [] then None else Some c)"
    using assms(2)
    by (cases "payload = []") (auto simp: validate_payload_def Let_def split: sum.splits if_splits)
  have "fst ` set payload \<subseteq> set (map fs_key specs)"
    using c(2) by (auto simp: unknown_fields_def filter_empty_conv)
  moreover have "(case stored of None \<Rightarrow> [] | Some c \<Rightarrow> c) = c" using c(3) by simp
  ultimately show ?thesis
    using coerce_fields_sound [OF c(1)] assms(1) by (simp add: wf_specs_def Let_def)
qed

theorem form_payload_sound_witness:
  "fits (\<lambda>_. None) \<lparr>fs_key = ''size'', fs_label = JStr ''size'', fs_type = INTEGER, fs_required = True,
     fs_help_text = None, fs_options = None, fs_min = Some (JInt 1), fs_max = None, fs_max_length = None\<rparr> (JInt 3)"
proof -
  let ?spec = "\<lparr>fs_key = ''size'', fs_label = JStr ''size'', fs_type = INTEGER, fs_required = True,
     fs_help_text = None, fs_options = None, fs_min = Some (JInt 1), fs_max = None, fs_max_length = None\<rparr>"
  have "key_match ''size''" "strip ''size'' \<noteq> []" by code_simp+
  then have w: "wf_specs [?spec]"
    by (simp add: wf_specs_def wf_spec_def wf_options_def wf_range_def wf_max_length_def MAX_FIELDS_def
        CHOICE_def NUMERIC_def TEXTUAL_def)
  have "validate_payload (\<lambda>_. None) (Some [?spec]) (JObj [(''size'', JFloat (Fin 3))]) =
    Inr (Some [(''size'', JInt 3)])"
    by (simp add: validate_payload_def coerce_def to_number_def py_int_def check_range_def unknown_fields_def
        Let_def)
  from form_payload_sound [OF w this] show ?thesis by simp
qed

text \<open>Coercion is stable: validating a stored payload against the same definition accepts it and
  returns it unchanged. The date functions are assumed to accept their own canonical output.\<close>

theorem form_payload_revalidates:
  assumes "wf_specs specs" and "iso_canonical iso_date"
    and "validate_payload iso_date (Some specs) (JObj payload) = Inr (Some stored)"
  shows "validate_payload iso_date (Some specs) (JObj stored) = Inr (Some stored)"
proof -
  obtain c where c: "coerce_fields iso_date specs payload = Inr (c, [])" "c \<noteq> []" "stored = c"
    using assms(3)
    by (cases "payload = []") (auto simp: validate_payload_def Let_def split: sum.splits if_splits)
  have "coerce_fields iso_date specs c = Inr (c, [])"
    using coerce_fields_again [OF c(1) _ assms(2)] assms(1) by (simp add: wf_specs_def)
  moreover have "unknown_fields specs c = []"
    using coerce_fields_keys [OF c(1)] by (auto simp: unknown_fields_def filter_empty_conv)
  ultimately show ?thesis using c(2,3) by (simp add: validate_payload_def Let_def)
qed

theorem form_payload_revalidates_witness:
  "validate_payload (\<lambda>_. None) (Some [\<lparr>fs_key = ''name'', fs_label = JStr ''n'', fs_type = TEXT, fs_required = True,
     fs_help_text = None, fs_options = None, fs_min = None, fs_max = None, fs_max_length = Some 500\<rparr>])
     (JObj [(''name'', JStr ''x'')]) = Inr (Some [(''name'', JStr ''x'')])"
proof -
  let ?spec = "\<lparr>fs_key = ''name'', fs_label = JStr ''n'', fs_type = TEXT, fs_required = True,
     fs_help_text = None, fs_options = None, fs_min = None, fs_max = None, fs_max_length = Some 500\<rparr>"
  have "key_match ''name''" "strip ''n'' \<noteq> []" by code_simp+
  then have w: "wf_specs [?spec]"
    by (simp add: wf_specs_def wf_spec_def wf_options_def wf_range_def wf_max_length_def MAX_FIELDS_def
        CHOICE_def NUMERIC_def TEXTUAL_def)
  have "validate_payload (\<lambda>_. None) (Some [?spec]) (JObj [(''name'', JStr '' x '')]) = Inr (Some [(''name'', JStr ''x'')])"
    by code_simp
  from form_payload_revalidates [OF w _ this] show ?thesis by (simp add: iso_canonical_def)
qed

text \<open>A rejected payload reports every problem at once: the fields named in the error are exactly the
  submitted keys the category does not define, the required fields left blank, and the fields whose
  value does not fit.\<close>

theorem form_errors_complete:
  assumes "validate_payload iso_date (Some specs) (JObj payload) = Inl (FormValidationError es)"
  shows "es \<noteq> [] \<and>
    fst ` set es = (fst ` set payload - set (map fs_key specs)) \<union>
      fs_key ` {spec \<in> set specs.
        if is_blank (dget_default payload (fs_key spec) JNull) then fs_required spec
        else \<exists>msg. coerce iso_date spec (dget_default payload (fs_key spec) JNull) = Inl (Invalid msg)}"
proof -
  obtain c errors where c: "coerce_fields iso_date specs payload = Inr (c, errors)"
    "es = unknown_fields specs payload @ errors" "es \<noteq> []"
    using assms
    by (cases "payload = []") (auto simp: validate_payload_def Let_def split: sum.splits if_splits)
  have "fst ` set (unknown_fields specs payload) = fst ` set payload - set (map fs_key specs)"
    by (force simp: unknown_fields_def)
  then show ?thesis using coerce_fields_errors [OF c(1)] c(2,3) by (simp add: image_Un)
qed

theorem form_errors_complete_witness:
  "fst ` set [(''zzz'', ''not defined on this category''), (''name'', ''is required'')] = {''zzz'', ''name''}"
proof -
  let ?spec = "\<lparr>fs_key = ''name'', fs_label = JStr ''n'', fs_type = TEXT, fs_required = True,
     fs_help_text = None, fs_options = None, fs_min = None, fs_max = None, fs_max_length = Some 500\<rparr>"
  have "validate_payload (\<lambda>_. None) (Some [?spec]) (JObj [(''zzz'', JInt 1)]) =
    Inl (FormValidationError [(''zzz'', ''not defined on this category''), (''name'', ''is required'')])"
    by code_simp
  from form_errors_complete [OF this] show ?thesis by auto
qed

end
