(* ===== verification/Logistics.thy ===== *)
theory Logistics
  imports Auth Messaging Workflow Form_Schema
begin

text \<open>
  The logistics service (\<open>services/logistics/app\<close>): resource categories with their form and workflow
  definitions and stock (\<open>services/inventory.py\<close>), the help-request lifecycle
  (\<open>services/requests.py\<close>), dispatch (\<open>services/dispatch.py\<close>), alerts, donations, the replica of IAM
  users (\<open>events/consumers/iam.py\<close>) and the routes in front of them (\<open>api/\<close>). The database is
  \<open>logistics_db\<close>. The role guards of this service do not require a tenant, so the tenant of a
  principal stays optional: a comparison with an absent tenant matches no row, and writing it to a
  NOT NULL column is refused.
\<close>

section \<open>State\<close>

datatype inventory_status = AVAILABLE | RESERVED | DEPLETED | EXPIRED
datatype urgency_level = LOW | MEDIUM | HIGH | CRITICAL
datatype task_status = TASK_ASSIGNED | TASK_ACCEPTED | TASK_IN_PROGRESS | TASK_COMPLETED | TASK_DECLINED | TASK_CANCELLED
datatype alert_severity = SEV_HIGH | SEV_MEDIUM | SEV_LOW
datatype payment_status = PAY_PENDING | PAY_SUCCESS | PAY_FAILED

fun inventory_status_value :: "inventory_status \<Rightarrow> string" where
  "inventory_status_value AVAILABLE = ''available''"
| "inventory_status_value RESERVED = ''reserved''"
| "inventory_status_value DEPLETED = ''depleted''"
| "inventory_status_value EXPIRED = ''expired''"

fun urgency_value :: "urgency_level \<Rightarrow> string" where
  "urgency_value LOW = ''low''"
| "urgency_value MEDIUM = ''medium''"
| "urgency_value HIGH = ''high''"
| "urgency_value CRITICAL = ''critical''"

fun task_status_value :: "task_status \<Rightarrow> string" where
  "task_status_value TASK_ASSIGNED = ''assigned''"
| "task_status_value TASK_ACCEPTED = ''accepted''"
| "task_status_value TASK_IN_PROGRESS = ''in_progress''"
| "task_status_value TASK_COMPLETED = ''completed''"
| "task_status_value TASK_DECLINED = ''declined''"
| "task_status_value TASK_CANCELLED = ''cancelled''"

fun severity_value :: "alert_severity \<Rightarrow> string" where
  "severity_value SEV_HIGH = ''HIGH''"
| "severity_value SEV_MEDIUM = ''MEDIUM''"
| "severity_value SEV_LOW = ''LOW''"

record resource_category =
  cat_id :: uuid
  cat_tenant_id :: uuid
  cat_name :: string
  cat_description :: "string option"
  cat_unit :: string
  cat_form_schema :: "field_spec list option"
  cat_workflow :: json
  cat_is_active :: bool
  cat_created_at :: timestamp
  cat_updated_at :: timestamp

record inventory_item =
  it_id :: uuid
  it_tenant_id :: uuid
  it_category_id :: uuid
  it_name :: string
  it_quantity_total :: int
  it_quantity_reserved :: int
  it_status :: inventory_status
  it_expiry_date :: "int option"
  it_storage_location :: "string option"
  it_donor_name :: "string option"
  it_created_at :: timestamp
  it_updated_at :: timestamp

record help_request =
  hr_id :: uuid
  hr_tenant_id :: uuid
  hr_requester_user_id :: "uuid option"
  hr_verified_by_user_id :: "uuid option"
  hr_requester_name :: "string option"
  hr_requester_phone :: "string option"
  hr_category_id :: uuid
  hr_description :: string
  hr_quantity_needed :: int
  hr_urgency :: urgency_level
  hr_status :: request_status
  hr_extra_fields :: "(string \<times> json) list option"
  hr_area :: "string option"
  hr_latitude :: "pyfloat option"
  hr_longitude :: "pyfloat option"
  hr_is_sensitive :: bool
  hr_verified_at :: "timestamp option"
  hr_fulfilled_at :: "timestamp option"
  hr_created_at :: timestamp

record dispatch_task =
  tk_id :: uuid
  tk_tenant_id :: uuid
  tk_request_id :: uuid
  tk_volunteer_user_id :: uuid
  tk_assigned_by_user_id :: "uuid option"
  tk_title :: string
  tk_instructions :: "string option"
  tk_status :: task_status
  tk_accepted_at :: "timestamp option"
  tk_completed_at :: "timestamp option"
  tk_created_at :: timestamp

record user_replica =
  ur_user_id :: uuid
  ur_tenant_id :: "uuid option"
  ur_full_name :: string
  ur_phone :: "string option"
  ur_roles :: "string list"
  ur_is_active :: bool
  ur_source_updated_at :: timestamp

record disaster_alert =
  al_id :: uuid
  al_tenant_id :: uuid
  al_title :: string
  al_message :: string
  al_severity :: alert_severity
  al_created_by :: uuid
  al_created_at :: timestamp

record payment_donation =
  pd_id :: uuid
  pd_tenant_id :: uuid
  pd_donor_user_id :: uuid
  pd_category_id :: uuid
  pd_amount :: pyfloat
  pd_currency :: string
  pd_order_id :: uuid
  pd_status :: payment_status
  pd_quantity :: int

record logistics_db = service +
  categories :: "resource_category list"
  items :: "inventory_item list"
  help_requests :: "help_request list"
  tasks :: "dispatch_task list"
  replicas :: "user_replica list"
  alerts :: "disaster_alert list"
  payments :: "payment_donation list"
  lg_processed :: "uuid list"

definition empty_logistics_db :: logistics_db where
  "empty_logistics_db =
     \<lparr>outbox = [], outbox_seq = 0, next_uuid = 0, categories = [], items = [], help_requests = [], tasks = [],
      replicas = [], alerts = [], payments = [], lg_processed = []\<rparr>"

definition quantity_available :: "inventory_item \<Rightarrow> int" where
  "quantity_available i = it_quantity_total i - it_quantity_reserved i"

definition lg_emit ::
  "timestamp \<Rightarrow> string \<Rightarrow> uuid option \<Rightarrow> (string \<times> json) list \<Rightarrow> 'a logistics_db_scheme \<Rightarrow> 'a logistics_db_scheme" where
  "lg_emit now routing_key tenant_id data s = emit ''logistics-service'' now routing_key tenant_id data s"

datatype logistics_error =
    CategoryNotFound
  | CategoryInactive string
  | FormInvalid field_errors
  | ItemNotFound
  | InsufficientStock int int
  | RequestNotFound
  | StatusNotAllowed request_status request_status "request_status list"
  | NotApproved
  | VolunteerDeactivated
  | NotAVolunteer
  | TaskNotFound
  | Raised py_error

text \<open>An \<open>Integer\<close> column holds 32 bits.\<close>

definition int4 :: "int \<Rightarrow> bool" where
  "int4 n \<longleftrightarrow> - (2 ^ 31) \<le> n \<and> n < 2 ^ 31"

section \<open>Categories\<close>

definition category_event :: "resource_category \<Rightarrow> (string \<times> json) list" where
  "category_event c =
     [(''category_id'', JUuid (cat_id c)), (''name'', JStr (cat_name c)),
      (''description'', json_opt JStr (cat_description c)), (''unit'', JStr (cat_unit c)),
      (''is_active'', JBool (cat_is_active c)), (''updated_at'', JTime (cat_updated_at c))]"

record category_create =
  cc_name :: string
  cc_description :: "string option"
  cc_unit :: string
  cc_form_schema :: json
  cc_workflow :: json

text \<open>\<open>ResourceCategoryCreate\<close>: the field constraints and the two definition validators; the result
  carries the normalised definitions.\<close>

definition category_create_valid ::
  "category_create \<Rightarrow> py_error + (category_create \<times> field_spec list option \<times> json)" where
  "category_create_valid d =
     (if length (cc_name d) < 1 \<or> length (cc_name d) > 150 then Inl ValueError
      else if length (cc_unit d) < 1 \<or> length (cc_unit d) > 50 then Inl ValueError
      else (case validate_definition (cc_form_schema d) of
          Inl _ \<Rightarrow> Inl ValueError
        | Inr fs \<Rightarrow>
            (case validate_workflow (cc_workflow d) of
               Inl _ \<Rightarrow> Inl ValueError
             | Inr flow \<Rightarrow> Inr (d, fs, flow))))"

definition create_category ::
  "timestamp \<Rightarrow> uuid option \<Rightarrow> category_create \<times> field_spec list option \<times> json \<Rightarrow> logistics_db \<Rightarrow>
   logistics_db \<times> (logistics_error + resource_category)" where
  "create_category now tenant = (\<lambda>(d, fs, flow) s.
     case tenant of
       None \<Rightarrow> (s, Inl (Raised DatabaseError))
     | Some t \<Rightarrow>
         (let c = \<lparr>cat_id = next_uuid s, cat_tenant_id = t, cat_name = cc_name d,
                   cat_description = cc_description d, cat_unit = cc_unit d, cat_form_schema = fs,
                   cat_workflow = flow, cat_is_active = True, cat_created_at = now, cat_updated_at = now\<rparr>
          in (lg_emit now ''logistics.resource-category.created'' tenant (category_event c)
                (s\<lparr>categories := categories s @ [c], next_uuid := Suc (next_uuid s)\<rparr>),
              Inr c)))"

definition list_categories :: "uuid option \<Rightarrow> bool \<Rightarrow> logistics_db \<Rightarrow> resource_category list" where
  "list_categories tenant include_inactive s =
     sort_key cat_name
       (filter (\<lambda>c. Some (cat_tenant_id c) = tenant \<and> (include_inactive \<or> cat_is_active c)) (categories s))"

definition get_category :: "uuid option \<Rightarrow> uuid \<Rightarrow> logistics_db \<Rightarrow> logistics_error + resource_category" where
  "get_category tenant cid s =
     (case find (\<lambda>c. cat_id c = cid \<and> Some (cat_tenant_id c) = tenant) (categories s) of
        None \<Rightarrow> Inl CategoryNotFound
      | Some c \<Rightarrow> Inr c)"

text \<open>A partial update: an outer \<open>None\<close> is a field left out, \<open>Some None\<close> an explicit null.\<close>

record category_update =
  cu_name :: "string option option"
  cu_description :: "string option option"
  cu_unit :: "string option option"
  cu_form_schema :: "json option"
  cu_workflow :: "json option"
  cu_is_active :: "bool option option"

record category_patch =
  cp_name :: "string option option"
  cp_description :: "string option option"
  cp_unit :: "string option option"
  cp_form_schema :: "field_spec list option option"
  cp_workflow :: "json option"
  cp_is_active :: "bool option option"

definition len_ok :: "nat \<Rightarrow> string option option \<Rightarrow> bool" where
  "len_ok n v = (case v of Some (Some s) \<Rightarrow> 1 \<le> length s \<and> length s \<le> n | _ \<Rightarrow> True)"

definition category_update_valid :: "category_update \<Rightarrow> py_error + category_patch" where
  "category_update_valid d =
     (if \<not> len_ok 150 (cu_name d) \<or> \<not> len_ok 50 (cu_unit d) then Inl ValueError
      else (case (case cu_form_schema d of None \<Rightarrow> Inr None | Some j \<Rightarrow> (case validate_definition j of Inl e \<Rightarrow> Inl e | Inr fs \<Rightarrow> Inr (Some fs))) of
          Inl _ \<Rightarrow> Inl ValueError
        | Inr fs \<Rightarrow>
            (case (case cu_workflow d of None \<Rightarrow> Inr None | Some j \<Rightarrow> (case validate_workflow j of Inl e \<Rightarrow> Inl e | Inr flow \<Rightarrow> Inr (Some flow))) of
               Inl _ \<Rightarrow> Inl ValueError
             | Inr flow \<Rightarrow>
                 Inr \<lparr>cp_name = cu_name d, cp_description = cu_description d, cp_unit = cu_unit d,
                      cp_form_schema = fs, cp_workflow = flow, cp_is_active = cu_is_active d\<rparr>)))"

definition keep :: "'a \<Rightarrow> 'a option \<Rightarrow> 'a" where
  "keep old v = (case v of None \<Rightarrow> old | Some x \<Rightarrow> x)"

text \<open>The \<open>setattr\<close> loop. A null in a NOT NULL column makes the flush raise.\<close>

definition apply_patch :: "category_patch \<Rightarrow> resource_category \<Rightarrow> resource_category option" where
  "apply_patch d c =
     (if cp_name d = Some None \<or> cp_unit d = Some None \<or> cp_is_active d = Some None then None
      else Some (c\<lparr>cat_name := keep (cat_name c) (map_option the (cp_name d)),
                   cat_description := keep (cat_description c) (cp_description d),
                   cat_unit := keep (cat_unit c) (map_option the (cp_unit d)),
                   cat_form_schema := keep (cat_form_schema c) (cp_form_schema d),
                   cat_workflow := keep (cat_workflow c) (cp_workflow d),
                   cat_is_active := keep (cat_is_active c) (map_option the (cp_is_active d))\<rparr>))"

text \<open>The flush issues an \<open>UPDATE\<close>, which moves \<open>updated_at\<close>, only when a column changed.\<close>

definition touch_category :: "timestamp \<Rightarrow> resource_category \<Rightarrow> resource_category \<Rightarrow> resource_category" where
  "touch_category now old new = (if new = old then old else new\<lparr>cat_updated_at := now\<rparr>)"

definition put_category :: "resource_category \<Rightarrow> logistics_db \<Rightarrow> logistics_db" where
  "put_category c s = s\<lparr>categories := row_upd (\<lambda>x. cat_id x = cat_id c) (\<lambda>_. c) (categories s)\<rparr>"

definition update_category ::
  "timestamp \<Rightarrow> uuid option \<Rightarrow> uuid \<Rightarrow> category_patch \<Rightarrow> logistics_db \<Rightarrow>
   logistics_db \<times> (logistics_error + resource_category)" where
  "update_category now tenant cid d s =
     (case get_category tenant cid s of
        Inl e \<Rightarrow> (s, Inl e)
      | Inr c \<Rightarrow>
          (case apply_patch d c of
             None \<Rightarrow> (s, Inl (Raised DatabaseError))
           | Some c1 \<Rightarrow>
               (let c' = touch_category now c c1
                in (lg_emit now ''logistics.resource-category.updated'' tenant (category_event c')
                      (put_category c' s),
                    Inr c'))))"

definition deactivate_category ::
  "timestamp \<Rightarrow> uuid option \<Rightarrow> uuid \<Rightarrow> logistics_db \<Rightarrow> logistics_db \<times> (logistics_error + resource_category)" where
  "deactivate_category now tenant cid s =
     (case get_category tenant cid s of
        Inl e \<Rightarrow> (s, Inl e)
      | Inr c \<Rightarrow>
          if cat_is_active c then
            (let c' = c\<lparr>cat_is_active := False, cat_updated_at := now\<rparr>
             in (lg_emit now ''logistics.resource-category.updated'' tenant (category_event c')
                   (put_category c' s),
                 Inr c'))
          else (s, Inr c))"

section \<open>Stock\<close>

definition LOW_STOCK_THRESHOLD :: int where
  "LOW_STOCK_THRESHOLD = 5"

text \<open>The payload of \<open>logistics.inventory.item-updated\<close>, with the timestamp the code reads.\<close>

definition item_event :: "timestamp \<Rightarrow> inventory_item \<Rightarrow> (string \<times> json) list" where
  "item_event ts i =
     [(''item_id'', JUuid (it_id i)), (''category_id'', JUuid (it_category_id i)), (''name'', JStr (it_name i)),
      (''quantity_total'', JInt (it_quantity_total i)), (''quantity_reserved'', JInt (it_quantity_reserved i)),
      (''quantity_available'', JInt (quantity_available i)),
      (''status'', JStr (inventory_status_value (it_status i))), (''updated_at'', JTime ts)]"

record item_create =
  ic_category_id :: uuid
  ic_name :: string
  ic_quantity_total :: int
  ic_expiry_date :: "int option"
  ic_storage_location :: "string option"
  ic_donor_name :: "string option"

definition add_inventory_item ::
  "timestamp \<Rightarrow> uuid option \<Rightarrow> item_create \<Rightarrow> logistics_db \<Rightarrow> logistics_db \<times> (logistics_error + inventory_item)" where
  "add_inventory_item now tenant d s =
     (case tenant of
        None \<Rightarrow> (s, Inl (Raised DatabaseError))
      | Some t \<Rightarrow>
          if ic_category_id d \<notin> cat_id ` set (categories s) \<or> \<not> int4 (ic_quantity_total d) then
            (s, Inl (Raised DatabaseError))
          else
            (let i = \<lparr>it_id = next_uuid s, it_tenant_id = t, it_category_id = ic_category_id d,
                      it_name = ic_name d, it_quantity_total = ic_quantity_total d, it_quantity_reserved = 0,
                      it_status = AVAILABLE, it_expiry_date = ic_expiry_date d,
                      it_storage_location = ic_storage_location d, it_donor_name = ic_donor_name d,
                      it_created_at = now, it_updated_at = now\<rparr>
             in (lg_emit now ''logistics.inventory.item-updated'' tenant (item_event now i)
                   (s\<lparr>items := items s @ [i], next_uuid := Suc (next_uuid s)\<rparr>),
                 Inr i)))"

definition list_inventory :: "uuid option \<Rightarrow> logistics_db \<Rightarrow> inventory_item list" where
  "list_inventory tenant s =
     sort_key (\<lambda>i. - it_created_at i) (filter (\<lambda>i. Some (it_tenant_id i) = tenant) (items s))"

definition get_item :: "uuid option \<Rightarrow> uuid \<Rightarrow> logistics_db \<Rightarrow> inventory_item option" where
  "get_item tenant iid s = find (\<lambda>i. it_id i = iid \<and> Some (it_tenant_id i) = tenant) (items s)"

definition put_item :: "inventory_item \<Rightarrow> logistics_db \<Rightarrow> logistics_db" where
  "put_item i s = s\<lparr>items := row_upd (\<lambda>x. it_id x = it_id i) (\<lambda>_. i) (items s)\<rparr>"

text \<open>\<open>now = item.updated_at\<close> is read before the flush, so the event carries the time of the previous
  write; the flush moves \<open>updated_at\<close> when a column changed.\<close>

definition touch_item :: "timestamp \<Rightarrow> inventory_item \<Rightarrow> inventory_item \<Rightarrow> inventory_item" where
  "touch_item now old new = (if new = old then old else new\<lparr>it_updated_at := now\<rparr>)"

text \<open>The row a reservation and a release write.\<close>

definition reserved_item :: "int \<Rightarrow> inventory_item \<Rightarrow> inventory_item" where
  "reserved_item q i =
     (let i1 = i\<lparr>it_quantity_reserved := it_quantity_reserved i + q\<rparr>
      in if quantity_available i1 = 0 then i1\<lparr>it_status := RESERVED\<rparr> else i1)"

definition released_item :: "int \<Rightarrow> inventory_item \<Rightarrow> inventory_item" where
  "released_item q i =
     (let i1 = i\<lparr>it_quantity_reserved := max 0 (it_quantity_reserved i - q)\<rparr>
      in if quantity_available i1 > 0 \<and> it_status i1 = RESERVED then i1\<lparr>it_status := AVAILABLE\<rparr> else i1)"

definition reserve_stock ::
  "timestamp \<Rightarrow> uuid option \<Rightarrow> uuid \<Rightarrow> int \<Rightarrow> logistics_db \<Rightarrow> logistics_db \<times> (logistics_error + inventory_item)" where
  "reserve_stock now tenant iid quantity s =
     (case get_item tenant iid s of
        None \<Rightarrow> (s, Inl ItemNotFound)
      | Some item \<Rightarrow>
          if quantity_available item < quantity then
            (s, Inl (InsufficientStock (quantity_available item) quantity))
          else
            (let i2 = reserved_item quantity item
             in if \<not> int4 (it_quantity_reserved i2) then (s, Inl (Raised DatabaseError))
                else
                  (let s1 = put_item (touch_item now item i2) s;
                       s2 = (if quantity_available i2 \<le> LOW_STOCK_THRESHOLD then
                               lg_emit now ''logistics.inventory.low-stock'' tenant
                                 [(''item_id'', JUuid (it_id i2)), (''category_id'', JUuid (it_category_id i2)),
                                  (''name'', JStr (it_name i2)),
                                  (''quantity_available'', JInt (quantity_available i2))] s1
                             else s1)
                   in (lg_emit now ''logistics.inventory.item-updated'' tenant (item_event (it_updated_at item) i2) s2,
                       Inr (touch_item now item i2)))))"

definition release_stock ::
  "timestamp \<Rightarrow> uuid option \<Rightarrow> uuid \<Rightarrow> int \<Rightarrow> logistics_db \<Rightarrow> logistics_db \<times> (logistics_error + inventory_item)" where
  "release_stock now tenant iid quantity s =
     (case get_item tenant iid s of
        None \<Rightarrow> (s, Inl ItemNotFound)
      | Some item \<Rightarrow>
          (let i2 = released_item quantity item
           in if \<not> int4 (it_quantity_reserved i2) then (s, Inl (Raised DatabaseError))
              else
                (lg_emit now ''logistics.inventory.item-updated'' tenant (item_event (it_updated_at item) i2)
                   (put_item (touch_item now item i2) s),
                 Inr (touch_item now item i2))))"

record donation_need =
  dn_id :: uuid
  dn_tenant_id :: uuid
  dn_name :: string
  dn_category_name :: string
  dn_unit :: string
  dn_needed_quantity :: int
  dn_urgency :: string

definition need_of :: "inventory_item \<Rightarrow> resource_category \<Rightarrow> donation_need" where
  "need_of i c =
     (let available = it_quantity_total i - it_quantity_reserved i in
      \<lparr>dn_id = it_id i, dn_tenant_id = it_tenant_id i, dn_name = it_name i, dn_category_name = cat_name c,
       dn_unit = cat_unit c, dn_needed_quantity = (if available \<ge> 0 then 50 - available else 50),
       dn_urgency = (if available \<le> 0 then ''CRITICAL'' else ''HIGH'')\<rparr>)"

definition get_donation_needs :: "logistics_db \<Rightarrow> donation_need list" where
  "get_donation_needs s =
     concat (map (\<lambda>i. map (need_of i) (filter (\<lambda>c. cat_id c = it_category_id i) (categories s)))
       (filter (\<lambda>i. it_quantity_total i - it_quantity_reserved i < 10) (items s)))"

section \<open>Help requests\<close>

record request_create =
  qc_category_id :: uuid
  qc_description :: string
  qc_quantity_needed :: int
  qc_urgency :: urgency_level
  qc_requester_name :: "string option"
  qc_requester_phone :: "string option"
  qc_area :: "string option"
  qc_latitude :: "pyfloat option"
  qc_longitude :: "pyfloat option"
  qc_is_sensitive :: bool
  qc_extra_fields :: json

definition create_request ::
  "(json \<Rightarrow> json option) \<Rightarrow> timestamp \<Rightarrow> principal \<Rightarrow> request_create \<Rightarrow> logistics_db \<Rightarrow>
   logistics_db \<times> (logistics_error + help_request)" where
  "create_request iso_date now p d s =
     (case get_category (p_tenant_id p) (qc_category_id d) s of
        Inl e \<Rightarrow> (s, Inl e)
      | Inr category \<Rightarrow>
          if \<not> cat_is_active category then (s, Inl (CategoryInactive (cat_name category)))
          else (case validate_payload iso_date (cat_form_schema category) (qc_extra_fields d) of
              Inl (FormValidationError es) \<Rightarrow> (s, Inl (FormInvalid es))
            | Inl (PayloadRaised e) \<Rightarrow> (s, Inl (Raised e))
            | Inr extra \<Rightarrow>
                (case initial_status (cat_workflow category) of
                   Inl e \<Rightarrow> (s, Inl (Raised e))
                 | Inr initial \<Rightarrow>
                     if \<not> int4 (qc_quantity_needed d) then (s, Inl (Raised DatabaseError))
                     else
                       (let r = \<lparr>hr_id = next_uuid s, hr_tenant_id = cat_tenant_id category,
                                 hr_requester_user_id = Some (p_user_id p), hr_verified_by_user_id = None,
                                 hr_requester_name = qc_requester_name d, hr_requester_phone = qc_requester_phone d,
                                 hr_category_id = qc_category_id d, hr_description = qc_description d,
                                 hr_quantity_needed = qc_quantity_needed d, hr_urgency = qc_urgency d,
                                 hr_status = initial, hr_extra_fields = extra, hr_area = qc_area d,
                                 hr_latitude = qc_latitude d, hr_longitude = qc_longitude d,
                                 hr_is_sensitive = qc_is_sensitive d, hr_verified_at = None,
                                 hr_fulfilled_at = None, hr_created_at = now\<rparr>
                        in (lg_emit now ''logistics.request.submitted'' (p_tenant_id p)
                              [(''request_id'', JUuid (hr_id r)), (''category_id'', JUuid (hr_category_id r)),
                               (''urgency'', JStr (urgency_value (hr_urgency r))),
                               (''quantity_needed'', JInt (hr_quantity_needed r)),
                               (''area'', json_opt JStr (hr_area r)),
                               (''status'', JStr (status_value (hr_status r))),
                               (''updated_at'', JTime (hr_created_at r))]
                              (s\<lparr>help_requests := help_requests s @ [r], next_uuid := Suc (next_uuid s)\<rparr>),
                            Inr r)))))"

fun urgency_rank :: "urgency_level \<Rightarrow> int" where
  "urgency_rank LOW = 0"
| "urgency_rank MEDIUM = 1"
| "urgency_rank HIGH = 2"
| "urgency_rank CRITICAL = 3"

text \<open>\<open>ORDER BY urgency DESC, created_at ASC LIMIT .. OFFSET ..\<close>.\<close>

definition list_requests ::
  "uuid option \<Rightarrow> request_status option \<Rightarrow> nat \<Rightarrow> nat \<Rightarrow> logistics_db \<Rightarrow> help_request list" where
  "list_requests tenant status limit offset s =
     take limit (drop offset
       (sort_key (\<lambda>r. - urgency_rank (hr_urgency r)) (sort_key hr_created_at
         (filter (\<lambda>r. Some (hr_tenant_id r) = tenant \<and> (status = None \<or> status = Some (hr_status r)))
           (help_requests s)))))"

definition get_request :: "uuid option \<Rightarrow> uuid \<Rightarrow> logistics_db \<Rightarrow> help_request option" where
  "get_request tenant rid s = find (\<lambda>r. hr_id r = rid \<and> Some (hr_tenant_id r) = tenant) (help_requests s)"

definition put_request :: "help_request \<Rightarrow> logistics_db \<Rightarrow> logistics_db" where
  "put_request r s = s\<lparr>help_requests := row_upd (\<lambda>x. hr_id x = hr_id r) (\<lambda>_. r) (help_requests s)\<rparr>"

text \<open>The two time stamps a status change leaves.\<close>

definition stamp_status :: "timestamp \<Rightarrow> uuid \<Rightarrow> request_status \<Rightarrow> help_request \<Rightarrow> help_request" where
  "stamp_status now u new_status r =
     (let r1 = r\<lparr>hr_status := new_status\<rparr> in
      if new_status = VERIFIED then r1\<lparr>hr_verified_by_user_id := Some u, hr_verified_at := Some now\<rparr>
      else if new_status = FULFILLED then r1\<lparr>hr_fulfilled_at := Some now\<rparr>
      else r1)"

definition change_status ::
  "timestamp \<Rightarrow> help_request \<Rightarrow> request_status \<Rightarrow> principal \<Rightarrow> logistics_db \<Rightarrow>
   logistics_db \<times> (logistics_error + help_request)" where
  "change_status now request new_status p s =
     (case allowed_next (case row_get cat_id (hr_category_id request) (categories s) of
                           None \<Rightarrow> JNull | Some c \<Rightarrow> cat_workflow c) (hr_status request) of
        Inl e \<Rightarrow> (s, Inl (Raised e))
      | Inr allowed \<Rightarrow>
          if new_status \<notin> set allowed then
            (s, Inl (StatusNotAllowed (hr_status request) new_status allowed))
          else
            (let r = stamp_status now (p_user_id p) new_status request in
             (lg_emit now ''logistics.request.status-changed'' (Some (hr_tenant_id request))
                [(''request_id'', JUuid (hr_id request)), (''category_id'', JUuid (hr_category_id request)),
                 (''quantity_needed'', JInt (hr_quantity_needed request)),
                 (''status'', JStr (status_value new_status)),
                 (''old_status'', JStr (status_value (hr_status request))),
                 (''new_status'', JStr (status_value new_status)),
                 (''requester_user_id'', json_opt JUuid (hr_requester_user_id request)),
                 (''changed_by_user_id'', JUuid (p_user_id p)), (''updated_at'', JTime now)]
                (put_request r s),
              Inr r)))"

section \<open>Dispatch\<close>

record task_create =
  tc_request_id :: uuid
  tc_volunteer_user_id :: uuid
  tc_title :: string
  tc_instructions :: "string option"

definition replica_name :: "uuid \<Rightarrow> logistics_db \<Rightarrow> json" where
  "replica_name u s =
     (case row_get ur_user_id u (replicas s) of None \<Rightarrow> JNull | Some r \<Rightarrow> JStr (ur_full_name r))"

definition new_task :: "timestamp \<Rightarrow> principal \<Rightarrow> task_create \<Rightarrow> help_request \<Rightarrow> uuid \<Rightarrow> dispatch_task" where
  "new_task now p d request fresh =
     \<lparr>tk_id = fresh, tk_tenant_id = hr_tenant_id request, tk_request_id = tc_request_id d,
      tk_volunteer_user_id = tc_volunteer_user_id d, tk_assigned_by_user_id = Some (p_user_id p),
      tk_title = tc_title d, tk_instructions = tc_instructions d, tk_status = TASK_ASSIGNED,
      tk_accepted_at = None, tk_completed_at = None, tk_created_at = now\<rparr>"

definition task_assigned_event ::
  "timestamp \<Rightarrow> principal \<Rightarrow> help_request \<Rightarrow> dispatch_task \<Rightarrow> logistics_db \<Rightarrow> (string \<times> json) list" where
  "task_assigned_event now p request t s =
     [(''task_id'', JUuid (tk_id t)), (''request_id'', JUuid (hr_id request)),
      (''title'', JStr (tk_title t)), (''instructions'', json_opt JStr (tk_instructions t)),
      (''priority'', JStr (urgency_value (hr_urgency request))),
      (''category'', JObj [(''id'', JUuid (hr_category_id request)),
         (''name'', (case row_get cat_id (hr_category_id request) (categories s) of
                       None \<Rightarrow> JNull | Some c \<Rightarrow> JStr (cat_name c)))]),
      (''location'', JObj [(''area'', json_opt JStr (hr_area request)),
         (''lat'', json_opt JFloat (hr_latitude request)),
         (''lng'', json_opt JFloat (hr_longitude request))]),
      (''volunteer'', JObj [(''user_id'', JUuid (tk_volunteer_user_id t)),
         (''full_name'', replica_name (tk_volunteer_user_id t) s)]),
      (''assigned_by'', JObj [(''user_id'', JUuid (p_user_id p)),
         (''full_name'', replica_name (p_user_id p) s)]),
      (''assigned_at'', JTime now), (''expires_at'', JNull)]"

definition assign_task ::
  "timestamp \<Rightarrow> principal \<Rightarrow> task_create \<Rightarrow> logistics_db \<Rightarrow> logistics_db \<times> (logistics_error + dispatch_task)" where
  "assign_task now p d s =
     (case row_get hr_id (tc_request_id d) (help_requests s) of
        None \<Rightarrow> (s, Inl RequestNotFound)
      | Some request \<Rightarrow>
          if Some (hr_tenant_id request) \<noteq> p_tenant_id p then (s, Inl RequestNotFound)
          else if hr_status request \<notin> {APPROVED, IN_PROGRESS} then (s, Inl NotApproved)
          else (case (case row_get ur_user_id (tc_volunteer_user_id d) (replicas s) of
                        Some vr \<Rightarrow> if \<not> ur_is_active vr then Some VolunteerDeactivated
                                   else if ''volunteer'' \<notin> set (ur_roles vr) then Some NotAVolunteer else None
                      | None \<Rightarrow> None) of
              Some e \<Rightarrow> (s, Inl e)
            | None \<Rightarrow>
                (let t = new_task now p d request (next_uuid s);
                     s1 = put_request (request\<lparr>hr_status := IN_PROGRESS\<rparr>)
                            (s\<lparr>tasks := tasks s @ [t], next_uuid := Suc (next_uuid s)\<rparr>)
                 in (lg_emit now ''logistics.task.assigned'' (p_tenant_id p)
                       (task_assigned_event now p request t s) s1,
                     Inr t))))"

definition put_task :: "dispatch_task \<Rightarrow> logistics_db \<Rightarrow> logistics_db" where
  "put_task t s = s\<lparr>tasks := row_upd (\<lambda>x. tk_id x = tk_id t) (\<lambda>_. t) (tasks s)\<rparr>"

definition update_task_status ::
  "timestamp \<Rightarrow> uuid option \<Rightarrow> uuid \<Rightarrow> task_status \<Rightarrow> logistics_db \<Rightarrow> logistics_db \<times> (logistics_error + dispatch_task)" where
  "update_task_status now tenant tid new_status s =
     (case row_get tk_id tid (tasks s) of
        None \<Rightarrow> (s, Inl TaskNotFound)
      | Some task \<Rightarrow>
          if Some (tk_tenant_id task) \<noteq> tenant then (s, Inl TaskNotFound)
          else
            (let t1 = task\<lparr>tk_status := new_status\<rparr>;
                 t2 = (if new_status = TASK_ACCEPTED then t1\<lparr>tk_accepted_at := Some now\<rparr>
                       else if new_status = TASK_COMPLETED then t1\<lparr>tk_completed_at := Some now\<rparr> else t1)
             in (lg_emit now ''logistics.task.status-changed'' tenant
                   [(''task_id'', JUuid (tk_id task)), (''request_id'', JUuid (tk_request_id task)),
                    (''volunteer_user_id'', JUuid (tk_volunteer_user_id task)),
                    (''old_status'', JStr (task_status_value (tk_status task))),
                    (''new_status'', JStr (task_status_value new_status))]
                   (put_task t2 s),
                 Inr t2)))"

section \<open>Alerts and donations\<close>

record alert_create =
  ac_title :: string
  ac_message :: string
  ac_severity :: alert_severity

definition route_create_alert ::
  "timestamp \<Rightarrow> principal \<Rightarrow> alert_create \<Rightarrow> logistics_db \<Rightarrow> logistics_db \<times> (http_error + disaster_alert)" where
  "route_create_alert now p d s =
     (case require_any_role [''tenant_admin'', ''coordinator''] p of
        Inl e \<Rightarrow> (s, Inl e)
      | Inr _ \<Rightarrow>
          (case p_tenant_id p of
             None \<Rightarrow> (s, Inl (HTTPException 400 ''Tenant ID missing in token''))
           | Some t \<Rightarrow>
               (let a = \<lparr>al_id = next_uuid s, al_tenant_id = t, al_title = ac_title d, al_message = ac_message d,
                         al_severity = ac_severity d, al_created_by = p_user_id p, al_created_at = now\<rparr>
                in (lg_emit now ''logistics.alert.created'' (Some t)
                      [(''alert_id'', JUuid (al_id a)), (''tenant_id'', JUuid t), (''title'', JStr (al_title a)),
                       (''message'', JStr (al_message a)), (''severity'', JStr (severity_value (al_severity a))),
                       (''created_by'', JUuid (al_created_by a)), (''created_at'', JTime (al_created_at a))]
                      (s\<lparr>alerts := alerts s @ [a], next_uuid := Suc (next_uuid s)\<rparr>),
                    Inr a))))"

definition route_get_alerts :: "principal \<Rightarrow> logistics_db \<Rightarrow> disaster_alert list" where
  "route_get_alerts p s =
     (case p_tenant_id p of
        None \<Rightarrow> []
      | Some t \<Rightarrow> sort_key (\<lambda>a. - al_created_at a) (filter (\<lambda>a. al_tenant_id a = t) (alerts s)))"

record checkout_request =
  co_tenant_id :: uuid
  co_category_id :: uuid
  co_amount :: pyfloat
  co_quantity :: int

text \<open>\<open>create_checkout_session\<close>. The MD5 digest of PayHere is a parameter: \<open>payhere_hash order amount\<close>
  is \<open>generate_hash(order_id, amount, "LKR")\<close>.\<close>

definition create_checkout_session ::
  "(uuid \<Rightarrow> pyfloat \<Rightarrow> string) \<Rightarrow> uuid \<Rightarrow> uuid \<Rightarrow> checkout_request \<Rightarrow> logistics_db \<Rightarrow>
   logistics_db \<times> (logistics_error + (uuid \<times> string \<times> pyfloat))" where
  "create_checkout_session payhere_hash tenant donor d s =
     (let order = next_uuid s in
      if co_category_id d \<notin> cat_id ` set (categories s) \<or> \<not> int4 (co_quantity d) then
        (s, Inl (Raised DatabaseError))
      else
        (s\<lparr>payments := payments s @
             [\<lparr>pd_id = Suc order, pd_tenant_id = tenant, pd_donor_user_id = donor,
               pd_category_id = co_category_id d, pd_amount = co_amount d, pd_currency = ''LKR'',
               pd_order_id = order, pd_status = PAY_PENDING, pd_quantity = co_quantity d\<rparr>],
           next_uuid := Suc (Suc order)\<rparr>,
         Inr (order, payhere_hash order (co_amount d), co_amount d)))"

end
