(* ===== verification/Logistics_Api.thy ===== *)
theory Logistics_Api
  imports Logistics
begin

text \<open>
  The edges of the logistics service: the consumer of IAM events that keeps the user replicas
  (\<open>events/consumers/iam.py\<close>) and the HTTP routes with their role guards and the status code of every
  exception (\<open>api/routes_inventory.py\<close>, \<open>routes_requests.py\<close>, \<open>routes_volunteers.py\<close>,
  \<open>routes_payments.py\<close>); \<open>lg_step\<close> is the service as a transition system over its database.
\<close>

section \<open>The IAM consumer\<close>

type_synonym replica_fields = "string \<times> string option \<times> string list \<times> bool"

text \<open>\<open>data["full_name"]\<close>, \<open>data.get("phone")\<close>, \<open>data.get("roles", [])\<close>, \<open>data.get("is_active", True)\<close>.\<close>

definition replica_fields_of :: "(string \<times> json) list \<Rightarrow> py_error + replica_fields" where
  "replica_fields_of data =
     andthen (andthen (dindex data ''full_name'') col_str) (\<lambda>n.
     andthen (col_str_opt (dget_default data ''phone'' JNull)) (\<lambda>p.
     andthen (col_strs (dget_default data ''roles'' (JArr []))) (\<lambda>rs.
     andthen (col_bool (dget_default data ''is_active'' (JBool True))) (\<lambda>a. Inr (n, p, rs, a)))))"

definition new_replica :: "uuid \<Rightarrow> uuid option \<Rightarrow> timestamp \<Rightarrow> replica_fields \<Rightarrow> user_replica" where
  "new_replica u tenant src = (\<lambda>(n, p, rs, a).
     \<lparr>ur_user_id = u, ur_tenant_id = tenant, ur_full_name = n, ur_phone = p, ur_roles = rs,
      ur_is_active = a, ur_source_updated_at = src\<rparr>)"

definition set_replica :: "timestamp \<Rightarrow> replica_fields \<Rightarrow> user_replica \<Rightarrow> user_replica" where
  "set_replica src = (\<lambda>(n, p, rs, a) r.
     r\<lparr>ur_full_name := n, ur_phone := p, ur_roles := rs, ur_is_active := a, ur_source_updated_at := src\<rparr>)"

definition upsert_replica ::
  "uuid option \<Rightarrow> (string \<times> json) list \<Rightarrow> logistics_db \<Rightarrow> py_error + logistics_db" where
  "upsert_replica tenant data s =
     andthen (andthen (dindex data ''updated_at'') fromisoformat) (\<lambda>src.
     andthen (andthen (dindex data ''user_id'') uuid_of) (\<lambda>u.
       case row_get ur_user_id u (replicas s) of
         None \<Rightarrow> andthen (replica_fields_of data) (\<lambda>f.
           Inr (s\<lparr>replicas := replicas s @ [new_replica u tenant src f]\<rparr>))
       | Some r \<Rightarrow>
           if ur_source_updated_at r \<le> src then andthen (replica_fields_of data) (\<lambda>f.
             Inr (s\<lparr>replicas := row_upd (\<lambda>x. ur_user_id x = u) (set_replica src f) (replicas s)\<rparr>))
           else Inr s))"

definition deactivate_replica :: "(string \<times> json) list \<Rightarrow> logistics_db \<Rightarrow> py_error + logistics_db" where
  "deactivate_replica data s =
     andthen (andthen (dindex data ''user_id'') uuid_of) (\<lambda>u.
       Inr (s\<lparr>replicas := row_upd (\<lambda>x. ur_user_id x = u) (\<lambda>x. x\<lparr>ur_is_active := False\<rparr>) (replicas s)\<rparr>))"

text \<open>\<open>uuid.UUID(raw_tenant) if raw_tenant else None\<close>.\<close>

definition tenant_of :: "json \<Rightarrow> py_error + uuid option" where
  "tenant_of raw =
     (if truthy raw then (case uuid_of raw of Inl e \<Rightarrow> Inl e | Inr t \<Rightarrow> Inr (Some t)) else Inr None)"

definition handle_user_event :: "json \<Rightarrow> logistics_db \<Rightarrow> py_error + logistics_db" where
  "handle_user_event envelope s =
     (case envelope of
        JObj env \<Rightarrow>
          andthen (andthen (dindex env ''event_id'') uuid_of) (\<lambda>event_id.
          andthen (dindex env ''event_type'') (\<lambda>event_type.
          andthen (tenant_of (dget_default env ''tenant_id'' JNull)) (\<lambda>tenant.
          andthen (dindex env ''data'') (\<lambda>data.
            if event_id \<in> set (lg_processed s) then Inr s
            else andthen
              (if event_type \<in> {JStr ''iam.user.registered'', JStr ''iam.user.updated''} then
                 (case data of JObj d \<Rightarrow> upsert_replica tenant d s | _ \<Rightarrow> Inl TypeError)
               else if event_type = JStr ''iam.user.deactivated'' then
                 (case data of JObj d \<Rightarrow> deactivate_replica d s | _ \<Rightarrow> Inl TypeError)
               else Inr s)
              (\<lambda>s'. Inr (s'\<lparr>lg_processed := event_id # lg_processed s'\<rparr>))))))
      | _ \<Rightarrow> Inl TypeError)"

section \<open>Routes\<close>

text \<open>\<open>Refused\<close> is an HTTPException of a guard or of body validation, \<open>Failed c e\<close> the status code \<open>c\<close>
  that the route gives to the exception \<open>e\<close> of the service function; 500 when it does not catch it.\<close>

datatype route_error = Refused http_error | Failed nat logistics_error

definition guarded ::
  "string list \<Rightarrow> principal \<Rightarrow> (logistics_error \<Rightarrow> nat) \<Rightarrow> logistics_db \<Rightarrow>
   logistics_db \<times> (logistics_error + 'a) \<Rightarrow> logistics_db \<times> (route_error + 'a)" where
  "guarded roles p code s outcome =
     (case (if roles = [] then Inr p else require_any_role roles p) of
        Inl e \<Rightarrow> (s, Inl (Refused e))
      | Inr _ \<Rightarrow> (case outcome of
            (s', Inl e) \<Rightarrow> (s, Inl (Failed (code e) e))
          | (s', Inr v) \<Rightarrow> (s', Inr v)))"

definition uncaught :: "logistics_error \<Rightarrow> nat" where
  "uncaught e = 500"

fun not_found :: "logistics_error \<Rightarrow> nat" where
  "not_found CategoryNotFound = 404"
| "not_found _ = 500"

fun value_error :: "nat \<Rightarrow> logistics_error \<Rightarrow> nat" where
  "value_error code ItemNotFound = code"
| "value_error code (InsufficientStock a q) = code"
| "value_error code RequestNotFound = code"
| "value_error code (StatusNotAllowed o' n al) = code"
| "value_error code NotApproved = code"
| "value_error code VolunteerDeactivated = code"
| "value_error code NotAVolunteer = code"
| "value_error code TaskNotFound = code"
| "value_error code (Raised ValueError) = code"
| "value_error code _ = 500"

fun submit_error :: "logistics_error \<Rightarrow> nat" where
  "submit_error CategoryNotFound = 404"
| "submit_error (CategoryInactive n) = 409"
| "submit_error (FormInvalid es) = 422"
| "submit_error _ = 500"

definition invalid_body :: route_error where
  "invalid_body = Refused (HTTPException 422 ''validation error'')"

definition route_create_category ::
  "timestamp \<Rightarrow> principal \<Rightarrow> category_create \<Rightarrow> logistics_db \<Rightarrow> logistics_db \<times> (route_error + resource_category)" where
  "route_create_category now p raw s =
     (case require_any_role [''tenant_admin''] p of
        Inl e \<Rightarrow> (s, Inl (Refused e))
      | Inr _ \<Rightarrow>
          (case category_create_valid raw of
             Inl _ \<Rightarrow> (s, Inl invalid_body)
           | Inr d \<Rightarrow> guarded [] p uncaught s (create_category now (p_tenant_id p) d s)))"

definition route_list_categories :: "principal \<Rightarrow> bool \<Rightarrow> logistics_db \<Rightarrow> resource_category list" where
  "route_list_categories p include_inactive s = list_categories (p_tenant_id p) include_inactive s"

definition route_get_category :: "principal \<Rightarrow> uuid \<Rightarrow> logistics_db \<Rightarrow> route_error + resource_category" where
  "route_get_category p cid s =
     (case get_category (p_tenant_id p) cid s of Inl e \<Rightarrow> Inl (Failed (not_found e) e) | Inr c \<Rightarrow> Inr c)"

definition route_update_category ::
  "timestamp \<Rightarrow> principal \<Rightarrow> uuid \<Rightarrow> category_update \<Rightarrow> logistics_db \<Rightarrow>
   logistics_db \<times> (route_error + resource_category)" where
  "route_update_category now p cid raw s =
     (case require_any_role [''tenant_admin''] p of
        Inl e \<Rightarrow> (s, Inl (Refused e))
      | Inr _ \<Rightarrow>
          (case category_update_valid raw of
             Inl _ \<Rightarrow> (s, Inl invalid_body)
           | Inr d \<Rightarrow> guarded [] p not_found s (update_category now (p_tenant_id p) cid d s)))"

definition route_deactivate_category ::
  "timestamp \<Rightarrow> principal \<Rightarrow> uuid \<Rightarrow> logistics_db \<Rightarrow> logistics_db \<times> (route_error + resource_category)" where
  "route_deactivate_category now p cid s =
     guarded [''tenant_admin''] p not_found s (deactivate_category now (p_tenant_id p) cid s)"

definition route_add_item ::
  "timestamp \<Rightarrow> principal \<Rightarrow> item_create \<Rightarrow> logistics_db \<Rightarrow> logistics_db \<times> (route_error + inventory_item)" where
  "route_add_item now p d s =
     (case require_any_role [''tenant_admin'', ''coordinator''] p of
        Inl e \<Rightarrow> (s, Inl (Refused e))
      | Inr _ \<Rightarrow>
          if ic_quantity_total d < 0 then (s, Inl invalid_body)
          else guarded [] p uncaught s
                 (add_inventory_item now (p_tenant_id p) d s))"

definition route_list_items :: "principal \<Rightarrow> logistics_db \<Rightarrow> http_error + inventory_item list" where
  "route_list_items p s =
     andthen (require_any_role [''tenant_admin'', ''coordinator''] p) (\<lambda>p. Inr (list_inventory (p_tenant_id p) s))"

definition route_reserve ::
  "timestamp \<Rightarrow> principal \<Rightarrow> uuid \<Rightarrow> int \<Rightarrow> logistics_db \<Rightarrow> logistics_db \<times> (route_error + inventory_item)" where
  "route_reserve now p iid quantity s =
     guarded [''tenant_admin'', ''coordinator''] p (value_error 422) s
       (reserve_stock now (p_tenant_id p) iid quantity s)"

definition route_donation_needs :: "principal \<Rightarrow> logistics_db \<Rightarrow> http_error + donation_need list" where
  "route_donation_needs p s = andthen (require_any_role [''volunteer''] p) (\<lambda>_. Inr (get_donation_needs s))"

definition route_submit_request ::
  "(json \<Rightarrow> json option) \<Rightarrow> timestamp \<Rightarrow> principal \<Rightarrow> request_create \<Rightarrow> logistics_db \<Rightarrow>
   logistics_db \<times> (route_error + help_request)" where
  "route_submit_request iso_date now p d s =
     (if qc_quantity_needed d < 1 then (s, Inl invalid_body)
      else guarded [] p submit_error s (create_request iso_date now p d s))"

definition route_list_requests ::
  "principal \<Rightarrow> request_status option \<Rightarrow> nat \<Rightarrow> nat \<Rightarrow> logistics_db \<Rightarrow> http_error + help_request list" where
  "route_list_requests p status limit offset s =
     andthen (require_any_role [''tenant_admin'', ''coordinator''] p)
       (\<lambda>p. Inr (list_requests (p_tenant_id p) status limit offset s))"

definition route_update_status ::
  "timestamp \<Rightarrow> principal \<Rightarrow> uuid \<Rightarrow> request_status \<Rightarrow> logistics_db \<Rightarrow>
   logistics_db \<times> (route_error + help_request)" where
  "route_update_status now p rid new_status s =
     (case require_any_role [''tenant_admin'', ''coordinator''] p of
        Inl e \<Rightarrow> (s, Inl (Refused e))
      | Inr _ \<Rightarrow>
          (case get_request (p_tenant_id p) rid s of
             None \<Rightarrow> (s, Inl (Refused (HTTPException 404 ''Request not found'')))
           | Some request \<Rightarrow>
               guarded [] p (value_error 422) s
                 (change_status now request new_status p s)))"

definition route_dispatch_task ::
  "timestamp \<Rightarrow> principal \<Rightarrow> task_create \<Rightarrow> logistics_db \<Rightarrow> logistics_db \<times> (route_error + dispatch_task)" where
  "route_dispatch_task now p d s =
     guarded [''tenant_admin'', ''coordinator''] p (value_error 422) s (assign_task now p d s)"

definition route_update_task ::
  "timestamp \<Rightarrow> principal \<Rightarrow> uuid \<Rightarrow> task_status \<Rightarrow> logistics_db \<Rightarrow> logistics_db \<times> (route_error + dispatch_task)" where
  "route_update_task now p tid new_status s =
     guarded [] p (value_error 404) s (update_task_status now (p_tenant_id p) tid new_status s)"

definition route_create_checkout ::
  "(uuid \<Rightarrow> pyfloat \<Rightarrow> string) \<Rightarrow> principal \<Rightarrow> checkout_request \<Rightarrow> logistics_db \<Rightarrow>
   logistics_db \<times> (route_error + (uuid \<times> string \<times> pyfloat))" where
  "route_create_checkout payhere_hash p d s =
     guarded [''volunteer''] p uncaught s (create_checkout_session payhere_hash (co_tenant_id d) (p_user_id p) d s)"

section \<open>The transition system\<close>

text \<open>One call is one request of a principal, one step one committed transaction: a call, a consumed
  event, a call of \<open>release_stock\<close> (which no route exposes) for a non-negative quantity, or a drain of
  the outbox.\<close>

inductive lg_call :: "(json \<Rightarrow> json option) \<Rightarrow> principal \<Rightarrow> logistics_db \<Rightarrow> logistics_db \<Rightarrow> bool" for iso_date p where
  call_create_category: "route_create_category now p raw s = (s', res) \<Longrightarrow> lg_call iso_date p s s'"
| call_update_category: "route_update_category now p cid upd s = (s', res) \<Longrightarrow> lg_call iso_date p s s'"
| call_deactivate_category: "route_deactivate_category now p cid s = (s', res) \<Longrightarrow> lg_call iso_date p s s'"
| call_add_item: "route_add_item now p ic s = (s', ires) \<Longrightarrow> lg_call iso_date p s s'"
| call_reserve: "route_reserve now p iid q s = (s', ires) \<Longrightarrow> lg_call iso_date p s s'"
| call_submit: "route_submit_request iso_date now p d s = (s', rres) \<Longrightarrow> lg_call iso_date p s s'"
| call_status: "route_update_status now p rid st s = (s', rres) \<Longrightarrow> lg_call iso_date p s s'"
| call_dispatch: "route_dispatch_task now p tc s = (s', tres) \<Longrightarrow> lg_call iso_date p s s'"
| call_task: "route_update_task now p tid tst s = (s', tres) \<Longrightarrow> lg_call iso_date p s s'"
| call_alert: "route_create_alert now p ac s = (s', ares) \<Longrightarrow> lg_call iso_date p s s'"
| call_checkout: "route_create_checkout payhere_hash p co s = (s', cres) \<Longrightarrow> lg_call iso_date p s s'"

inductive lg_step :: "(json \<Rightarrow> json option) \<Rightarrow> logistics_db \<Rightarrow> logistics_db \<Rightarrow> bool" for iso_date where
  lg_request: "lg_call iso_date p s s' \<Longrightarrow> lg_step iso_date s s'"
| lg_release: "0 \<le> q \<Longrightarrow> release_stock now tenant iid q s = (s', res) \<Longrightarrow> lg_step iso_date s s'"
| lg_user_event: "handle_user_event m s = Inr s' \<Longrightarrow> lg_step iso_date s s'"
| lg_relay: "drain_once locked broker now (outbox s) = (ob, sent, n) \<Longrightarrow> lg_step iso_date s (s\<lparr>outbox := ob\<rparr>)"

end
