(* ===== verification/Logistics_Replica.thy ===== *)
theory Logistics_Replica
  imports Logistics_Api
begin

text \<open>
  The consumer of IAM events of the logistics service is an idempotent consumer, and the row of a user
  a last-writer-wins register: the two interpretations, and the lemma that ties deliveries to the
  register.
\<close>

section \<open>The user replica\<close>

lemma handle_user_event_cases:
  assumes "handle_user_event m s = Inr s'"
  obtains (seen) e where "envelope_id m = Some e" "e \<in> set (lg_processed s)" "s' = s"
  | (applied) e s1 where "envelope_id m = Some e" "e \<notin> set (lg_processed s)"
      "s' = s1\<lparr>lg_processed := e # lg_processed s1\<rparr>" "lg_processed s1 = lg_processed s"
      "s1 = s \<or> (\<exists>t d. upsert_replica t d s = Inr s1) \<or> (\<exists>d. deactivate_replica d s = Inr s1)"
proof (cases m)
  case (JObj env)
  from assms JObj obtain v e where e: "dindex env ''event_id'' = Inr v" "uuid_of v = Inr e"
    by (auto simp: handle_user_event_def andthen_Inr)
  then have id: "envelope_id m = Some e"
    by (auto simp: JObj envelope_id_def dget_def dindex_def split: option.splits)
  have frame: "lg_processed s1 = lg_processed s"
    if "s1 = s \<or> (\<exists>t d. upsert_replica t d s = Inr s1) \<or> (\<exists>d. deactivate_replica d s = Inr s1)" for s1
    using that by (auto simp: upsert_replica_def deactivate_replica_def andthen_Inr split: option.splits if_splits)
  show ?thesis
  proof (cases "e \<in> set (lg_processed s)")
    case True
    then show ?thesis using assms JObj e seen [OF id True] by (auto simp: handle_user_event_def andthen_Inr)
  next
    case False
    obtain ty tenant data where parts: "dindex env ''event_type'' = Inr ty"
      "tenant_of (dget_default env ''tenant_id'' JNull) = Inr tenant" "dindex env ''data'' = Inr data"
      using assms unfolding JObj handle_user_event_def json.case andthen_Inr by blast
    let ?body = "if ty \<in> {JStr ''iam.user.registered'', JStr ''iam.user.updated''} then
        (case data of JObj d \<Rightarrow> upsert_replica tenant d s | _ \<Rightarrow> Inl TypeError)
      else if ty = JStr ''iam.user.deactivated'' then
        (case data of JObj d \<Rightarrow> deactivate_replica d s | _ \<Rightarrow> Inl TypeError)
      else Inr s"
    have "andthen ?body (\<lambda>s'. Inr (s'\<lparr>lg_processed := e # lg_processed s'\<rparr>)) = Inr s'"
      using assms unfolding JObj handle_user_event_def json.case e parts andthen_simps using False by simp
    then obtain s1 where s1: "s' = s1\<lparr>lg_processed := e # lg_processed s1\<rparr>" "?body = Inr s1"
      unfolding andthen_Inr by blast
    then have "s1 = s \<or> (\<exists>t d. upsert_replica t d s = Inr s1) \<or> (\<exists>d. deactivate_replica d s = Inr s1)"
      by (auto split: json.splits if_splits)
    then show ?thesis using applied [OF id False s1(1)] frame by blast
  qed
qed (use assms in \<open>auto simp: handle_user_event_def\<close>)

interpretation lg_iam: idempotent_consumer handle_user_event "\<lambda>s. set (lg_processed s)" envelope_id
  by unfold_locales (auto elim!: handle_user_event_cases)

text \<open>A registration or update as one row sees it: the user, the tenant of the envelope, the source time
  and the replicated fields.\<close>

type_synonym replica_event = "uuid \<times> uuid option \<times> timestamp \<times> replica_fields"

definition replica_upd :: "replica_event \<Rightarrow> user_replica option \<Rightarrow> user_replica option" where
  "replica_upd = (\<lambda>(u, tenant, src, f) row.
     case row of
       None \<Rightarrow> Some (new_replica u tenant src f)
     | Some r \<Rightarrow> Some (if ur_source_updated_at r \<le> src then set_replica src f r else r))"

definition event_time :: "replica_event \<Rightarrow> timestamp" where
  "event_time = (\<lambda>(u, tenant, src, f). src)"

definition event_fields :: "replica_event \<Rightarrow> replica_fields" where
  "event_fields = (\<lambda>(u, tenant, src, f). f)"

definition replica_view :: "user_replica \<Rightarrow> replica_fields" where
  "replica_view r = (ur_full_name r, ur_phone r, ur_roles r, ur_is_active r)"

interpretation replica_lww: lww_register replica_upd event_time "\<lambda>r. Some (ur_source_updated_at r)" replica_view event_fields
  by unfold_locales
    (auto simp: replica_upd_def event_time_def event_fields_def replica_view_def new_replica_def set_replica_def)

text \<open>A well-formed \<open>iam.user.registered\<close> or \<open>iam.user.updated\<close> envelope.\<close>

definition user_update :: "json \<Rightarrow> replica_event option" where
  "user_update m =
     (case m of
        JObj env \<Rightarrow>
          (case (dindex env ''event_type'', tenant_of (dget_default env ''tenant_id'' JNull), dindex env ''data'') of
             (Inr ty, Inr tenant, Inr (JObj d)) \<Rightarrow>
               if ty \<in> {JStr ''iam.user.registered'', JStr ''iam.user.updated''} \<and> envelope_id m \<noteq> None then
                 (case (andthen (dindex d ''user_id'') uuid_of, andthen (dindex d ''updated_at'') fromisoformat,
                        replica_fields_of d) of
                    (Inr u, Inr src, Inr f) \<Rightarrow> Some (u, tenant, src, f)
                  | _ \<Rightarrow> None)
               else None
           | _ \<Rightarrow> None)
      | _ \<Rightarrow> None)"

lemma user_update_Some:
  assumes "user_update m = Some (u, tenant, src, f)"
  obtains env ty d e where "m = JObj env" "andthen (dindex env ''event_id'') uuid_of = Inr e"
    "envelope_id m = Some e"
    "dindex env ''event_type'' = Inr ty" "tenant_of (dget_default env ''tenant_id'' JNull) = Inr tenant"
    "dindex env ''data'' = Inr (JObj d)" "ty \<in> {JStr ''iam.user.registered'', JStr ''iam.user.updated''}"
    "andthen (dindex d ''user_id'') uuid_of = Inr u"
    "andthen (dindex d ''updated_at'') fromisoformat = Inr src" "replica_fields_of d = Inr f"
proof -
  obtain env where env: "m = JObj env" using assms by (auto simp: user_update_def split: json.splits)
  have "envelope_id m \<noteq> None"
    using assms unfolding env user_update_def by (auto split: sum.splits json.splits if_splits)
  then obtain e where e: "envelope_id m = Some e" "andthen (dindex env ''event_id'') uuid_of = Inr e"
    unfolding env by (auto simp: envelope_id_def dindex_def dget_def split: option.splits sum.splits)
  with assms env that show ?thesis by (auto simp: user_update_def split: sum.splits json.splits if_splits)
qed

lemma handle_user_update:
  assumes "user_update m = Some (u, tenant, src, f)" "envelope_id m = Some e" "e \<notin> set (lg_processed s)"
  shows "\<exists>s'. handle_user_event m s = Inr s' \<and> lg_processed s' = e # lg_processed s \<and>
    row_get ur_user_id u (replicas s') = replica_upd (u, tenant, src, f) (row_get ur_user_id u (replicas s))"
proof -
  obtain env ty d where m: "m = JObj env" "andthen (dindex env ''event_id'') uuid_of = Inr e"
    "dindex env ''event_type'' = Inr ty" "tenant_of (dget_default env ''tenant_id'' JNull) = Inr tenant"
    "dindex env ''data'' = Inr (JObj d)" "ty \<in> {JStr ''iam.user.registered'', JStr ''iam.user.updated''}"
    "andthen (dindex d ''user_id'') uuid_of = Inr u"
    "andthen (dindex d ''updated_at'') fromisoformat = Inr src" "replica_fields_of d = Inr f"
    using user_update_Some [OF assms(1)] assms(2) by (metis option.inject)
  have h: "handle_user_event m s =
      andthen (upsert_replica tenant d s) (\<lambda>s'. Inr (s'\<lparr>lg_processed := e # lg_processed s'\<rparr>))"
    unfolding m(1) handle_user_event_def json.case m(2-5) andthen_simps using assms(3) m(6) by simp
  have id: "ur_user_id (new_replica u tenant src f) = u" "ur_user_id (set_replica src f r) = ur_user_id r" for r
    by (cases f, simp add: new_replica_def set_replica_def)+
  show ?thesis
  proof (cases "row_get ur_user_id u (replicas s)")
    case None
    then show ?thesis
      unfolding h upsert_replica_def using m(7-9) id
      by (auto simp: replica_upd_def row_get_append)
  next
    case (Some r)
    then show ?thesis
      unfolding h upsert_replica_def using m(7-9) row_get_Some [OF Some] id(2)
      by (cases "ur_source_updated_at r \<le> src") (auto simp: replica_upd_def row_get_row_upd)
  qed
qed

text \<open>Deliveries of updates of one user are the register's updates, in order.\<close>

lemma deliver_user_updates:
  assumes "\<forall>m \<in> set ms. \<exists>x. user_update m = Some (u, x)" "distinct (map envelope_id ms)"
    and "\<forall>m \<in> set ms. envelope_id m \<notin> Some ` set (lg_processed s)"
  shows "row_get ur_user_id u (replicas (deliver_all handle_user_event ms s)) =
    fold replica_upd (map (\<lambda>m. the (user_update m)) ms) (row_get ur_user_id u (replicas s))"
  using assms
proof (induction ms arbitrary: s)
  case Nil
  then show ?case by (simp add: deliver_all_def)
next
  case (Cons m ms)
  obtain tenant src f where x: "user_update m = Some (u, tenant, src, f)"
    using Cons.prems(1) by (metis list.set_intros(1) prod_cases3)
  then obtain e where e: "envelope_id m = Some e" by (rule user_update_Some)
  then have "e \<notin> set (lg_processed s)" using Cons.prems(3) by auto
  from handle_user_update [OF x e this] obtain s' where s': "handle_user_event m s = Inr s'"
    "lg_processed s' = e # lg_processed s"
    "row_get ur_user_id u (replicas s') = replica_upd (u, tenant, src, f) (row_get ur_user_id u (replicas s))"
    by blast
  have "\<forall>y \<in> set ms. envelope_id y \<notin> Some ` set (lg_processed s')"
    using Cons.prems(2,3) s'(2) e by (auto simp: image_iff)
  then show ?case
    using Cons.IH [of s'] Cons.prems(1,2) s' x by (simp add: deliver_all_def deliver_def)
qed

end
