(* ===== verification/Table_Step.thy ===== *)
theory Table_Step
  imports RCP_Prelude
begin

text \<open>
  How one transaction changes one table: not at all, by one row inserted under a fresh key, or by one
  row rewritten under its key. The services state the effect of each operation in this form, and
  invariants, tenant isolation and the history of a row follow from the lemmas here.
\<close>

definition table_step ::
  "('r \<Rightarrow> uuid) \<Rightarrow> ('r \<Rightarrow> bool) \<Rightarrow> ('r \<Rightarrow> 'r \<Rightarrow> bool) \<Rightarrow> nat \<Rightarrow> nat \<Rightarrow> 'r list \<Rightarrow> 'r list \<Rightarrow> bool" where
  "table_step key new upd n n' rows rows' \<longleftrightarrow>
     rows' = rows \<or>
     (\<exists>r. rows' = rows @ [r] \<and> new r \<and> n \<le> key r \<and> key r < n') \<or>
     (\<exists>old r. old \<in> set rows \<and> key r = key old \<and> upd old r \<and>
        rows' = row_upd (\<lambda>x. key x = key r) (\<lambda>_. r) rows)"

text \<open>Primary keys: distinct, and drawn before \<open>n\<close>.\<close>

definition keyed :: "('r \<Rightarrow> uuid) \<Rightarrow> nat \<Rightarrow> 'r list \<Rightarrow> bool" where
  "keyed key n rows \<longleftrightarrow> distinct (map key rows) \<and> (\<forall>r \<in> set rows. key r < n)"

lemma keyed_Nil [simp]: "keyed key n []"
  by (simp add: keyed_def)

lemma keyed_mono: "keyed key n rows \<Longrightarrow> n \<le> n' \<Longrightarrow> keyed key n' rows"
  by (auto simp: keyed_def)

lemma keyed_row_get: "keyed key n rows \<Longrightarrow> r \<in> set rows \<Longrightarrow> row_get key (key r) rows = Some r"
  by (rule row_get_member) (simp_all add: keyed_def)

lemma keyed_unique: "keyed key n rows \<Longrightarrow> r \<in> set rows \<Longrightarrow> r' \<in> set rows \<Longrightarrow> key r = key r' \<Longrightarrow> r = r'"
  by (auto simp: keyed_def distinct_map inj_on_def)

lemma map_key_put: "map key (row_upd (\<lambda>x. key x = key r) (\<lambda>_. r) rows) = map key rows"
  by (induction rows) auto

lemma row_get_put:
  "row_get key k (row_upd (\<lambda>x. key x = key r) (\<lambda>_. r) rows) =
     (if key r = k \<and> row_get key k rows \<noteq> None then Some r else row_get key k rows)"
  by (induction rows) auto

text \<open>A row rewritten with the same projection leaves that column as it was.\<close>

lemma map_proj_put:
  assumes "keyed key n rows" "old \<in> set rows" "key r = key old" "proj r = proj old"
  shows "map proj (row_upd (\<lambda>x. key x = key r) (\<lambda>_. r) rows) = map proj rows"
proof -
  have "proj r = proj x" if "x \<in> set rows" "key x = key r" for x
    using keyed_unique [OF assms(1) that(1) assms(2)] that(2) assms(3,4) by simp
  then show ?thesis by (auto simp: row_upd_def)
qed

lemma keyed_put:
  "keyed key n rows \<Longrightarrow> old \<in> set rows \<Longrightarrow> key r = key old \<Longrightarrow>
   keyed key n (row_upd (\<lambda>x. key x = key r) (\<lambda>_. r) rows)"
  unfolding keyed_def map_key_put by (auto simp: set_row_upd)

lemma table_step_refl [simp, intro]: "table_step key new upd n n' rows rows"
  by (simp add: table_step_def)

lemma table_step_insert [intro]:
  "new r \<Longrightarrow> n \<le> key r \<Longrightarrow> key r < n' \<Longrightarrow> table_step key new upd n n' rows (rows @ [r])"
  by (auto simp: table_step_def)

lemma table_step_update [intro]:
  "old \<in> set rows \<Longrightarrow> key r = key old \<Longrightarrow> upd old r \<Longrightarrow>
   table_step key new upd n n' rows (row_upd (\<lambda>x. key x = key r) (\<lambda>_. r) rows)"
  unfolding table_step_def by blast

lemma table_step_put:
  "old \<in> set rows \<Longrightarrow> key r = key old \<Longrightarrow> upd old r \<Longrightarrow> k = key old \<Longrightarrow>
   table_step key new upd n n' rows (row_upd (\<lambda>x. key x = k) (\<lambda>_. r) rows)"
  by (metis table_step_update)

lemma table_step_cases:
  assumes "table_step key new upd n n' rows rows'"
  obtains (same) "rows' = rows"
  | (inserted) r where "rows' = rows @ [r]" "new r" "n \<le> key r" "key r < n'"
  | (updated) old r where "old \<in> set rows" "key r = key old" "upd old r"
      "rows' = row_upd (\<lambda>x. key x = key r) (\<lambda>_. r) rows"
  using assms unfolding table_step_def by blast

lemma table_step_mono:
  assumes "table_step key new upd n n' rows rows'"
    and "\<And>r. new r \<Longrightarrow> new' r" "\<And>o' r. o' \<in> set rows \<Longrightarrow> upd o' r \<Longrightarrow> upd' o' r"
  shows "table_step key new' upd' n n' rows rows'"
  using assms unfolding table_step_def by blast

lemma table_step_widen:
  "table_step key new upd n n' rows rows' \<Longrightarrow> n' \<le> n'' \<Longrightarrow> table_step key new upd n n'' rows rows'"
  by (erule table_step_cases) (simp, fastforce, blast)

lemma table_step_Suc: "table_step key new upd n n' rows rows' \<Longrightarrow> table_step key new upd n (Suc n') rows rows'"
  by (erule table_step_widen) simp

lemma table_step_keyed:
  assumes "table_step key new upd n n' rows rows'" "keyed key n rows" "n \<le> n'"
  shows "keyed key n' rows'"
  using assms(1)
proof (cases rule: table_step_cases)
  case same
  then show ?thesis using assms by (auto intro: keyed_mono)
next
  case (inserted r)
  then show ?thesis using assms(2,3) by (force simp: keyed_def)
next
  case (updated old r)
  then show ?thesis
    using assms(2,3) map_key_put [of key r rows] by (auto simp: keyed_def set_row_upd)
qed

lemma table_step_keys:
  assumes "table_step key new upd n n' rows rows'"
  shows "key ` set rows \<subseteq> key ` set rows'"
  using assms
proof (cases rule: table_step_cases)
  case (updated old r)
  then show ?thesis by (metis map_key_put image_set order_refl)
qed auto

text \<open>A row property that every insert establishes and every update keeps.\<close>

lemma table_step_ball:
  assumes "table_step key new upd n n' rows rows'" "\<And>r. r \<in> set rows \<Longrightarrow> P r"
    and "\<And>r. new r \<Longrightarrow> P r" "\<And>o' r. o' \<in> set rows \<Longrightarrow> upd o' r \<Longrightarrow> P o' \<Longrightarrow> P r" "r \<in> set rows'"
  shows "P r"
  using assms(1)
  by (cases rule: table_step_cases) (use assms(2-5) in \<open>auto simp: set_row_upd split: if_splits\<close>)

text \<open>The rows outside the scope of the writer are untouched.\<close>

lemma table_step_outside:
  assumes "table_step key new upd n n' rows rows'" "keyed key n rows"
    and "\<And>r. new r \<Longrightarrow> \<not> Q r" "\<And>o' r. o' \<in> set rows \<Longrightarrow> upd o' r \<Longrightarrow> \<not> Q o' \<and> \<not> Q r"
  shows "filter Q rows' = filter Q rows"
  using assms(1)
proof (cases rule: table_step_cases)
  case (updated old r)
  have "\<not> Q x" if "x \<in> set rows" "key x = key r" for x
    using keyed_unique [OF assms(2) that(1) updated(1)] that(2) updated assms(4) by auto
  then have "filter Q (map (\<lambda>x. if key x = key r then r else x) xs) = filter Q xs" if "set xs \<subseteq> set rows" for xs
    using that assms(4) [OF updated(1,3)] by (induction xs) auto
  then show ?thesis by (simp add: updated(4) row_upd_def)
qed (use assms(3) in auto)

text \<open>The history of one row.\<close>

lemma table_step_row:
  assumes "table_step key new upd n n' rows rows'" "keyed key n rows" "row_get key k rows = Some r"
  shows "\<exists>r'. row_get key k rows' = Some r' \<and> (r' = r \<or> upd r r')"
  using assms(1)
proof (cases rule: table_step_cases)
  case same
  then show ?thesis using assms(3) by simp
next
  case (inserted x)
  then show ?thesis using assms(3) by (simp add: row_get_append)
next
  case (updated old x)
  have r: "r \<in> set rows" "key r = k" using row_get_Some [OF assms(3)] by auto
  have "r = old" if "key x = k"
    using keyed_unique [OF assms(2) r(1) updated(1)] updated(2) r(2) that by simp
  then show ?thesis using assms(3) updated(3) by (auto simp: updated(4) row_get_put)
qed

end
