(* ===== verification/Logistics_Inv.thy ===== *)
theory Logistics_Inv
  imports Logistics_Replica Table_Step
begin

text \<open>
  The invariant of the logistics database and the effect of every operation on its tables: each call
  writes at most one row per table, all of the caller's tenant (\<open>lg_writes\<close>). Invariance, tenant
  isolation and the finality of closed requests are consequences of that one statement.
\<close>

section \<open>The invariant\<close>

definition cat_ok :: "resource_category \<Rightarrow> bool" where
  "cat_ok c \<longleftrightarrow> (\<exists>w. validate_workflow w = Inr (cat_workflow c)) \<and> pred_option wf_specs (cat_form_schema c)"

definition item_ok :: "inventory_item \<Rightarrow> bool" where
  "item_ok i \<longleftrightarrow> it_quantity_reserved i \<le> it_quantity_total i \<and> 0 \<le> it_quantity_total i \<and> int4 (it_quantity_total i)"

definition lg_inv :: "logistics_db \<Rightarrow> bool" where
  "lg_inv s \<longleftrightarrow>
     keyed cat_id (next_uuid s) (categories s) \<and> keyed it_id (next_uuid s) (items s) \<and>
     keyed hr_id (next_uuid s) (help_requests s) \<and> keyed tk_id (next_uuid s) (tasks s) \<and>
     keyed al_id (next_uuid s) (alerts s) \<and>
     (\<forall>c \<in> set (categories s). cat_ok c) \<and>
     (\<forall>i \<in> set (items s). item_ok i \<and> it_category_id i \<in> cat_id ` set (categories s)) \<and>
     (\<forall>r \<in> set (help_requests s).
        (hr_category_id r, hr_tenant_id r) \<in> (\<lambda>c. (cat_id c, cat_tenant_id c)) ` set (categories s)) \<and>
     (\<forall>t \<in> set (tasks s). (tk_request_id t, tk_tenant_id t) \<in> (\<lambda>r. (hr_id r, hr_tenant_id r)) ` set (help_requests s))"

section \<open>The effect of an operation\<close>

definition lg_writes :: "uuid option \<Rightarrow> logistics_db \<Rightarrow> logistics_db \<Rightarrow> bool" where
  "lg_writes tenant s s' \<longleftrightarrow>
     next_uuid s \<le> next_uuid s' \<and>
     table_step cat_id (\<lambda>c. Some (cat_tenant_id c) = tenant \<and> cat_ok c)
       (\<lambda>old c. Some (cat_tenant_id old) = tenant \<and> cat_tenant_id c = cat_tenant_id old \<and> cat_ok c)
       (next_uuid s) (next_uuid s') (categories s) (categories s') \<and>
     table_step it_id
       (\<lambda>i. Some (it_tenant_id i) = tenant \<and> item_ok i \<and> it_category_id i \<in> cat_id ` set (categories s))
       (\<lambda>old i. Some (it_tenant_id old) = tenant \<and> it_tenant_id i = it_tenant_id old \<and> item_ok i \<and>
          it_category_id i = it_category_id old \<and> it_quantity_total i = it_quantity_total old)
       (next_uuid s) (next_uuid s') (items s) (items s') \<and>
     table_step hr_id
       (\<lambda>r. Some (hr_tenant_id r) = tenant \<and>
          (hr_category_id r, hr_tenant_id r) \<in> (\<lambda>c. (cat_id c, cat_tenant_id c)) ` set (categories s))
       (\<lambda>old r. Some (hr_tenant_id old) = tenant \<and> hr_tenant_id r = hr_tenant_id old \<and>
          hr_category_id r = hr_category_id old \<and> hr_extra_fields r = hr_extra_fields old \<and>
          hr_status old \<notin> set TERMINAL_STATES)
       (next_uuid s) (next_uuid s') (help_requests s) (help_requests s') \<and>
     table_step tk_id
       (\<lambda>t. Some (tk_tenant_id t) = tenant \<and>
          (tk_request_id t, tk_tenant_id t) \<in> (\<lambda>r. (hr_id r, hr_tenant_id r)) ` set (help_requests s))
       (\<lambda>old t. Some (tk_tenant_id old) = tenant \<and> tk_tenant_id t = tk_tenant_id old \<and>
          tk_request_id t = tk_request_id old \<and> tk_volunteer_user_id t = tk_volunteer_user_id old)
       (next_uuid s) (next_uuid s') (tasks s) (tasks s') \<and>
     table_step al_id (\<lambda>a. Some (al_tenant_id a) = tenant) (\<lambda>_ _. False)
       (next_uuid s) (next_uuid s') (alerts s) (alerts s')"

lemma lg_writes_refl [simp, intro]: "lg_writes tenant s s"
  by (simp add: lg_writes_def)

lemma lg_emit_frame [simp]:
  "categories (lg_emit now k t d s) = categories s" "items (lg_emit now k t d s) = items s"
  "help_requests (lg_emit now k t d s) = help_requests s" "tasks (lg_emit now k t d s) = tasks s"
  "alerts (lg_emit now k t d s) = alerts s" "replicas (lg_emit now k t d s) = replicas s"
  "payments (lg_emit now k t d s) = payments s" "lg_processed (lg_emit now k t d s) = lg_processed s"
  "next_uuid (lg_emit now k t d s) = Suc (next_uuid s)"
  by (simp_all add: lg_emit_def emit_def build_envelope_def)

text \<open>Writes are blind to events, replicas and payments.\<close>

lemma lg_writes_emit [simp]: "lg_writes tenant s s' \<Longrightarrow> lg_writes tenant s (lg_emit now k t d s')"
  by (simp add: lg_writes_def table_step_Suc)

lemma persists:
  assumes "table_step key new upd n n' rows rows'" "keyed key n rows"
    and "\<And>o' r. upd o' r \<Longrightarrow> proj r = proj o'"
  shows "(\<lambda>r. (key r, proj r)) ` set rows \<subseteq> (\<lambda>r. (key r, proj r)) ` set rows'"
proof clarify
  fix r assume r: "r \<in> set rows"
  obtain r' where r': "row_get key (key r) rows' = Some r'" "r' = r \<or> upd r r'"
    using table_step_row [OF assms(1,2) keyed_row_get [OF assms(2) r]] by blast
  then have "r' \<in> set rows'" "key r' = key r" "proj r' = proj r"
    using row_get_Some [OF r'(1)] assms(3) by auto
  then show "(key r, proj r) \<in> (\<lambda>r. (key r, proj r)) ` set rows'" by (metis (mono_tags, lifting) image_eqI)
qed

lemma lg_writes_inv:
  assumes w: "lg_writes tenant s s'" and inv: "lg_inv s"
  shows "lg_inv s'"
proof -
  note w' = w [unfolded lg_writes_def]
  note le = w' [THEN conjunct1]
  note ts = w' [THEN conjunct2]
  note c = ts [THEN conjunct1]
  note i = ts [THEN conjunct2, THEN conjunct1]
  note r = ts [THEN conjunct2, THEN conjunct2, THEN conjunct1]
  note t = ts [THEN conjunct2, THEN conjunct2, THEN conjunct2, THEN conjunct1]
  note a = ts [THEN conjunct2, THEN conjunct2, THEN conjunct2, THEN conjunct2]
  have k: "keyed cat_id (next_uuid s) (categories s)" "keyed it_id (next_uuid s) (items s)"
    "keyed hr_id (next_uuid s) (help_requests s)" "keyed tk_id (next_uuid s) (tasks s)"
    "keyed al_id (next_uuid s) (alerts s)" using inv by (simp_all add: lg_inv_def)
  have k': "keyed cat_id (next_uuid s') (categories s')" "keyed it_id (next_uuid s') (items s')"
    "keyed hr_id (next_uuid s') (help_requests s')" "keyed tk_id (next_uuid s') (tasks s')"
    "keyed al_id (next_uuid s') (alerts s')"
    using table_step_keyed [OF c k(1) le] table_step_keyed [OF i k(2) le] table_step_keyed [OF r k(3) le]
      table_step_keyed [OF t k(4) le] table_step_keyed [OF a k(5) le] by simp_all
  have cats: "(\<lambda>c. (cat_id c, cat_tenant_id c)) ` set (categories s) \<subseteq>
      (\<lambda>c. (cat_id c, cat_tenant_id c)) ` set (categories s')"
    by (rule persists [OF c k(1)]) simp
  have reqs: "(\<lambda>c. (hr_id c, hr_tenant_id c)) ` set (help_requests s) \<subseteq>
      (\<lambda>c. (hr_id c, hr_tenant_id c)) ` set (help_requests s')"
    by (rule persists [OF r k(3)]) simp
  have "cat_ok x" if "x \<in> set (categories s')" for x
    by (rule table_step_ball [OF c _ _ _ that]) (use inv in \<open>auto simp: lg_inv_def\<close>)
  moreover have "item_ok x \<and> it_category_id x \<in> cat_id ` set (categories s')" if "x \<in> set (items s')" for x
    by (rule table_step_ball [OF i _ _ _ that]) (use inv table_step_keys [OF c] in \<open>auto simp: lg_inv_def\<close>)
  moreover have "(hr_category_id x, hr_tenant_id x) \<in> (\<lambda>c. (cat_id c, cat_tenant_id c)) ` set (categories s')"
    if "x \<in> set (help_requests s')" for x
    by (rule table_step_ball [OF r _ _ _ that])
      (use inv cats [THEN subsetD] in \<open>(simp add: lg_inv_def | blast)+\<close>)
  moreover have "(tk_request_id x, tk_tenant_id x) \<in> (\<lambda>r. (hr_id r, hr_tenant_id r)) ` set (help_requests s')"
    if "x \<in> set (tasks s')" for x
    by (rule table_step_ball [OF t _ _ _ that])
      (use inv reqs [THEN subsetD] in \<open>(simp add: lg_inv_def | blast)+\<close>)
  ultimately show ?thesis using k' by (simp add: lg_inv_def)
qed

section \<open>Every operation writes within its tenant\<close>

lemma lg_find_cat:
  "get_category tenant cid s = Inr c \<longleftrightarrow>
   find (\<lambda>c. cat_id c = cid \<and> Some (cat_tenant_id c) = tenant) (categories s) = Some c"
  by (auto simp: get_category_def split: option.splits)

lemma get_category_Inr:
  "get_category tenant cid s = Inr c \<Longrightarrow>
   c \<in> set (categories s) \<and> cat_id c = cid \<and> Some (cat_tenant_id c) = tenant"
  unfolding lg_find_cat find_Some_iff by auto

lemma get_item_Some:
  "get_item tenant iid s = Some i \<Longrightarrow> i \<in> set (items s) \<and> it_id i = iid \<and> Some (it_tenant_id i) = tenant"
  unfolding get_item_def find_Some_iff by auto

lemma get_request_Some:
  "get_request tenant rid s = Some r \<Longrightarrow>
   r \<in> set (help_requests s) \<and> hr_id r = rid \<and> Some (hr_tenant_id r) = tenant"
  unfolding get_request_def find_Some_iff by auto

lemma writes_category:
  assumes "old \<in> set (categories s)" "Some (cat_tenant_id old) = tenant" "cat_id c = cat_id old"
    "cat_tenant_id c = cat_tenant_id old" "cat_ok c"
  shows "lg_writes tenant s (put_category c s)"
  using assms by (auto simp: lg_writes_def put_category_def intro!: table_step_put [of old])

lemma writes_item:
  assumes "old \<in> set (items s)" "Some (it_tenant_id old) = tenant" "it_id i = it_id old"
    "it_tenant_id i = it_tenant_id old" "item_ok i" "it_category_id i = it_category_id old"
    "it_quantity_total i = it_quantity_total old"
  shows "lg_writes tenant s (put_item i s)"
  using assms by (auto simp: lg_writes_def put_item_def intro!: table_step_put [of old])

lemma writes_request:
  assumes "old \<in> set (help_requests s)" "Some (hr_tenant_id old) = tenant" "hr_id r = hr_id old"
    "hr_tenant_id r = hr_tenant_id old" "hr_category_id r = hr_category_id old"
    "hr_extra_fields r = hr_extra_fields old" "hr_status old \<notin> set TERMINAL_STATES"
  shows "lg_writes tenant s (put_request r s)"
  using assms by (auto simp: lg_writes_def put_request_def intro!: table_step_put [of old])

lemma category_create_valid_ok:
  "category_create_valid raw = Inr (d, fs, flow) \<Longrightarrow>
   (\<exists>w. validate_workflow w = Inr flow) \<and> pred_option wf_specs fs"
  using validate_definition_wf
  by (auto simp: category_create_valid_def split: if_splits sum.splits)

lemma category_update_valid_ok:
  "category_update_valid raw = Inr d \<Longrightarrow>
   (case cp_workflow d of None \<Rightarrow> True | Some flow \<Rightarrow> \<exists>w. validate_workflow w = Inr flow) \<and>
   (case cp_form_schema d of None \<Rightarrow> True | Some fs \<Rightarrow> pred_option wf_specs fs)"
  using validate_definition_wf
  by (auto simp: category_update_valid_def split: if_splits sum.splits option.splits)

lemma apply_patch_keys:
  "apply_patch d c = Some c' \<Longrightarrow>
   cat_id c' = cat_id c \<and> cat_tenant_id c' = cat_tenant_id c \<and>
   cat_workflow c' = keep (cat_workflow c) (cp_workflow d) \<and>
   cat_form_schema c' = keep (cat_form_schema c) (cp_form_schema d)"
  by (auto simp: apply_patch_def split: if_splits)

lemma touch_category_simps [simp]:
  "cat_id (touch_category now c c') = cat_id c'"
  "cat_tenant_id (touch_category now c c') = cat_tenant_id c'"
  "cat_ok (touch_category now c c') = cat_ok c'"
  by (auto simp: touch_category_def cat_ok_def)

lemma create_category_writes:
  assumes "category_create_valid raw = Inr x" "create_category now tenant x s = (s', Inr c)"
  shows "lg_writes tenant s s'"
proof -
  obtain d fs flow where x: "x = (d, fs, flow)" by (cases x)
  show ?thesis
    using assms(2) category_create_valid_ok [OF assms(1) [unfolded x]] unfolding x
    by (auto simp: create_category_def Let_def split: option.splits intro!: lg_writes_emit)
      (auto simp: lg_writes_def cat_ok_def intro!: table_step_insert)
qed

lemma update_category_writes:
  assumes "lg_inv s" "category_update_valid raw = Inr d" "update_category now tenant cid d s = (s', Inr c')"
  shows "lg_writes tenant s s'"
proof -
  obtain c where c: "get_category tenant cid s = Inr c"
    using assms(3) by (auto simp: update_category_def split: sum.splits)
  then obtain c1 where c1: "apply_patch d c = Some c1"
    using assms(3) by (auto simp: update_category_def split: option.splits)
  have m: "c \<in> set (categories s)" "Some (cat_tenant_id c) = tenant" using get_category_Inr [OF c] by auto
  then have "cat_ok c" using assms(1) by (simp add: lg_inv_def)
  then have "cat_ok c1"
    using category_update_valid_ok [OF assms(2)] apply_patch_keys [OF c1]
    by (auto simp: cat_ok_def keep_def split: option.splits)
  then show ?thesis
    using assms(3) c c1 apply_patch_keys [OF c1] m
    by (auto simp: update_category_def Let_def intro!: lg_writes_emit writes_category [of c])
qed

lemma deactivate_category_writes:
  assumes "lg_inv s" "deactivate_category now tenant cid s = (s', Inr c')"
  shows "lg_writes tenant s s'"
proof -
  obtain c where c: "get_category tenant cid s = Inr c"
    using assms(2) by (auto simp: deactivate_category_def split: sum.splits)
  have m: "c \<in> set (categories s)" "Some (cat_tenant_id c) = tenant" using get_category_Inr [OF c] by auto
  then have "cat_ok c" using assms(1) by (simp add: lg_inv_def)
  then show ?thesis
    using assms(2) c m
    by (auto simp: deactivate_category_def Let_def cat_ok_def split: if_splits
        intro!: lg_writes_emit writes_category [of c])
qed

lemma add_item_writes:
  assumes "0 \<le> ic_quantity_total d" "add_inventory_item now tenant d s = (s', Inr i)"
  shows "lg_writes tenant s s'"
  using assms
  by (auto simp: add_inventory_item_def Let_def split: option.splits if_splits intro!: lg_writes_emit)
    (auto simp: lg_writes_def item_ok_def intro!: table_step_insert)

lemma touch_item_simps [simp]:
  "it_id (touch_item now i i') = it_id i'"
  "it_tenant_id (touch_item now i i') = it_tenant_id i'"
  "it_category_id (touch_item now i i') = it_category_id i'"
  "it_quantity_total (touch_item now i i') = it_quantity_total i'"
  "it_quantity_reserved (touch_item now i i') = it_quantity_reserved i'"
  "item_ok (touch_item now i i') = item_ok i'"
  by (auto simp: touch_item_def item_ok_def)

lemma reserved_item_simps [simp]:
  "it_id (reserved_item q i) = it_id i" "it_tenant_id (reserved_item q i) = it_tenant_id i"
  "it_category_id (reserved_item q i) = it_category_id i"
  "it_quantity_total (reserved_item q i) = it_quantity_total i"
  "it_quantity_reserved (reserved_item q i) = it_quantity_reserved i + q"
  by (simp_all add: reserved_item_def Let_def)

lemma released_item_simps [simp]:
  "it_id (released_item q i) = it_id i" "it_tenant_id (released_item q i) = it_tenant_id i"
  "it_category_id (released_item q i) = it_category_id i"
  "it_quantity_total (released_item q i) = it_quantity_total i"
  "it_quantity_reserved (released_item q i) = max 0 (it_quantity_reserved i - q)"
  by (simp_all add: released_item_def Let_def)

lemma reserve_cases:
  assumes "reserve_stock now tenant iid q s = (s', res)"
  obtains (not_found) "get_item tenant iid s = None" "s' = s" "res = Inl ItemNotFound"
  | (short) i where "get_item tenant iid s = Some i" "quantity_available i < q" "s' = s"
      "res = Inl (InsufficientStock (quantity_available i) q)"
  | (overflow) i where "get_item tenant iid s = Some i" "q \<le> quantity_available i"
      "\<not> int4 (it_quantity_reserved i + q)" "s' = s" "res = Inl (Raised DatabaseError)"
  | (granted) i where "get_item tenant iid s = Some i" "q \<le> quantity_available i"
      "int4 (it_quantity_reserved i + q)" "res = Inr (touch_item now i (reserved_item q i))"
      "s' = lg_emit now ''logistics.inventory.item-updated'' tenant (item_event (it_updated_at i) (reserved_item q i))
        ((if quantity_available (reserved_item q i) \<le> LOW_STOCK_THRESHOLD then
            lg_emit now ''logistics.inventory.low-stock'' tenant
              [(''item_id'', JUuid (it_id i)), (''category_id'', JUuid (it_category_id i)),
               (''name'', JStr (it_name (reserved_item q i))),
               (''quantity_available'', JInt (quantity_available (reserved_item q i)))]
          else id) (put_item (touch_item now i (reserved_item q i)) s))"
proof (cases "get_item tenant iid s")
  case None
  then have "reserve_stock now tenant iid q s = (s, Inl ItemNotFound)" by (simp add: reserve_stock_def)
  then show ?thesis using not_found None assms by simp
next
  case (Some i)
  show ?thesis
  proof (cases "quantity_available i < q")
    case True
    then have "reserve_stock now tenant iid q s = (s, Inl (InsufficientStock (quantity_available i) q))"
      using Some by (simp add: reserve_stock_def)
    then show ?thesis using short [OF Some True] assms by simp
  next
    case False
    then have q: "q \<le> quantity_available i" by simp
    show ?thesis
    proof (cases "int4 (it_quantity_reserved i + q)")
      case int: True
      then show ?thesis
        using assms Some False
        by (intro granted [OF Some q int]; cases "quantity_available (reserved_item q i) \<le> LOW_STOCK_THRESHOLD")
          (simp_all add: reserve_stock_def Let_def)
    next
      case int: False
      then have "reserve_stock now tenant iid q s = (s, Inl (Raised DatabaseError))"
        using Some False by (simp add: reserve_stock_def Let_def)
      then show ?thesis using overflow [OF Some q int] assms by simp
    qed
  qed
qed

lemma reserve_writes:
  assumes "lg_inv s" "reserve_stock now tenant iid q s = (s', Inr i')"
  shows "lg_writes tenant s s'"
  using assms(2)
proof (cases rule: reserve_cases)
  case (granted i)
  note m = get_item_Some [OF granted(1)]
  have "item_ok i" using assms(1) m by (simp add: lg_inv_def)
  then have "item_ok (reserved_item q i)" using granted(2) by (simp add: item_ok_def quantity_available_def)
  with \<open>item_ok i\<close> have "lg_writes tenant s (put_item (touch_item now i (reserved_item q i)) s)"
    using m by (intro writes_item [of i]) auto
  then show ?thesis by (simp add: granted(5))
qed simp_all

lemma release_writes:
  assumes "lg_inv s" "0 \<le> q" "release_stock now tenant iid q s = (s', res)"
  shows "lg_writes tenant s s'"
proof (cases "get_item tenant iid s")
  case None
  then show ?thesis using assms(3) by (simp add: release_stock_def)
next
  case (Some i)
  note m = get_item_Some [OF Some]
  have "item_ok i" using assms(1) m by (simp add: lg_inv_def)
  then have "item_ok (released_item q i)" using assms(2) by (simp add: item_ok_def)
  with \<open>item_ok i\<close> have "lg_writes tenant s (put_item (touch_item now i (released_item q i)) s)"
    using m by (intro writes_item [of i]) auto
  then show ?thesis
    using assms(3) Some
    by (auto simp: release_stock_def Let_def split: if_splits)
qed

lemma create_request_writes:
  assumes "create_request iso_date now p d s = (s', Inr r)"
  shows "lg_writes (p_tenant_id p) s s'"
proof -
  obtain c where c: "get_category (p_tenant_id p) (qc_category_id d) s = Inr c"
    using assms by (auto simp: create_request_def split: sum.splits)
  note m = get_category_Inr [OF c]
  have i: "(qc_category_id d, cat_tenant_id c) \<in> (\<lambda>c. (cat_id c, cat_tenant_id c)) ` set (categories s)"
    using m by force
  show ?thesis
    using assms m i
    by (auto simp: create_request_def c Let_def split: if_splits sum.splits payload_error.splits
        intro!: lg_writes_emit) (auto simp: lg_writes_def intro!: table_step_insert)
qed

text \<open>In a state that satisfies the invariant, the category of a request is there and its workflow reads
  back as a well-formed state machine.\<close>

definition request_workflow :: "help_request \<Rightarrow> logistics_db \<Rightarrow> json" where
  "request_workflow r s =
     (case row_get cat_id (hr_category_id r) (categories s) of None \<Rightarrow> JNull | Some c \<Rightarrow> cat_workflow c)"

lemma request_workflow_reads:
  assumes "lg_inv s" "r \<in> set (help_requests s)"
  shows "\<exists>i trs. wf_workflow i trs \<and> initial_status (request_workflow r s) = Inr i \<and>
    (\<forall>st. allowed_next (request_workflow r s) st = Inr (targets_of trs st))"
proof -
  obtain c where c: "c \<in> set (categories s)" "cat_id c = hr_category_id r"
    using assms by (force simp: lg_inv_def)
  then have "row_get cat_id (hr_category_id r) (categories s) = Some c"
    using keyed_row_get [of cat_id "next_uuid s" "categories s" c] assms(1) by (simp add: lg_inv_def)
  moreover have "cat_ok c" using assms(1) c(1) by (simp add: lg_inv_def)
  ultimately show ?thesis by (auto simp: request_workflow_def cat_ok_def dest: accepted_workflow_reads)
qed

lemma stamp_status_simps [simp]:
  "hr_id (stamp_status now u st r) = hr_id r" "hr_tenant_id (stamp_status now u st r) = hr_tenant_id r"
  "hr_category_id (stamp_status now u st r) = hr_category_id r"
  "hr_extra_fields (stamp_status now u st r) = hr_extra_fields r" "hr_status (stamp_status now u st r) = st"
  by (simp_all add: stamp_status_def Let_def)

lemma change_status_cases:
  assumes "lg_inv s" "r \<in> set (help_requests s)" "change_status now r st p s = (s', res)"
  obtains (refused) al where "allowed_next (request_workflow r s) (hr_status r) = Inr al" "st \<notin> set al"
      "s' = s" "res = Inl (StatusNotAllowed (hr_status r) st al)"
  | (moved) al k t d where "allowed_next (request_workflow r s) (hr_status r) = Inr al" "st \<in> set al"
      "hr_status r \<notin> set TERMINAL_STATES"
      "s' = lg_emit now k t d (put_request (stamp_status now (p_user_id p) st r) s)"
      "res = Inr (stamp_status now (p_user_id p) st r)"
proof -
  obtain i trs where w: "wf_workflow i trs" "allowed_next (request_workflow r s) (hr_status r) = Inr (targets_of trs (hr_status r))"
    using request_workflow_reads [OF assms(1,2)] by blast
  show ?thesis
  proof (cases "st \<in> set (targets_of trs (hr_status r))")
    case True
    then have "hr_status r \<notin> set TERMINAL_STATES" using wf_targets [OF w(1), of "hr_status r"] by auto
    then show ?thesis
      using moved [OF w(2) True] assms(3) w(2) True
      by (auto simp: change_status_def Let_def request_workflow_def)
  next
    case False
    then show ?thesis
      using refused [OF w(2) False] assms(3) w(2) by (simp add: change_status_def request_workflow_def)
  qed
qed

lemma change_status_writes:
  assumes "lg_inv s" "get_request tenant rid s = Some r" "change_status now r st p s = (s', res)"
  shows "lg_writes tenant s s'"
proof -
  have m: "r \<in> set (help_requests s)" "hr_id r = rid" "Some (hr_tenant_id r) = tenant"
    using get_request_Some [OF assms(2)] by auto
  from assms(1) m(1) assms(3) show ?thesis
  proof (cases rule: change_status_cases)
    case (moved al k t d)
    then show ?thesis using m by (auto intro!: lg_writes_emit writes_request [of r])
  qed (use m in auto)
qed

lemma assign_cases:
  assumes "assign_task now p d s = (s', res)"
  obtains (refused) e where "s' = s" "res = Inl e"
  | (assigned) r where "row_get hr_id (tc_request_id d) (help_requests s) = Some r"
      "Some (hr_tenant_id r) = p_tenant_id p" "hr_status r \<in> {APPROVED, IN_PROGRESS}"
      "\<forall>vr. row_get ur_user_id (tc_volunteer_user_id d) (replicas s) = Some vr \<longrightarrow>
         ur_is_active vr \<and> ''volunteer'' \<in> set (ur_roles vr)"
      "s' = lg_emit now ''logistics.task.assigned'' (p_tenant_id p)
         (task_assigned_event now p r (new_task now p d r (next_uuid s)) s)
         (put_request (r\<lparr>hr_status := IN_PROGRESS\<rparr>)
           (s\<lparr>tasks := tasks s @ [new_task now p d r (next_uuid s)], next_uuid := Suc (next_uuid s)\<rparr>))"
      "res = Inr (new_task now p d r (next_uuid s))"
proof (cases "row_get hr_id (tc_request_id d) (help_requests s)")
  case None
  then show ?thesis using assms refused by (auto simp: assign_task_def)
next
  case (Some r)
  show ?thesis
  proof (cases "Some (hr_tenant_id r) = p_tenant_id p \<and> hr_status r \<in> {APPROVED, IN_PROGRESS}")
    case False
    then show ?thesis using assms refused Some by (auto simp: assign_task_def split: if_splits)
  next
    case True
    show ?thesis
    proof (cases "\<forall>vr. row_get ur_user_id (tc_volunteer_user_id d) (replicas s) = Some vr \<longrightarrow>
         ur_is_active vr \<and> ''volunteer'' \<in> set (ur_roles vr)")
      case False
      then obtain vr where "row_get ur_user_id (tc_volunteer_user_id d) (replicas s) = Some vr"
        "\<not> (ur_is_active vr \<and> ''volunteer'' \<in> set (ur_roles vr))" by blast
      then show ?thesis using assms refused Some True by (auto simp: assign_task_def split: if_splits)
    next
      case ok: True
      then have "(case row_get ur_user_id (tc_volunteer_user_id d) (replicas s) of
          Some vr \<Rightarrow> if \<not> ur_is_active vr then Some VolunteerDeactivated
                     else if ''volunteer'' \<notin> set (ur_roles vr) then Some NotAVolunteer else None
        | None \<Rightarrow> None) = None" by (auto split: option.split)
      then show ?thesis
        using assms Some True assigned [OF Some _ _ ok] by (auto simp: assign_task_def Let_def)
    qed
  qed
qed

lemma assign_writes:
  assumes "lg_inv s" "assign_task now p d s = (s', res)"
  shows "lg_writes (p_tenant_id p) s s'"
  using assms(2)
proof (cases rule: assign_cases)
  case (assigned r)
  have r: "r \<in> set (help_requests s)" "hr_id r = tc_request_id d" using row_get_Some [OF assigned(1)] by auto
  then have "(tc_request_id d, hr_tenant_id r) \<in> (\<lambda>r. (hr_id r, hr_tenant_id r)) ` set (help_requests s)"
    by force
  moreover have "hr_status r \<notin> set TERMINAL_STATES" using assigned(3) by (auto simp: TERMINAL_STATES_def)
  ultimately show ?thesis
    unfolding assigned(5)
    using r assigned(2)
    by (intro lg_writes_emit)
      (auto simp: lg_writes_def put_request_def new_task_def intro!: table_step_insert table_step_put [of r])
qed simp

lemma update_task_writes:
  assumes "lg_inv s" "update_task_status now tenant tid st s = (s', res)"
  shows "lg_writes tenant s s'"
proof (cases "row_get tk_id tid (tasks s)")
  case None
  then show ?thesis using assms(2) by (simp add: update_task_status_def)
next
  case (Some t)
  then have t: "t \<in> set (tasks s)" by (auto dest: row_get_Some)
  show ?thesis
  proof (cases "Some (tk_tenant_id t) = tenant")
    case True
    have "lg_writes tenant s (put_task x s)" if "x = t\<lparr>tk_status := st, tk_accepted_at := a, tk_completed_at := c\<rparr>" for x a c
      using t True that by (auto simp: lg_writes_def put_task_def intro!: table_step_put [of t])
    moreover obtain a c k td d where
      "s' = lg_emit now k td d (put_task (t\<lparr>tk_status := st, tk_accepted_at := a, tk_completed_at := c\<rparr>) s)"
    proof
      show "s' = lg_emit now ''logistics.task.status-changed'' tenant
        [(''task_id'', JUuid (tk_id t)), (''request_id'', JUuid (tk_request_id t)),
         (''volunteer_user_id'', JUuid (tk_volunteer_user_id t)),
         (''old_status'', JStr (task_status_value (tk_status t))),
         (''new_status'', JStr (task_status_value st))]
        (put_task (t\<lparr>tk_status := st, tk_accepted_at := (if st = TASK_ACCEPTED then Some now else tk_accepted_at t),
                     tk_completed_at := (if st = TASK_COMPLETED then Some now else tk_completed_at t)\<rparr>) s)"
        using assms(2) Some True by (auto simp: update_task_status_def Let_def split: if_splits)
    qed
    ultimately show ?thesis by simp
  qed (use assms(2) Some in \<open>simp add: update_task_status_def\<close>)
qed

lemma alert_writes:
  assumes "route_create_alert now p d s = (s', res)"
  shows "lg_writes (p_tenant_id p) s s'"
  using assms
  by (auto simp: route_create_alert_def Let_def split: sum.splits option.splits intro!: lg_writes_emit)
    (auto simp: lg_writes_def intro!: table_step_insert)

lemma checkout_writes: "create_checkout_session h t u d s = (s', res) \<Longrightarrow> lg_writes tenant s s'"
  by (auto simp: create_checkout_session_def Let_def lg_writes_def split: if_splits)

lemma upsert_replica_writes: "upsert_replica t d s = Inr s' \<Longrightarrow> \<exists>rs. s' = s\<lparr>replicas := rs\<rparr>"
  unfolding upsert_replica_def andthen_Inr
  by (elim exE conjE, split option.split_asm if_splits; (split if_splits)?)
    (auto simp: andthen_Inr intro: exI [of _ "replicas s"])

lemma deactivate_replica_writes: "deactivate_replica d s = Inr s' \<Longrightarrow> \<exists>rs. s' = s\<lparr>replicas := rs\<rparr>"
  by (auto simp: deactivate_replica_def andthen_Inr)

lemma user_event_writes:
  assumes "handle_user_event m s = Inr s'"
  shows "lg_writes tenant s s'"
  using assms
proof (cases rule: handle_user_event_cases)
  case (applied e s1)
  have "s = s\<lparr>replicas := replicas s\<rparr>" by simp
  then obtain rs where "s1 = s\<lparr>replicas := rs\<rparr>"
    using applied(5) upsert_replica_writes deactivate_replica_writes by blast
  then show ?thesis by (simp add: applied(3) lg_writes_def)
qed simp

lemma guarded_writes:
  assumes "guarded roles p code s outcome = (s', res)"
    and "\<And>s1 v. outcome = (s1, Inr v) \<Longrightarrow> lg_writes tenant s s1"
  shows "lg_writes tenant s s'"
  using assms by (auto simp: guarded_def split: sum.splits prod.splits if_splits)

lemma lg_call_writes:
  assumes "lg_call iso_date p s s'" "lg_inv s"
  shows "lg_writes (p_tenant_id p) s s'"
  using assms
proof (induction rule: lg_call.induct)
  case (call_create_category now raw s s' res)
  then show ?case
    by (auto simp: route_create_category_def split: sum.splits
        elim!: guarded_writes intro: create_category_writes)
next
  case (call_update_category now cid upd s s' res)
  then show ?case
    by (auto simp: route_update_category_def split: sum.splits
        elim!: guarded_writes intro: update_category_writes)
next
  case (call_deactivate_category now cid s s' res)
  then show ?case
    by (auto simp: route_deactivate_category_def elim!: guarded_writes intro: deactivate_category_writes)
next
  case (call_add_item now ic s s' ires)
  then show ?case
    by (auto simp: route_add_item_def not_less split: sum.splits if_splits
        elim!: guarded_writes intro: add_item_writes)
next
  case (call_reserve now iid q s s' ires)
  then show ?case by (auto simp: route_reserve_def elim!: guarded_writes intro: reserve_writes)
next
  case (call_submit now d s s' rres)
  then show ?case
    by (auto simp: route_submit_request_def split: if_splits elim!: guarded_writes intro: create_request_writes)
next
  case (call_status now rid st s s' rres)
  then show ?case
    by (auto simp: route_update_status_def split: sum.splits option.splits
        elim!: guarded_writes intro: change_status_writes)
next
  case (call_dispatch now tc s s' tres)
  then show ?case by (auto simp: route_dispatch_task_def elim!: guarded_writes intro: assign_writes)
next
  case (call_task now tid tst s s' tres)
  then show ?case by (auto simp: route_update_task_def elim!: guarded_writes intro: update_task_writes)
next
  case (call_alert now ac s s' ares)
  then show ?case by (auto intro: alert_writes)
next
  case (call_checkout payhere_hash co s s' cres)
  then show ?case by (auto simp: route_create_checkout_def elim!: guarded_writes intro: checkout_writes)
qed

lemma lg_step_writes:
  assumes "lg_step iso_date s s'" "lg_inv s"
  shows "\<exists>tenant. lg_writes tenant s s'"
  using assms
proof (induction rule: lg_step.induct)
  case (lg_relay locked broker now s ob sent n)
  then show ?case by (auto simp: lg_writes_def)
qed (auto intro: lg_call_writes release_writes user_event_writes)

lemma lg_step_inv: "lg_step iso_date s s' \<Longrightarrow> lg_inv s \<Longrightarrow> lg_inv s'"
  using lg_step_writes lg_writes_inv by blast

lemma empty_lg_inv: "lg_inv empty_logistics_db"
  by (simp add: lg_inv_def empty_logistics_db_def)

lemma lg_reachable_inv: "(lg_step iso_date)\<^sup>*\<^sup>* empty_logistics_db s \<Longrightarrow> lg_inv s"
  by (induction rule: rtranclp_induct) (auto intro: empty_lg_inv lg_step_inv)

end
