(* ===== verification/Logistics_Correct.thy ===== *)
theory Logistics_Correct
  imports Logistics_Inv Logistics_Replica
begin

text \<open>
  The correctness of the logistics service: stock is never oversold and reservations are a greedy
  counter, requests follow the workflow of their category and closed requests stay closed, submitted
  forms are stored as the category defines them, every call stays within its tenant, tasks go only to
  approved requests, and the replica of IAM users is consumed effectively once and converges.
\<close>

section \<open>Stock\<close>

text \<open>A sequence of reservations of one item, each at its time; the list holds the quantities granted.\<close>

fun reserve_all ::
  "uuid option \<Rightarrow> uuid \<Rightarrow> (timestamp \<times> int) list \<Rightarrow> logistics_db \<Rightarrow> logistics_db \<times> int list" where
  "reserve_all tenant iid [] s = (s, [])"
| "reserve_all tenant iid ((now, q) # qs) s =
     (case reserve_stock now tenant iid q s of
        (s', Inl _) \<Rightarrow> reserve_all tenant iid qs s'
      | (s', Inr _) \<Rightarrow> (case reserve_all tenant iid qs s' of (s'', granted) \<Rightarrow> (s'', q # granted)))"

text \<open>The specification: grant what fits what is left.\<close>

fun greedy :: "int \<Rightarrow> int list \<Rightarrow> int list" where
  "greedy available [] = []"
| "greedy available (q # qs) =
     (if q \<le> available then q # greedy (available - q) qs else greedy available qs)"

lemma greedy_sum: "0 \<le> a \<Longrightarrow> sum_list (greedy a qs) \<le> a"
  by (induction a qs rule: greedy.induct) auto

lemma find_put:
  assumes "keyed key n rows" "find (\<lambda>r. key r = k \<and> P r) rows = Some r" "key x = k" "P x"
  shows "find (\<lambda>r. key r = k \<and> P r) (row_upd (\<lambda>y. key y = key x) (\<lambda>_. x) rows) = Some x"
proof -
  have r: "r \<in> set rows" "key r = k" "P r" using assms(2) unfolding find_Some_iff by auto
  have P: "P y" if "y \<in> set rows" "key y = k" for y
    using keyed_unique [OF assms(1) that(1) r(1)] that(2) r(2,3) by simp
  then have f: "find (\<lambda>r. key r = k \<and> P r) xs = row_get key k xs" if "set xs \<subseteq> set rows" for xs
    using that unfolding row_get_def by (induction xs) auto
  have "row_get key k rows \<noteq> None" using f [of rows] assms(2) by (metis option.distinct(1) order_refl)
  moreover have "find (\<lambda>r. key r = k \<and> P r) (row_upd (\<lambda>y. key y = key x) (\<lambda>_. x) xs) =
      row_get key k (row_upd (\<lambda>y. key y = key x) (\<lambda>_. x) xs)" if "set xs \<subseteq> set rows" for xs
    using that assms(3,4) P
    unfolding row_get_def by (induction xs) auto
  ultimately show ?thesis using assms(3) by (auto simp: row_get_put)
qed

lemma get_item_put:
  assumes "lg_inv s" "get_item tenant iid s = Some i" "it_id x = iid" "it_tenant_id x = it_tenant_id i"
    and "items s' = items (put_item x s)"
  shows "get_item tenant iid s' = Some x"
  unfolding get_item_def assms(5) put_item_def
  using find_put [of it_id "next_uuid s" "items s" iid "\<lambda>i. Some (it_tenant_id i) = tenant" i x]
    assms get_item_Some [OF assms(2)]
  by (simp add: lg_inv_def get_item_def)

text \<open>One reservation of a non-negative quantity.\<close>

lemma reserve_one:
  assumes "lg_inv s" "get_item tenant iid s = Some i" "0 \<le> it_quantity_reserved i" "0 \<le> q"
  shows "if q \<le> quantity_available i
    then \<exists>s' i'. reserve_stock now tenant iid q s = (s', Inr i') \<and> lg_inv s' \<and>
      get_item tenant iid s' = Some i' \<and> it_quantity_reserved i' = it_quantity_reserved i + q \<and>
      it_quantity_total i' = it_quantity_total i
    else \<exists>e. reserve_stock now tenant iid q s = (s, Inl e)"
proof -
  obtain s' res where r: "reserve_stock now tenant iid q s = (s', res)" by fastforce
  have m: "i \<in> set (items s)" "it_id i = iid" using get_item_Some [OF assms(2)] by auto
  from r show ?thesis
  proof (cases rule: reserve_cases)
    case (overflow i')
    then have "i' = i" using assms(2) by simp
    moreover have "item_ok i" using m(1) assms(1) by (simp add: lg_inv_def)
    ultimately show ?thesis
      using overflow assms(3,4) by (auto simp: item_ok_def int4_def quantity_available_def)
  next
    case (granted i')
    then have i': "i' = i" using assms(2) by simp
    let ?i = "touch_item now i (reserved_item q i)"
    have "it_quantity_reserved ?i = it_quantity_reserved i + q" "it_quantity_total ?i = it_quantity_total i"
      by simp_all
    moreover have "lg_inv s'" using reserve_writes [OF assms(1)] r granted(4) lg_writes_inv assms(1) by blast
    moreover have "get_item tenant iid s' = Some ?i"
      using m by (intro get_item_put [OF assms(1,2)]) (auto simp: granted(5) i')
    ultimately show ?thesis using r granted(2,4) i' by auto
  qed (use assms(2) r in auto)
qed

lemma reserve_all_greedy:
  "lg_inv s \<Longrightarrow> get_item tenant iid s = Some i \<Longrightarrow> 0 \<le> it_quantity_reserved i \<Longrightarrow>
   (\<forall>(now, q) \<in> set qs. 0 \<le> q) \<Longrightarrow>
   \<exists>s' i'. reserve_all tenant iid qs s = (s', greedy (quantity_available i) (map snd qs)) \<and>
     get_item tenant iid s' = Some i' \<and> it_quantity_total i' = it_quantity_total i \<and>
     it_quantity_reserved i' = it_quantity_reserved i + sum_list (greedy (quantity_available i) (map snd qs))"
proof (induction qs arbitrary: s i)
  case Nil
  then show ?case by simp
next
  case (Cons x qs)
  obtain now q where x: "x = (now, q)" by fastforce
  with Cons.prems have q: "0 \<le> q" "\<forall>(now, q) \<in> set qs. 0 \<le> q" by auto
  note one = reserve_one [OF Cons.prems(1-3) q(1), of now]
  show ?case
  proof (cases "q \<le> quantity_available i")
    case True
    with one obtain s' i' where s': "reserve_stock now tenant iid q s = (s', Inr i')" "lg_inv s'"
      "get_item tenant iid s' = Some i'" "it_quantity_reserved i' = it_quantity_reserved i + q"
      "it_quantity_total i' = it_quantity_total i" by auto
    moreover have "quantity_available i' = quantity_available i - q" using s' by (simp add: quantity_available_def)
    ultimately show ?thesis using Cons.IH [OF s'(2,3) _ q(2)] Cons.prems(3) q(1) True by (auto simp: x)
  next
    case False
    with one obtain e where "reserve_stock now tenant iid q s = (s, Inl e)" by auto
    then show ?thesis using Cons.IH [OF Cons.prems(1-3) q(2)] False by (auto simp: x)
  qed
qed

lemma release_one:
  assumes "lg_inv s" "get_item tenant iid s = Some i" "int4 (max 0 (it_quantity_reserved i - q))"
  shows "\<exists>s'. release_stock now tenant iid q s = (s', Inr (touch_item now i (released_item q i))) \<and>
    get_item tenant iid s' = Some (touch_item now i (released_item q i))"
proof -
  have m: "it_id i = iid" using get_item_Some [OF assms(2)] by auto
  let ?s = "lg_emit now ''logistics.inventory.item-updated'' tenant
    (item_event (it_updated_at i) (released_item q i)) (put_item (touch_item now i (released_item q i)) s)"
  have "release_stock now tenant iid q s = (?s, Inr (touch_item now i (released_item q i)))"
    using assms(2,3) by (simp add: release_stock_def Let_def)
  moreover have "get_item tenant iid ?s = Some (touch_item now i (released_item q i))"
    using m by (intro get_item_put [OF assms(1,2)]) auto
  ultimately show ?thesis by blast
qed

lemma reserve_release_item:
  assumes "it_status i = AVAILABLE" "0 < q" "0 \<le> it_quantity_reserved i" "q \<le> quantity_available i"
  shows "released_item q (touch_item now (i) (reserved_item q i)) = i\<lparr>it_updated_at := now\<rparr>"
proof -
  have "reserved_item q i \<noteq> i" using assms(2) reserved_item_simps(5) [of q i] by (metis add_cancel_left_right less_irrefl)
  then show ?thesis
    using assms
    by (cases "quantity_available i = q")
      (auto simp: touch_item_def reserved_item_def released_item_def Let_def quantity_available_def)
qed

section \<open>Properties\<close>

text \<open>C7. Every reachable state of the logistics service is sound: no item has more reserved than its total,
  every stored workflow and form is readable and well formed, a request belongs to a category of its
  own tenant, and a task to a request of its own tenant.\<close>

theorem logistics_reachable_sound:
  assumes "(lg_step iso_date)\<^sup>*\<^sup>* empty_logistics_db s"
  shows "(\<forall>i \<in> set (items s). 0 \<le> quantity_available i \<and> 0 \<le> it_quantity_total i) \<and>
    (\<forall>c \<in> set (categories s). pred_option wf_specs (cat_form_schema c) \<and>
       (\<exists>start trs. wf_workflow start trs \<and> initial_status (cat_workflow c) = Inr start \<and>
          (\<forall>st. allowed_next (cat_workflow c) st = Inr (targets_of trs st)))) \<and>
    (\<forall>r \<in> set (help_requests s). \<exists>c \<in> set (categories s).
       cat_id c = hr_category_id r \<and> cat_tenant_id c = hr_tenant_id r) \<and>
    (\<forall>t \<in> set (tasks s). \<exists>r \<in> set (help_requests s).
       hr_id r = tk_request_id t \<and> hr_tenant_id r = tk_tenant_id t)"
proof -
  have inv: "lg_inv s" using lg_reachable_inv [OF assms] .
  have "\<exists>start trs. wf_workflow start trs \<and> initial_status (cat_workflow c) = Inr start \<and>
          (\<forall>st. allowed_next (cat_workflow c) st = Inr (targets_of trs st))" if "c \<in> set (categories s)" for c
    using inv that accepted_workflow_reads by (auto simp: lg_inv_def cat_ok_def)
  then show ?thesis
    using inv by (fastforce simp: lg_inv_def item_ok_def quantity_available_def cat_ok_def)
qed

definition demo_admin :: principal where
  "demo_admin = \<lparr>p_user_id = 1, p_tenant_id = Some 7, p_user_type = JStr ''TENANT_ADMIN'',
     p_roles = [JStr ''tenant_admin'']\<rparr>"

definition demo_db :: logistics_db where
  "demo_db = fst (route_add_item 20 demo_admin
     \<lparr>ic_category_id = 0, ic_name = ''rice'', ic_quantity_total = 10, ic_expiry_date = None,
      ic_storage_location = None, ic_donor_name = None\<rparr>
     (fst (route_create_category 10 demo_admin
        \<lparr>cc_name = ''food'', cc_description = None, cc_unit = ''kg'', cc_form_schema = JNull, cc_workflow = JNull\<rparr>
        empty_logistics_db)))"

lemma demo_reachable: "(lg_step iso_date)\<^sup>*\<^sup>* empty_logistics_db demo_db"
  unfolding demo_db_def
  by (rule rtranclp.rtrancl_into_rtrancl [OF r_into_rtranclp])
    (blast intro: lg_request call_add_item call_create_category surjective_pairing)+

theorem logistics_reachable_sound_witness:
  "list_all (\<lambda>i. 0 \<le> quantity_available i \<and> 0 \<le> it_quantity_total i) (items demo_db)"
  using logistics_reachable_sound [OF demo_reachable] unfolding list_all_iff by blast


lemma demo_item:
  "\<exists>i. get_item (Some 7) 2 demo_db = Some i \<and> it_quantity_reserved i = 0 \<and> quantity_available i = 10 \<and>
    it_status i = AVAILABLE"
proof -
  have "map_option (\<lambda>i. (it_quantity_reserved i, quantity_available i, it_status i)) (get_item (Some 7) 2 demo_db) =
    Some (0, 10, AVAILABLE)" by code_simp
  then show ?thesis by auto
qed


text \<open>Releasing what was reserved restores the item: for an available item, a granted reservation of a
  positive quantity followed by its release leaves the row as it was, but for the time of the last
  write.\<close>

theorem reserve_release_roundtrip:
  assumes "(lg_step iso_date)\<^sup>*\<^sup>* empty_logistics_db s" "get_item tenant iid s = Some i"
    and "it_status i = AVAILABLE" "0 \<le> it_quantity_reserved i" "0 < q" "q \<le> quantity_available i"
  shows "\<exists>s1 i1 s2. reserve_stock now tenant iid q s = (s1, Inr i1) \<and>
    release_stock now' tenant iid q s1 = (s2, Inr (i\<lparr>it_updated_at := now'\<rparr>)) \<and>
    get_item tenant iid s2 = Some (i\<lparr>it_updated_at := now'\<rparr>)"
proof -
  have inv: "lg_inv s" using lg_reachable_inv [OF assms(1)] .
  obtain s1 i1 where s1: "reserve_stock now tenant iid q s = (s1, Inr i1)" "lg_inv s1"
    "get_item tenant iid s1 = Some i1" "it_quantity_reserved i1 = it_quantity_reserved i + q"
    using reserve_one [OF inv assms(2,4), of q now] assms(5,6) by auto
  have i1: "i1 = touch_item now i (reserved_item q i)"
    using s1(1) by (rule reserve_cases) (use assms(2) in auto)
  have "item_ok i" using get_item_Some [OF assms(2)] inv by (simp add: lg_inv_def)
  then have "int4 (max 0 (it_quantity_reserved i1 - q))" using assms(4) s1(4) by (auto simp: item_ok_def int4_def)
  then obtain s2 where s2: "release_stock now' tenant iid q s1 = (s2, Inr (touch_item now' i1 (released_item q i1)))"
    "get_item tenant iid s2 = Some (touch_item now' i1 (released_item q i1))"
    using release_one [OF s1(2,3)] by blast
  have rel: "released_item q i1 = i\<lparr>it_updated_at := now\<rparr>"
    unfolding i1 using reserve_release_item [OF assms(3,5,4,6)] .
  have "it_quantity_reserved (released_item q i1) \<noteq> it_quantity_reserved i1" using s1(4) assms(4,5) by simp
  then have "touch_item now' i1 (released_item q i1) = i\<lparr>it_updated_at := now'\<rparr>"
    using rel by (auto simp: touch_item_def)
  then show ?thesis using s1(1) s2 by auto
qed

theorem reserve_release_roundtrip_witness:
  "\<exists>s1 i1 s2 i2. reserve_stock 30 (Some 7) 2 10 demo_db = (s1, Inr i1) \<and>
     release_stock 40 (Some 7) 2 10 s1 = (s2, Inr i2) \<and> it_quantity_reserved i2 = 0"
proof -
  obtain i where i: "get_item (Some 7) 2 demo_db = Some i" "it_quantity_reserved i = 0"
    "quantity_available i = 10" "it_status i = AVAILABLE" using demo_item by blast
  show ?thesis
    using reserve_release_roundtrip [OF demo_reachable i(1), of 10 30 40] i(2-4) by fastforce
qed

text \<open>C12. A closed request stays closed: once a request is fulfilled, rejected or cancelled, no sequence of
  calls, dispatches, workflow changes, consumed events or relay runs changes its row again.\<close>

theorem closed_requests_stay_closed:
  assumes "(lg_step iso_date)\<^sup>*\<^sup>* empty_logistics_db s" "row_get hr_id rid (help_requests s) = Some r"
    and "hr_status r \<in> set TERMINAL_STATES" "(lg_step iso_date)\<^sup>*\<^sup>* s s'"
  shows "row_get hr_id rid (help_requests s') = Some r"
proof -
  from assms(4) have "lg_inv s' \<and> row_get hr_id rid (help_requests s') = Some r"
  proof (induction rule: rtranclp_induct)
    case base
    then show ?case using lg_reachable_inv [OF assms(1)] assms(2) by simp
  next
    case (step s1 s2)
    then obtain tenant where w: "lg_writes tenant s1 s2" using lg_step_writes by blast
    have k: "keyed hr_id (next_uuid s1) (help_requests s1)" using step by (simp add: lg_inv_def)
    show ?case
      using table_step_row [OF w [unfolded lg_writes_def, THEN conjunct2, THEN conjunct2, THEN conjunct2, THEN conjunct1] k]
        step lg_writes_inv [OF w] assms(3) by blast
  qed
  then show ?thesis by blast
qed

definition demo_request :: request_create where
  "demo_request = \<lparr>qc_category_id = 0, qc_description = ''food for two'', qc_quantity_needed = 2, qc_urgency = HIGH,
     qc_requester_name = None, qc_requester_phone = None, qc_area = None, qc_latitude = None,
     qc_longitude = None, qc_is_sensitive = False, qc_extra_fields = JNull\<rparr>"

definition demo_submitted :: logistics_db where
  "demo_submitted = fst (route_submit_request (\<lambda>_. None) 30 demo_admin demo_request demo_db)"

definition demo_closed :: logistics_db where
  "demo_closed = fst (route_update_status 40 demo_admin 4 REJECTED demo_submitted)"

lemma demo_submitted_reachable: "(lg_step (\<lambda>_. None))\<^sup>*\<^sup>* empty_logistics_db demo_submitted"
  unfolding demo_submitted_def
  by (rule rtranclp.rtrancl_into_rtrancl [OF demo_reachable])
    (blast intro: lg_request call_submit surjective_pairing)

lemma demo_closed_reachable: "(lg_step (\<lambda>_. None))\<^sup>*\<^sup>* empty_logistics_db demo_closed"
  unfolding demo_closed_def
  by (rule rtranclp.rtrancl_into_rtrancl [OF demo_submitted_reachable])
    (blast intro: lg_request call_status surjective_pairing)

theorem closed_requests_stay_closed_witness:
  "\<exists>r. row_get hr_id 4 (help_requests demo_closed) = Some r \<and> hr_status r = REJECTED \<and>
     row_get hr_id 4 (help_requests (fst (route_update_status 50 demo_admin 4 VERIFIED demo_closed))) = Some r"
proof -
  have "map_option hr_status (row_get hr_id 4 (help_requests demo_closed)) = Some REJECTED" by code_simp
  then obtain r where r: "row_get hr_id 4 (help_requests demo_closed) = Some r" "hr_status r = REJECTED" by auto
  have "(lg_step (\<lambda>_. None))\<^sup>*\<^sup>* demo_closed (fst (route_update_status 50 demo_admin 4 VERIFIED demo_closed))"
    by (blast intro: r_into_rtranclp lg_request call_status surjective_pairing)
  from closed_requests_stay_closed [OF demo_closed_reachable r(1) _ this] r show ?thesis
    by (simp add: TERMINAL_STATES_def)
qed

text \<open>C27. Status changes follow the workflow of the category: a coordinator's or administrator's change is
  answered 404 when the request is not one of the tenant, 422 when the current state does not allow the
  new one, and otherwise moves exactly that request, stamping verification and fulfilment; nothing else
  changes in the table of requests, and no stored workflow makes the route fail with 500.\<close>

theorem status_change_follows_workflow:
  assumes "(lg_step iso_date)\<^sup>*\<^sup>* empty_logistics_db s"
    and "require_any_role [''tenant_admin'', ''coordinator''] p = Inr p"
    and "route_update_status now p rid new_status s = (s', res)"
  shows "case get_request (p_tenant_id p) rid s of
      None \<Rightarrow> s' = s \<and> res = Inl (Refused (HTTPException 404 ''Request not found''))
    | Some r \<Rightarrow> \<exists>allowed. allowed_next (request_workflow r s) (hr_status r) = Inr allowed \<and>
        (if new_status \<in> set allowed
         then res = Inr (stamp_status now (p_user_id p) new_status r) \<and>
           help_requests s' = row_upd (\<lambda>x. hr_id x = rid) (\<lambda>_. stamp_status now (p_user_id p) new_status r) (help_requests s)
         else s' = s \<and> res = Inl (Failed 422 (StatusNotAllowed (hr_status r) new_status allowed)))"
proof (cases "get_request (p_tenant_id p) rid s")
  case None
  then show ?thesis using assms(2,3) by (simp add: route_update_status_def)
next
  case (Some r)
  have m: "r \<in> set (help_requests s)" "hr_id r = rid" using get_request_Some [OF Some] by auto
  obtain s1 res1 where c: "change_status now r new_status p s = (s1, res1)" by fastforce
  then have g: "guarded [] p (value_error 422) s (s1, res1) = (s', res)"
    using assms(2,3) Some by (simp add: route_update_status_def)
  from lg_reachable_inv [OF assms(1)] m(1) c show ?thesis
  proof (cases rule: change_status_cases)
    case (refused al)
    then show ?thesis using g Some by (simp add: guarded_def)
  next
    case (moved al k t d)
    then show ?thesis using g Some m(2) by (auto simp: guarded_def put_request_def)
  qed
qed

theorem status_change_follows_workflow_witness:
  "\<exists>s' r. route_update_status 40 demo_admin 4 VERIFIED demo_submitted = (s', Inr r) \<and>
     hr_status r = VERIFIED \<and> hr_verified_by_user_id r = Some 1"
proof -
  have role: "require_any_role [''tenant_admin'', ''coordinator''] demo_admin = Inr demo_admin"
    by (simp add: require_any_role_def demo_admin_def)
  have "map_option (\<lambda>r. allowed_next (request_workflow r demo_submitted) (hr_status r))
      (get_request (p_tenant_id demo_admin) 4 demo_submitted) = Some (Inr [VERIFIED, REJECTED, CANCELLED])"
    by code_simp
  then obtain r where r: "get_request (p_tenant_id demo_admin) 4 demo_submitted = Some r"
    "allowed_next (request_workflow r demo_submitted) (hr_status r) = Inr [VERIFIED, REJECTED, CANCELLED]" by auto
  obtain s' res where u: "route_update_status 40 demo_admin 4 VERIFIED demo_submitted = (s', res)" by fastforce
  from status_change_follows_workflow [OF demo_submitted_reachable role u] r
  have "res = Inr (stamp_status 40 (p_user_id demo_admin) VERIFIED r)" by simp
  then show ?thesis using u by (simp add: stamp_status_def Let_def demo_admin_def)
qed

lemma stored_payload_fits:
  assumes "pred_option wf_specs fs" "validate_payload iso_date fs j = Inr stored"
  shows "(\<forall>(k, v) \<in> set (case stored of None \<Rightarrow> [] | Some c \<Rightarrow> c).
      \<exists>spec \<in> set (case fs of None \<Rightarrow> [] | Some sp \<Rightarrow> sp). fs_key spec = k \<and> fits iso_date spec v) \<and>
    (\<forall>spec \<in> set (case fs of None \<Rightarrow> [] | Some sp \<Rightarrow> sp). fs_required spec \<longrightarrow>
      fs_key spec \<in> fst ` set (case stored of None \<Rightarrow> [] | Some c \<Rightarrow> c))"
proof -
  let ?specs = "case fs of None \<Rightarrow> [] | Some sp \<Rightarrow> sp"
  obtain payload where "(if truthy j then j else JObj []) = JObj payload"
    using assms(2) by (auto simp: validate_payload_def split: json.splits)
  then obtain c where c: "coerce_fields iso_date ?specs payload = Inr (c, [])"
    "stored = (if c = [] then None else Some c)"
    using assms(2) by (auto simp: validate_payload_def Let_def split: sum.splits if_splits)
  have "distinct (map fs_key ?specs)" using assms(1) by (auto simp: wf_specs_def split: option.split)
  note sound = coerce_fields_sound [OF c(1) this]
  have st: "(case stored of None \<Rightarrow> [] | Some c \<Rightarrow> c) = c" using c(2) by simp
  show ?thesis unfolding st using sound by (rule conjunct2)
qed



text \<open>C13. Calls stay within their tenant: whatever a principal calls, every category, item, request, task
  and alert of another tenant is untouched; a principal without a tenant writes none of them.\<close>

theorem logistics_tenant_isolation:
  assumes "(lg_step iso_date)\<^sup>*\<^sup>* empty_logistics_db s" "lg_call iso_date p s s'" "p_tenant_id p \<noteq> Some t"
  shows "filter (\<lambda>c. cat_tenant_id c = t) (categories s') = filter (\<lambda>c. cat_tenant_id c = t) (categories s) \<and>
    filter (\<lambda>i. it_tenant_id i = t) (items s') = filter (\<lambda>i. it_tenant_id i = t) (items s) \<and>
    filter (\<lambda>r. hr_tenant_id r = t) (help_requests s') = filter (\<lambda>r. hr_tenant_id r = t) (help_requests s) \<and>
    filter (\<lambda>k. tk_tenant_id k = t) (tasks s') = filter (\<lambda>k. tk_tenant_id k = t) (tasks s) \<and>
    filter (\<lambda>a. al_tenant_id a = t) (alerts s') = filter (\<lambda>a. al_tenant_id a = t) (alerts s)"
proof -
  have inv: "lg_inv s" using lg_reachable_inv [OF assms(1)] .
  note w = lg_call_writes [OF assms(2) inv, unfolded lg_writes_def, THEN conjunct2]
  have k: "keyed cat_id (next_uuid s) (categories s)" "keyed it_id (next_uuid s) (items s)"
    "keyed hr_id (next_uuid s) (help_requests s)" "keyed tk_id (next_uuid s) (tasks s)"
    "keyed al_id (next_uuid s) (alerts s)" using inv by (simp_all add: lg_inv_def)
  show ?thesis
    using assms(3)
    by (intro conjI table_step_outside [OF w [THEN conjunct1] k(1)]
        table_step_outside [OF w [THEN conjunct2, THEN conjunct1] k(2)]
        table_step_outside [OF w [THEN conjunct2, THEN conjunct2, THEN conjunct1] k(3)]
        table_step_outside [OF w [THEN conjunct2, THEN conjunct2, THEN conjunct2, THEN conjunct1] k(4)]
        table_step_outside [OF w [THEN conjunct2, THEN conjunct2, THEN conjunct2, THEN conjunct2] k(5)]) auto
qed

theorem logistics_tenant_isolation_witness:
  "filter (\<lambda>i. it_tenant_id i = 7)
     (items (fst (route_reserve 30 (demo_admin\<lparr>p_tenant_id := Some 8\<rparr>) 2 5 demo_db))) =
   filter (\<lambda>i. it_tenant_id i = 7) (items demo_db)"
  by (rule logistics_tenant_isolation [OF demo_reachable, THEN conjunct2, THEN conjunct1])
    (rule call_reserve, rule surjective_pairing, simp)



text \<open>The order of delivery does not matter to the user replica: two deliveries of the same registration
  and update events of one user, in any two orders, leave the same name, phone, roles and active flag,
  provided the source timestamps differ.\<close>

theorem user_replica_order_irrelevant:
  assumes "\<forall>m \<in> set ms. \<exists>x. user_update m = Some (u, x)" "distinct (map envelope_id ms)"
    and "\<forall>m \<in> set ms. envelope_id m \<notin> Some ` set (lg_processed s)"
    and "row_get ur_user_id u (replicas s) = None"
    and "inj_on event_time ((\<lambda>m. the (user_update m)) ` set ms)" "mset ms' = mset ms"
  shows "map_option replica_view (row_get ur_user_id u (replicas (deliver_all handle_user_event ms' s))) =
    map_option replica_view (row_get ur_user_id u (replicas (deliver_all handle_user_event ms s)))"
proof -
  have set_eq: "set ms' = set ms" using assms(6) by (metis set_mset_mset)
  have "mset (map envelope_id ms') = mset (map envelope_id ms)" using assms(6) by simp
  then have "distinct (map envelope_id ms')" using assms(2) by (metis mset_eq_imp_distinct_iff)
  then have r: "row_get ur_user_id u (replicas (deliver_all handle_user_event xs s)) =
      fold replica_upd (map (\<lambda>m. the (user_update m)) xs) None" if "xs = ms \<or> xs = ms'" for xs
    using that deliver_user_updates [of xs u s] assms(1-4) set_eq by auto
  have "mset (map (\<lambda>m. the (user_update m)) ms') = mset (map (\<lambda>m. the (user_update m)) ms)"
    using assms(6) by simp
  moreover have "inj_on event_time (set (map (\<lambda>m. the (user_update m)) ms'))" using assms(5) set_eq by simp
  ultimately show ?thesis using replica_lww.order_irrelevant r by auto
qed

definition demo_user_event :: "uuid \<Rightarrow> string \<Rightarrow> string \<Rightarrow> timestamp \<Rightarrow> json" where
  "demo_user_event e ty name t =
     JObj [(''event_id'', JUuid e), (''event_type'', JStr ty), (''tenant_id'', JNull),
       (''data'', JObj [(''user_id'', JUuid 9), (''full_name'', JStr name), (''updated_at'', JTime t)])]"

theorem user_replica_order_irrelevant_witness:
  "map_option replica_view (row_get ur_user_id 9 (replicas (deliver_all handle_user_event
     [demo_user_event 2 ''iam.user.updated'' ''New'' 20, demo_user_event 3 ''iam.user.registered'' ''Old'' 10]
     empty_logistics_db))) =
   map_option replica_view (row_get ur_user_id 9 (replicas (deliver_all handle_user_event
     [demo_user_event 3 ''iam.user.registered'' ''Old'' 10, demo_user_event 2 ''iam.user.updated'' ''New'' 20]
     empty_logistics_db)))"
proof -
  let ?a = "demo_user_event 3 ''iam.user.registered'' ''Old'' 10"
  let ?b = "demo_user_event 2 ''iam.user.updated'' ''New'' 20"
  have e: "envelope_id ?a = Some 3" "envelope_id ?b = Some 2"
    by (simp_all add: demo_user_event_def envelope_id_def dget_def)
  then have u: "user_update ?a = Some (9, None, 10, (''Old'', None, [], True))"
    "user_update ?b = Some (9, None, 20, (''New'', None, [], True))"
    by (simp_all add: demo_user_event_def user_update_def replica_fields_of_def tenant_of_def dindex_def
        dget_default_def col_strs_def)
  show ?thesis
    by (rule user_replica_order_irrelevant) (auto simp: u e empty_logistics_db_def event_time_def inj_on_def)
qed

end
