(* ===== verification/IAM.thy ===== *)
theory IAM
  imports Auth Messaging Table_Step
begin

text \<open>
  The identity service (\<open>services/iam/app\<close>): tenants, users of two disjoint populations, rotating
  refresh tokens, login, registration, the super-admin console and the bootstrap script
  (\<open>services/auth.py\<close>, \<open>services/admin.py\<close>, \<open>core/security.py\<close>, \<open>api/\<close>,
  \<open>scripts/bootstrap_superadmin.py\<close>). The database is \<open>iam_db\<close>; the constraints of
  \<open>models/\<close> (unique slug, unique email per tenant and in the global pool, the CHECK on type and
  tenancy, unique token hash) are checked by the inserts, which raise DatabaseError.

  Argon2 and SHA-256 are parameters: \<open>hash_password salt p\<close> (the salt is drawn from the counter),
  \<open>verify_password p h\<close> and \<open>sha256 raw\<close>; \<open>secrets.token_urlsafe\<close> is the argument \<open>raw\<close>. An access
  token is its claims: the JOSE library that signs them is a parameter of the reader, \<open>verify\<close>.
  Emails are the strings pydantic's \<open>EmailStr\<close> returns.
\<close>

section \<open>State\<close>

datatype user_type = SUPER_ADMIN | VOLUNTEER | VICTIM | DONATOR | TENANT_ADMIN | COORDINATOR

fun user_type_value :: "user_type \<Rightarrow> string" where
  "user_type_value SUPER_ADMIN = ''SUPER_ADMIN''"
| "user_type_value VOLUNTEER = ''VOLUNTEER''"
| "user_type_value VICTIM = ''VICTIM''"
| "user_type_value DONATOR = ''DONATOR''"
| "user_type_value TENANT_ADMIN = ''TENANT_ADMIN''"
| "user_type_value COORDINATOR = ''COORDINATOR''"

definition GLOBAL_USER_TYPES :: "user_type list" where
  "GLOBAL_USER_TYPES = [VOLUNTEER, VICTIM, DONATOR]"

definition TENANT_USER_TYPES :: "user_type list" where
  "TENANT_USER_TYPES = [TENANT_ADMIN, COORDINATOR]"

record tenant =
  tn_id :: uuid
  tn_name :: string
  tn_slug :: string
  tn_description :: "string option"
  tn_status :: string
  tn_latitude :: "pyfloat option"
  tn_longitude :: "pyfloat option"
  tn_created_at :: timestamp

record user =
  us_id :: uuid
  us_tenant_id :: "uuid option"
  us_user_type :: user_type
  us_email :: string
  us_password_hash :: string
  us_full_name :: string
  us_phone :: "string option"
  us_status :: string
  us_role_assignments :: "string list"
  us_latitude :: "pyfloat option"
  us_longitude :: "pyfloat option"
  us_assigned_tenant_id :: "uuid option"
  us_created_at :: timestamp
  us_updated_at :: timestamp

record refresh_token =
  rt_id :: uuid
  rt_user_id :: uuid
  rt_token_hash :: string
  rt_expires_at :: timestamp
  rt_rotated_from :: "uuid option"
  rt_revoked_at :: "timestamp option"

record iam_db = service +
  tenants :: "tenant list"
  users :: "user list"
  refresh_tokens :: "refresh_token list"

definition empty_iam_db :: iam_db where
  "empty_iam_db = \<lparr>outbox = [], outbox_seq = 0, next_uuid = 0, tenants = [], users = [], refresh_tokens = []\<rparr>"

record crypto =
  hash_password :: "nat \<Rightarrow> string \<Rightarrow> string"
  verify_password :: "string \<Rightarrow> string \<Rightarrow> bool"
  sha256 :: "string \<Rightarrow> string"

definition roles :: "user \<Rightarrow> string list" where
  "roles u = (let implicit = lower (user_type_value (us_user_type u))
     in implicit # filter (\<lambda>r. r \<noteq> implicit) (us_role_assignments u))"

definition is_active :: "user \<Rightarrow> bool" where
  "is_active u \<longleftrightarrow> us_status u = ''active''"

definition iam_emit ::
  "timestamp \<Rightarrow> string \<Rightarrow> uuid option \<Rightarrow> (string \<times> json) list \<Rightarrow> 'a iam_db_scheme \<Rightarrow> 'a iam_db_scheme" where
  "iam_emit now routing_key tenant_id data s = emit ''iam-service'' now routing_key tenant_id data s"

text \<open>The insert of a user, with the constraints of the table.\<close>

definition insert_user :: "user \<Rightarrow> iam_db \<Rightarrow> py_error + iam_db" where
  "insert_user u s =
     (if (us_user_type u \<in> {TENANT_ADMIN, COORDINATOR}) \<noteq> (us_tenant_id u \<noteq> None) then Inl DatabaseError
      else if \<exists>x \<in> set (users s). us_tenant_id x = us_tenant_id u \<and> us_email x = us_email u then Inl DatabaseError
      else if us_tenant_id u \<notin> insert None (Some ` tn_id ` set (tenants s)) then Inl DatabaseError
      else Inr (s\<lparr>users := users s @ [u]\<rparr>))"

definition new_user ::
  "uuid \<Rightarrow> timestamp \<Rightarrow> uuid option \<Rightarrow> user_type \<Rightarrow> string \<Rightarrow> string \<Rightarrow> string \<Rightarrow> string option \<Rightarrow> user" where
  "new_user i now tenant ty email pw_hash name phone =
     \<lparr>us_id = i, us_tenant_id = tenant, us_user_type = ty, us_email = email, us_password_hash = pw_hash,
      us_full_name = name, us_phone = phone, us_status = ''active'', us_role_assignments = [],
      us_latitude = None, us_longitude = None, us_assigned_tenant_id = None,
      us_created_at = now, us_updated_at = now\<rparr>"

definition user_registered_payload :: "user \<Rightarrow> (string \<times> json) list" where
  "user_registered_payload u =
     [(''user_id'', JUuid (us_id u)), (''tenant_id'', json_opt JUuid (us_tenant_id u)),
      (''user_type'', JStr (user_type_value (us_user_type u))), (''email'', JStr (us_email u)),
      (''full_name'', JStr (us_full_name u)), (''phone'', json_opt JStr (us_phone u)),
      (''roles'', JArr (map JStr (roles u))), (''is_active'', JBool (is_active u)),
      (''updated_at'', JTime (us_updated_at u))]"

datatype iam_error =
    IamRaised py_error
  | UserTypeNotAllowed
  | TENANT_SUSPENDED
  | USER_DISABLED
  | INVALID_CURRENT_PASSWORD

section \<open>Onboarding and registration\<close>

record tenant_onboard =
  to_name :: string
  to_slug :: string
  to_description :: "string option"
  to_admin_email :: string
  to_admin_password :: string
  to_admin_full_name :: string

definition onboard_tenant ::
  "crypto \<Rightarrow> timestamp \<Rightarrow> tenant_onboard \<Rightarrow> iam_db \<Rightarrow> iam_db \<times> (iam_error + tenant)" where
  "onboard_tenant cr now d s =
     (if to_slug d \<in> tn_slug ` set (tenants s) then (s, Inl (IamRaised DatabaseError))
      else
        (let t = \<lparr>tn_id = next_uuid s, tn_name = to_name d, tn_slug = to_slug d,
                  tn_description = to_description d, tn_status = ''active'', tn_latitude = None,
                  tn_longitude = None, tn_created_at = now\<rparr>;
             i = Suc (next_uuid s);
             admin = new_user i now (Some (tn_id t)) TENANT_ADMIN (to_admin_email d)
                       (hash_password cr i (to_admin_password d)) (to_admin_full_name d) None
         in case insert_user admin (s\<lparr>tenants := tenants s @ [t], next_uuid := Suc i\<rparr>) of
              Inl e \<Rightarrow> (s, Inl (IamRaised e))
            | Inr s1 \<Rightarrow>
                (iam_emit now ''iam.user.registered'' (Some (tn_id t)) (user_registered_payload admin)
                   (iam_emit now ''iam.tenant.created'' (Some (tn_id t))
                      [(''tenant_id'', JUuid (tn_id t)), (''name'', JStr (tn_name t)), (''slug'', JStr (tn_slug t))] s1),
                 Inr t)))"

record user_register =
  ug_email :: string
  ug_password :: string
  ug_full_name :: string
  ug_phone :: "string option"
  ug_user_type :: user_type
  ug_latitude :: "pyfloat option"
  ug_longitude :: "pyfloat option"

definition register_tenant_user ::
  "crypto \<Rightarrow> timestamp \<Rightarrow> tenant \<Rightarrow> user_register \<Rightarrow> iam_db \<Rightarrow> iam_db \<times> (iam_error + user)" where
  "register_tenant_user cr now t d s =
     (if ug_user_type d \<notin> set TENANT_USER_TYPES then (s, Inl UserTypeNotAllowed)
      else
        (let u = new_user (next_uuid s) now (Some (tn_id t)) (ug_user_type d) (ug_email d)
                   (hash_password cr (next_uuid s) (ug_password d)) (ug_full_name d) (ug_phone d)
         in case insert_user u (s\<lparr>next_uuid := Suc (next_uuid s)\<rparr>) of
              Inl e \<Rightarrow> (s, Inl (IamRaised e))
            | Inr s1 \<Rightarrow>
                (iam_emit now ''iam.user.registered'' (Some (tn_id t)) (user_registered_payload u) s1, Inr u)))"

text \<open>\<open>get_nearest_tenant_id\<close>. \<open>haversine\<close> stands for the floating-point formula of the loop body, the
  distance of a tenant from the position or the exception of \<open>math\<close>.\<close>

fun nearest_loop ::
  "(tenant \<Rightarrow> py_error + pyfloat) \<Rightarrow> tenant list \<Rightarrow> tenant option \<times> pyfloat \<Rightarrow> py_error + (tenant option \<times> pyfloat)" where
  "nearest_loop distance [] best = Inr best"
| "nearest_loop distance (t # ts) (nearest, min_dist) =
     (case distance t of
        Inl e \<Rightarrow> Inl e
      | Inr d \<Rightarrow> nearest_loop distance ts (if num_less d min_dist then (Some t, d) else (nearest, min_dist)))"

definition get_nearest_tenant_id ::
  "(tenant \<Rightarrow> pyfloat \<Rightarrow> pyfloat \<Rightarrow> py_error + pyfloat) \<Rightarrow> pyfloat \<Rightarrow> pyfloat \<Rightarrow> iam_db \<Rightarrow> py_error + uuid option" where
  "get_nearest_tenant_id haversine lat lon s =
     (case nearest_loop (\<lambda>t. haversine t lat lon)
             (filter (\<lambda>t. tn_status t = ''active'' \<and> tn_latitude t \<noteq> None) (tenants s)) (None, PInf) of
        Inl e \<Rightarrow> Inl e
      | Inr (nearest, _) \<Rightarrow> Inr (map_option tn_id nearest))"

definition register_global_user ::
  "crypto \<Rightarrow> (tenant \<Rightarrow> pyfloat \<Rightarrow> pyfloat \<Rightarrow> py_error + pyfloat) \<Rightarrow> timestamp \<Rightarrow> user_register \<Rightarrow> iam_db \<Rightarrow>
   iam_db \<times> (iam_error + user)" where
  "register_global_user cr haversine now d s =
     (if ug_user_type d \<notin> set GLOBAL_USER_TYPES then (s, Inl UserTypeNotAllowed)
      else (case (case (ug_latitude d, ug_longitude d) of
                    (Some lat, Some lon) \<Rightarrow> get_nearest_tenant_id haversine lat lon s
                  | _ \<Rightarrow> Inr None) of
          Inl e \<Rightarrow> (s, Inl (IamRaised e))
        | Inr nearest \<Rightarrow>
            (let u = (new_user (next_uuid s) now None (ug_user_type d) (ug_email d)
                        (hash_password cr (next_uuid s) (ug_password d)) (ug_full_name d) (ug_phone d))
                     \<lparr>us_latitude := ug_latitude d, us_longitude := ug_longitude d,
                      us_assigned_tenant_id := nearest\<rparr>
             in case insert_user u (s\<lparr>next_uuid := Suc (next_uuid s)\<rparr>) of
                  Inl e \<Rightarrow> (s, Inl (IamRaised e))
                | Inr s1 \<Rightarrow>
                    (iam_emit now ''iam.user.registered'' None (user_registered_payload u) s1, Inr u))))"

section \<open>Tokens\<close>

record token_pair =
  tp_access_token :: "(string \<times> json) list"
  tp_refresh_token :: string
  tp_expires_in :: int

definition ACCESS_TOKEN_TTL_MINUTES :: int where "ACCESS_TOKEN_TTL_MINUTES = 15"
definition REFRESH_TOKEN_TTL_DAYS :: int where "REFRESH_TOKEN_TTL_DAYS = 14"

text \<open>The claims \<open>create_access_token\<close> signs; the JOSE library writes times as whole seconds.\<close>

definition create_access_token ::
  "timestamp \<Rightarrow> uuid \<Rightarrow> uuid \<Rightarrow> string \<Rightarrow> string list \<Rightarrow> uuid option \<Rightarrow> (string \<times> json) list" where
  "create_access_token now jti user_id utype role_names tenant_id =
     [(''sub'', JUuid user_id), (''user_type'', JStr utype), (''roles'', JArr (map JStr role_names)),
      (''iss'', JStr ''rcp-iam''), (''aud'', JStr ''rcp-services''),
      (''iat'', JInt (now div 1000000)),
      (''exp'', JInt ((now + ACCESS_TOKEN_TTL_MINUTES * 60 * 1000000) div 1000000)), (''jti'', JUuid jti)]
     @ (case tenant_id of None \<Rightarrow> [] | Some t \<Rightarrow> [(''tenant_id'', JUuid t)])"

definition issue_pair ::
  "crypto \<Rightarrow> timestamp \<Rightarrow> string \<Rightarrow> user \<Rightarrow> uuid option \<Rightarrow> iam_db \<Rightarrow> iam_db \<times> (iam_error + token_pair option)" where
  "issue_pair cr now raw u rotated_from s =
     (let effective_tenant_id = (case us_assigned_tenant_id u of Some t \<Rightarrow> Some t | None \<Rightarrow> us_tenant_id u);
          access = create_access_token now (next_uuid s) (us_id u) (user_type_value (us_user_type u)) (roles u)
                     effective_tenant_id
      in if sha256 cr raw \<in> rt_token_hash ` set (refresh_tokens s) then (s, Inl (IamRaised DatabaseError))
         else
           (s\<lparr>refresh_tokens := refresh_tokens s @
                [\<lparr>rt_id = Suc (next_uuid s), rt_user_id = us_id u, rt_token_hash = sha256 cr raw,
                  rt_expires_at = now + REFRESH_TOKEN_TTL_DAYS * 86400 * 1000000,
                  rt_rotated_from = rotated_from, rt_revoked_at = None\<rparr>],
              next_uuid := Suc (Suc (next_uuid s))\<rparr>,
            Inr (Some \<lparr>tp_access_token = access, tp_refresh_token = raw,
                       tp_expires_in = ACCESS_TOKEN_TTL_MINUTES * 60\<rparr>)))"

record login_request =
  lr_tenant_slug :: "string option"
  lr_email :: string
  lr_password :: string

definition login_user ::
  "crypto \<Rightarrow> timestamp \<Rightarrow> string \<Rightarrow> login_request \<Rightarrow> uuid option \<Rightarrow> iam_db \<Rightarrow>
   iam_db \<times> (iam_error + token_pair option)" where
  "login_user cr now raw d tenant s =
     (case find (\<lambda>u. us_tenant_id u = tenant \<and> us_email u = lr_email d) (users s) of
        None \<Rightarrow> (s, Inr None)
      | Some u \<Rightarrow>
          if \<not> verify_password cr (lr_password d) (us_password_hash u) then (s, Inr None)
          else if \<not> is_active u then (s, Inl USER_DISABLED)
          else issue_pair cr now raw u None s)"

definition login ::
  "crypto \<Rightarrow> timestamp \<Rightarrow> string \<Rightarrow> login_request \<Rightarrow> iam_db \<Rightarrow> iam_db \<times> (iam_error + token_pair option)" where
  "login cr now raw d s =
     (case lr_tenant_slug d of
        Some slug \<Rightarrow>
          (case find (\<lambda>t. tn_slug t = slug) (tenants s) of
             None \<Rightarrow> (s, Inr None)
           | Some t \<Rightarrow>
               if tn_status t \<noteq> ''active'' then (s, Inl TENANT_SUSPENDED)
               else login_user cr now raw d (Some (tn_id t)) s)
      | None \<Rightarrow> login_user cr now raw d None s)"

definition revoke :: "timestamp \<Rightarrow> refresh_token \<Rightarrow> refresh_token" where
  "revoke now t = t\<lparr>rt_revoked_at := Some now\<rparr>"

text \<open>\<open>refresh\<close>: the presented token and, when it succeeds, the fresh one.\<close>

definition refresh ::
  "crypto \<Rightarrow> timestamp \<Rightarrow> string \<Rightarrow> string \<Rightarrow> iam_db \<Rightarrow> iam_db \<times> (iam_error + token_pair option)" where
  "refresh cr now raw_token raw s =
     (case find (\<lambda>t. rt_token_hash t = sha256 cr raw_token) (refresh_tokens s) of
        None \<Rightarrow> (s, Inr None)
      | Some rec \<Rightarrow>
          if rt_expires_at rec < now then (s, Inr None)
          else if rt_revoked_at rec \<noteq> None then
            (s\<lparr>refresh_tokens := row_upd (\<lambda>t. rt_user_id t = rt_user_id rec) (revoke now) (refresh_tokens s)\<rparr>,
             Inr None)
          else (case row_get us_id (rt_user_id rec) (users s) of
              None \<Rightarrow> (s, Inr None)
            | Some u \<Rightarrow>
                if \<not> is_active u then (s, Inr None)
                else (case issue_pair cr now raw u (Some (rt_id rec))
                        (s\<lparr>refresh_tokens := row_upd (\<lambda>t. rt_id t = rt_id rec) (revoke now) (refresh_tokens s)\<rparr>) of
                    (s1, Inl e) \<Rightarrow> (s, Inl e)
                  | (s1, Inr p) \<Rightarrow> (s1, Inr p))))"

definition get_all_tenants :: "iam_db \<Rightarrow> tenant list" where
  "get_all_tenants s = tenants s"

definition list_tenant_locations :: "iam_db \<Rightarrow> tenant list" where
  "list_tenant_locations s =
     filter (\<lambda>t. tn_status t = ''active'' \<and> tn_latitude t \<noteq> None \<and> tn_longitude t \<noteq> None) (tenants s)"

section \<open>The user's own account\<close>

definition get_user_by_id :: "uuid \<Rightarrow> iam_db \<Rightarrow> user option" where
  "get_user_by_id uid s = row_get us_id uid (users s)"

definition put_user :: "user \<Rightarrow> iam_db \<Rightarrow> iam_db" where
  "put_user u s = s\<lparr>users := row_upd (\<lambda>x. us_id x = us_id u) (\<lambda>_. u) (users s)\<rparr>"

text \<open>The flush moves \<open>updated_at\<close> when a column changed.\<close>

definition touch_user :: "timestamp \<Rightarrow> user \<Rightarrow> user \<Rightarrow> user" where
  "touch_user now old u = (if u = old then old else u\<lparr>us_updated_at := now\<rparr>)"

text \<open>The event is built before the flush, so it carries the time of the previous write.\<close>

definition update_user_profile ::
  "timestamp \<Rightarrow> uuid \<Rightarrow> string option \<Rightarrow> string option \<Rightarrow> iam_db \<Rightarrow> iam_db \<times> user option" where
  "update_user_profile now uid full_name phone s =
     (case get_user_by_id uid s of
        None \<Rightarrow> (s, None)
      | Some u \<Rightarrow>
          (let u1 = u\<lparr>us_full_name := (case full_name of None \<Rightarrow> us_full_name u | Some n \<Rightarrow> n),
                      us_phone := (case phone of None \<Rightarrow> us_phone u | Some p \<Rightarrow> Some p)\<rparr>
           in (iam_emit now ''iam.user.updated'' (us_tenant_id u1) (user_registered_payload u1)
                 (put_user (touch_user now u u1) s),
               Some (touch_user now u u1))))"

text \<open>Revocation of the live refresh tokens of the users a condition selects.\<close>

definition revoke_live :: "timestamp \<Rightarrow> (uuid \<Rightarrow> bool) \<Rightarrow> iam_db \<Rightarrow> iam_db" where
  "revoke_live now owns s =
     s\<lparr>refresh_tokens := row_upd (\<lambda>t. owns (rt_user_id t) \<and> rt_revoked_at t = None) (revoke now) (refresh_tokens s)\<rparr>"

definition change_user_password ::
  "crypto \<Rightarrow> timestamp \<Rightarrow> uuid \<Rightarrow> string \<Rightarrow> string \<Rightarrow> iam_db \<Rightarrow> iam_db \<times> (iam_error + bool)" where
  "change_user_password cr now uid current_password new_password s =
     (case get_user_by_id uid s of
        None \<Rightarrow> (s, Inr False)
      | Some u \<Rightarrow>
          if \<not> verify_password cr current_password (us_password_hash u) then (s, Inl INVALID_CURRENT_PASSWORD)
          else
            (revoke_live now (\<lambda>x. x = us_id u)
               (put_user (touch_user now u (u\<lparr>us_password_hash := hash_password cr (next_uuid s) new_password\<rparr>))
                  (s\<lparr>next_uuid := Suc (next_uuid s)\<rparr>)),
             Inr True))"

end
