(* ===== verification/IAM_Api.thy ===== *)
theory IAM_Api
  imports IAM
begin

text \<open>
  The super-admin console (\<open>services/admin.py\<close>, \<open>api/routes_admin.py\<close>), the guards of the identity
  service (\<open>api/deps.py\<close>), its public routes (\<open>api/routes_auth.py\<close>) and the bootstrap script; \<open>iam_step\<close>
  is the service as a transition system.
\<close>

section \<open>Console: tenants\<close>

record tenant_summary =
  ts_tenant :: tenant
  ts_user_count :: nat
  ts_admin_count :: nat
  ts_coordinator_count :: nat

definition tenant_rollup :: "iam_db \<Rightarrow> tenant \<Rightarrow> tenant_summary" where
  "tenant_rollup s t =
     \<lparr>ts_tenant = t,
      ts_user_count = row_count (\<lambda>u. us_tenant_id u = Some (tn_id t)) (users s),
      ts_admin_count = row_count (\<lambda>u. us_tenant_id u = Some (tn_id t) \<and> us_user_type u = TENANT_ADMIN) (users s),
      ts_coordinator_count = row_count (\<lambda>u. us_tenant_id u = Some (tn_id t) \<and> us_user_type u = COORDINATOR) (users s)\<rparr>"

definition list_tenants :: "iam_db \<Rightarrow> tenant_summary list" where
  "list_tenants s = map (tenant_rollup s) (sort_key (\<lambda>t. - tn_created_at t) (tenants s))"

definition get_tenant :: "uuid \<Rightarrow> iam_db \<Rightarrow> tenant_summary option" where
  "get_tenant tid s = map_option (tenant_rollup s) (row_get tn_id tid (tenants s))"

definition set_tenant_status ::
  "timestamp \<Rightarrow> uuid \<Rightarrow> string \<Rightarrow> iam_db \<Rightarrow> iam_db \<times> tenant option" where
  "set_tenant_status now tid status s =
     (case row_get tn_id tid (tenants s) of
        None \<Rightarrow> (s, None)
      | Some t \<Rightarrow>
          (let t' = t\<lparr>tn_status := status\<rparr>;
               s1 = s\<lparr>tenants := row_upd (\<lambda>x. tn_id x = tn_id t') (\<lambda>_. t') (tenants s)\<rparr>;
               s2 = (if status \<in> {''suspended'', ''disabled'', ''inactive''} then
                       iam_emit now ''iam.tenant.deactivated'' (Some (tn_id t))
                         [(''tenant_id'', JUuid (tn_id t)), (''status'', JStr status), (''occurred_at'', JTime now)]
                         (revoke_live now (\<lambda>i. i \<in> us_id ` {u \<in> set (users s). us_tenant_id u = Some tid}) s1)
                     else s1)
           in (iam_emit now ''iam.tenant.status_changed'' (Some (tn_id t))
                 [(''tenant_id'', JUuid (tn_id t)), (''status'', JStr status)] s2,
               Some t')))"

section \<open>Console: users\<close>

text \<open>SQL \<open>LIKE\<close> with its two wildcards and the backslash escape.\<close>

fun sql_like :: "string \<Rightarrow> string \<Rightarrow> bool" where
  "sql_like [] s = (s = [])"
| "sql_like (p # ps) s =
     (if p = CHR ''%'' then
        sql_like ps s \<or> (case s of [] \<Rightarrow> False | c # cs \<Rightarrow> sql_like (p # ps) cs)
      else (case s of
          [] \<Rightarrow> False
        | c # cs \<Rightarrow>
            if p = CHR ''_'' then sql_like ps cs
            else if p = CHR 0x5C then (case ps of [] \<Rightarrow> False | q # qs \<Rightarrow> q = c \<and> sql_like qs cs)
            else p = c \<and> sql_like ps cs))"

record user_query =
  uq_tenant_id :: "uuid option"
  uq_user_type :: "user_type option"
  uq_status :: "string option"
  uq_q :: "string option"
  uq_scope :: "string option"
  uq_limit :: nat
  uq_offset :: nat

definition user_matches :: "user_query \<Rightarrow> user \<Rightarrow> bool" where
  "user_matches q u \<longleftrightarrow>
     (case uq_tenant_id q of None \<Rightarrow> True | Some t \<Rightarrow> us_tenant_id u = Some t) \<and>
     (if uq_scope q = Some ''global'' then us_tenant_id u = None
      else if uq_scope q = Some ''tenant'' then us_tenant_id u \<noteq> None else True) \<and>
     (case uq_user_type q of None \<Rightarrow> True | Some ty \<Rightarrow> us_user_type u = ty) \<and>
     (case uq_status q of None \<Rightarrow> True | Some st \<Rightarrow> us_status u = st) \<and>
     (case uq_q q of
        None \<Rightarrow> True
      | Some text \<Rightarrow> text = [] \<or>
          (let pattern = ''%'' @ lower text @ ''%''
           in sql_like pattern (lower (us_email u)) \<or> sql_like pattern (lower (us_full_name u))))"

definition list_users :: "user_query \<Rightarrow> iam_db \<Rightarrow> (user \<times> string option) list" where
  "list_users q s =
     map (\<lambda>u. (u, (case us_tenant_id u of None \<Rightarrow> None | Some t \<Rightarrow> map_option tn_slug (row_get tn_id t (tenants s)))))
       (take (uq_limit q) (drop (uq_offset q)
         (sort_key (\<lambda>u. - us_created_at u) (filter (user_matches q) (users s)))))"

text \<open>The payload of \<open>set_user_status\<close> is written out in the source; it differs from
  \<open>user_registered_payload\<close> in the status entry and the time.\<close>

definition status_payload :: "timestamp \<Rightarrow> user \<Rightarrow> (string \<times> json) list" where
  "status_payload now u =
     [(''user_id'', JUuid (us_id u)), (''tenant_id'', json_opt JUuid (us_tenant_id u)),
      (''user_type'', JStr (user_type_value (us_user_type u))), (''email'', JStr (us_email u)),
      (''full_name'', JStr (us_full_name u)), (''phone'', json_opt JStr (us_phone u)),
      (''status'', JStr (us_status u)), (''roles'', JArr (map JStr (roles u))),
      (''is_active'', JBool (is_active u)), (''updated_at'', JTime now)]"

definition set_user_status ::
  "timestamp \<Rightarrow> uuid \<Rightarrow> string \<Rightarrow> iam_db \<Rightarrow> iam_db \<times> user option" where
  "set_user_status now uid status s =
     (case row_get us_id uid (users s) of
        None \<Rightarrow> (s, None)
      | Some u \<Rightarrow>
          (let u' = touch_user now u (u\<lparr>us_status := status\<rparr>);
               s1 = put_user u' s;
               s2 = (if status \<in> {''disabled'', ''banned''} then
                       iam_emit now ''iam.user.deactivated'' (us_tenant_id u)
                         [(''user_id'', JUuid (us_id u)), (''tenant_id'', json_opt JUuid (us_tenant_id u)),
                          (''status'', JStr status), (''occurred_at'', JTime now)]
                         (revoke_live now (\<lambda>i. i = us_id u) s1)
                     else s1)
           in (iam_emit now ''iam.user.updated'' (us_tenant_id u) (status_payload now u') s2, Some u')))"

record super_admin_create =
  sa_email :: string
  sa_password :: string
  sa_full_name :: string
  sa_phone :: "string option"

definition create_super_admin ::
  "crypto \<Rightarrow> timestamp \<Rightarrow> super_admin_create \<Rightarrow> iam_db \<Rightarrow> iam_db \<times> (iam_error + user option)" where
  "create_super_admin cr now d s =
     (if \<exists>x \<in> set (users s). us_tenant_id x = None \<and> us_email x = sa_email d then (s, Inr None)
      else
        (let u = new_user (next_uuid s) now None SUPER_ADMIN (sa_email d)
                   (hash_password cr (next_uuid s) (sa_password d)) (sa_full_name d) (sa_phone d)
         in case insert_user u (s\<lparr>next_uuid := Suc (next_uuid s)\<rparr>) of
              Inl e \<Rightarrow> (s, Inl (IamRaised e))
            | Inr s1 \<Rightarrow>
                (iam_emit now ''iam.user.registered'' None (user_registered_payload u) s1, Inr (Some u))))"

definition admin_reset_user_password ::
  "crypto \<Rightarrow> timestamp \<Rightarrow> uuid \<Rightarrow> string \<Rightarrow> iam_db \<Rightarrow> iam_db \<times> user option" where
  "admin_reset_user_password cr now uid new_password s =
     (case row_get us_id uid (users s) of
        None \<Rightarrow> (s, None)
      | Some u \<Rightarrow>
          (let u' = touch_user now u (u\<lparr>us_password_hash := hash_password cr (next_uuid s) new_password\<rparr>)
           in (revoke_live now (\<lambda>i. i = us_id u) (put_user u' (s\<lparr>next_uuid := Suc (next_uuid s)\<rparr>)), Some u')))"

section \<open>Console: statistics\<close>

record platform_stats_row =
  st_total_tenants :: nat
  st_active_tenants :: nat
  st_suspended_tenants :: nat
  st_total_users :: nat
  st_global_users :: nat
  st_tenant_users :: nat
  st_super_admins :: nat
  st_users_by_type :: "(user_type \<times> nat) list"
  st_tenants_last_30d :: nat
  st_users_last_30d :: nat

definition platform_stats :: "timestamp \<Rightarrow> iam_db \<Rightarrow> platform_stats_row" where
  "platform_stats now s =
     (let tenants_by_status = group_counts tn_status (tenants s);
          by_type = group_counts us_user_type (users s);
          since = now - 30 * 86400 * 1000000
      in \<lparr>st_total_tenants = sum_list (map snd tenants_by_status),
          st_active_tenants = count_of tenants_by_status ''active'',
          st_suspended_tenants = count_of tenants_by_status ''suspended'',
          st_total_users = sum_list (map snd by_type),
          st_global_users = sum_list (map (count_of by_type) [VOLUNTEER, VICTIM, DONATOR]),
          st_tenant_users = sum_list (map (count_of by_type) [TENANT_ADMIN, COORDINATOR]),
          st_super_admins = count_of by_type SUPER_ADMIN,
          st_users_by_type = by_type,
          st_tenants_last_30d = row_count (\<lambda>t. since \<le> tn_created_at t) (tenants s),
          st_users_last_30d = row_count (\<lambda>u. since \<le> us_created_at u) (users s)\<rparr>)"

section \<open>Guards\<close>

record iam_principal =
  ip_user_id :: json
  ip_tenant_id :: json
  ip_user_type :: json
  ip_roles :: "json list"

text \<open>\<open>current_principal\<close>: \<open>None\<close> when the request carries no credentials, \<open>Some None\<close> when
  \<open>decode_access_token\<close> raises.\<close>

definition current_principal :: "(string \<times> json) list option option \<Rightarrow> http_error + iam_principal" where
  "current_principal credentials =
     (case credentials of
        None \<Rightarrow> Inl (HTTPException 401 ''Missing bearer token'')
      | Some None \<Rightarrow> Inl (HTTPException 401 ''Invalid token'')
      | Some (Some claims) \<Rightarrow>
          (case dindex claims ''sub'' of
             Inl _ \<Rightarrow> Inl (HTTPException 500 ''Internal Server Error'')
           | Inr sub \<Rightarrow>
               (case py_iter (dget_default claims ''roles'' (JArr [])) of
                  Inl _ \<Rightarrow> Inl (HTTPException 500 ''Internal Server Error'')
                | Inr rs \<Rightarrow>
                    Inr \<lparr>ip_user_id = sub, ip_tenant_id = dget_default claims ''tenant_id'' JNull,
                         ip_user_type = dget_default claims ''user_type'' JNull, ip_roles = rs\<rparr>)))"

definition require_super_admin :: "iam_principal \<Rightarrow> http_error + iam_principal" where
  "require_super_admin p =
     (if JStr ''super_admin'' \<notin> set (ip_roles p) then Inl (HTTPException 403 ''Super admin access required'')
      else Inr p)"

section \<open>Public routes\<close>

definition uncaught_500 :: http_error where
  "uncaught_500 = HTTPException 500 ''Internal Server Error''"

definition invalid_422 :: http_error where
  "invalid_422 = HTTPException 422 ''validation error''"

text \<open>\<open>^[a-z0-9-]{3,80}$\<close>.\<close>

definition slug_ok :: "string \<Rightarrow> bool" where
  "slug_ok s \<longleftrightarrow> 3 \<le> length s \<and> length s \<le> 80 \<and>
     list_all (\<lambda>c. (CHR ''a'' \<le> c \<and> c \<le> CHR ''z'') \<or> (CHR ''0'' \<le> c \<and> c \<le> CHR ''9'') \<or> c = CHR ''-'') s"

definition route_onboard_tenant ::
  "crypto \<Rightarrow> timestamp \<Rightarrow> tenant_onboard \<Rightarrow> iam_db \<Rightarrow> iam_db \<times> (http_error + tenant)" where
  "route_onboard_tenant cr now d s =
     (if \<not> slug_ok (to_slug d) \<or> length (to_admin_password d) < 10 then (s, Inl invalid_422)
      else if to_slug d \<in> tn_slug ` set (tenants s) then (s, Inl (HTTPException 409 ''Slug already taken''))
      else (case onboard_tenant cr now d s of
          (s', Inl _) \<Rightarrow> (s', Inl uncaught_500)
        | (s', Inr t) \<Rightarrow> (s', Inr t)))"

definition route_register_global ::
  "crypto \<Rightarrow> (tenant \<Rightarrow> pyfloat \<Rightarrow> pyfloat \<Rightarrow> py_error + pyfloat) \<Rightarrow> timestamp \<Rightarrow> user_register \<Rightarrow> iam_db \<Rightarrow>
   iam_db \<times> (http_error + user)" where
  "route_register_global cr haversine now d s =
     (if length (ug_password d) < 10 then (s, Inl invalid_422)
      else if ug_user_type d \<notin> set GLOBAL_USER_TYPES then
        (s, Inl (HTTPException 422 ''Mobile registration accepts VOLUNTEER, VICTIM only''))
      else if \<exists>x \<in> set (users s). us_tenant_id x = None \<and> us_email x = ug_email d then
        (s, Inl (HTTPException 409 ''Email already registered''))
      else (case register_global_user cr haversine now d s of
          (s', Inl _) \<Rightarrow> (s', Inl uncaught_500)
        | (s', Inr u) \<Rightarrow> (s', Inr u)))"

definition route_register_tenant_user ::
  "crypto \<Rightarrow> timestamp \<Rightarrow> string \<Rightarrow> user_register \<Rightarrow> iam_db \<Rightarrow> iam_db \<times> (http_error + user)" where
  "route_register_tenant_user cr now slug d s =
     (if length (ug_password d) < 10 then (s, Inl invalid_422)
      else if ug_user_type d \<noteq> COORDINATOR then
        (s, Inl (HTTPException 422 ''Tenant registration accepts COORDINATOR only''))
      else (case find (\<lambda>t. tn_slug t = slug) (tenants s) of
          None \<Rightarrow> (s, Inl (HTTPException 404 ''Tenant not found''))
        | Some t \<Rightarrow>
            if tn_status t \<noteq> ''active'' then (s, Inl (HTTPException 404 ''Tenant not found''))
            else if \<exists>x \<in> set (users s). us_tenant_id x = Some (tn_id t) \<and> us_email x = ug_email d then
              (s, Inl (HTTPException 409 ''Email already registered''))
            else (case register_tenant_user cr now t d s of
                (s', Inl _) \<Rightarrow> (s', Inl uncaught_500)
              | (s', Inr u) \<Rightarrow> (s', Inr u))))"

definition route_login ::
  "crypto \<Rightarrow> timestamp \<Rightarrow> string \<Rightarrow> login_request \<Rightarrow> iam_db \<Rightarrow> iam_db \<times> (http_error + token_pair)" where
  "route_login cr now raw d s =
     (case login cr now raw d s of
        (s', Inr None) \<Rightarrow> (s', Inl (HTTPException 401 ''Invalid credentials''))
      | (s', Inr (Some pair)) \<Rightarrow> (s', Inr pair)
      | (s', Inl USER_DISABLED) \<Rightarrow>
          (s', Inl (HTTPException 403 ''Your account has been disabled or banned. Please contact support.''))
      | (s', Inl TENANT_SUSPENDED) \<Rightarrow>
          (s', Inl (HTTPException 403 ''Your organization/tenant account has been suspended. Please contact support.''))
      | (s', Inl _) \<Rightarrow> (s', Inl uncaught_500))"

definition route_refresh ::
  "crypto \<Rightarrow> timestamp \<Rightarrow> string \<Rightarrow> string \<Rightarrow> iam_db \<Rightarrow> iam_db \<times> (http_error + token_pair)" where
  "route_refresh cr now raw_token raw s =
     (case refresh cr now raw_token raw s of
        (s', Inr None) \<Rightarrow> (s', Inl (HTTPException 401 ''Invalid refresh token''))
      | (s', Inr (Some pair)) \<Rightarrow> (s', Inr pair)
      | (s', Inl _) \<Rightarrow> (s', Inl uncaught_500))"

definition route_get_me :: "iam_principal \<Rightarrow> iam_db \<Rightarrow> http_error + user" where
  "route_get_me p s =
     (case uuid_of (ip_user_id p) of
        Inl _ \<Rightarrow> Inl uncaught_500
      | Inr uid \<Rightarrow> (case get_user_by_id uid s of
            None \<Rightarrow> Inl (HTTPException 404 ''User not found'')
          | Some u \<Rightarrow> Inr u))"

definition route_update_me ::
  "timestamp \<Rightarrow> iam_principal \<Rightarrow> string option \<Rightarrow> string option \<Rightarrow> iam_db \<Rightarrow> iam_db \<times> (http_error + user)" where
  "route_update_me now p full_name phone s =
     (if (case full_name of None \<Rightarrow> False | Some n \<Rightarrow> length n < 2 \<or> 200 < length n) \<or>
         (case phone of None \<Rightarrow> False | Some n \<Rightarrow> 30 < length n) then (s, Inl invalid_422)
      else (case uuid_of (ip_user_id p) of
          Inl _ \<Rightarrow> (s, Inl uncaught_500)
        | Inr uid \<Rightarrow>
            (case update_user_profile now uid full_name phone s of
               (s', None) \<Rightarrow> (s', Inl (HTTPException 404 ''User not found''))
             | (s', Some u) \<Rightarrow> (s', Inr u))))"

definition route_change_password ::
  "crypto \<Rightarrow> timestamp \<Rightarrow> iam_principal \<Rightarrow> string \<Rightarrow> string \<Rightarrow> iam_db \<Rightarrow> iam_db \<times> (http_error + unit)" where
  "route_change_password cr now p current_password new_password s =
     (if length new_password < 10 then (s, Inl invalid_422)
      else (case uuid_of (ip_user_id p) of
          Inl _ \<Rightarrow> (s, Inl uncaught_500)
        | Inr uid \<Rightarrow>
            (case change_user_password cr now uid current_password new_password s of
               (s', Inr True) \<Rightarrow> (s', Inr ())
             | (s', Inr False) \<Rightarrow> (s', Inl (HTTPException 404 ''User not found''))
             | (s', Inl INVALID_CURRENT_PASSWORD) \<Rightarrow> (s', Inl (HTTPException 400 ''Current password is incorrect''))
             | (s', Inl _) \<Rightarrow> (s', Inl uncaught_500))))"

section \<open>Console routes\<close>

definition route_update_tenant_status ::
  "timestamp \<Rightarrow> iam_principal \<Rightarrow> uuid \<Rightarrow> string \<Rightarrow> iam_db \<Rightarrow> iam_db \<times> (http_error + tenant_summary)" where
  "route_update_tenant_status now p tid status s =
     (case require_super_admin p of
        Inl e \<Rightarrow> (s, Inl e)
      | Inr _ \<Rightarrow>
          if status \<notin> {''active'', ''suspended''} then (s, Inl invalid_422)
          else (case set_tenant_status now tid status s of
              (s', None) \<Rightarrow> (s', Inl (HTTPException 404 ''Tenant not found''))
            | (s', Some t) \<Rightarrow> (s', Inr (tenant_rollup s' t))))"

definition route_get_tenant :: "iam_principal \<Rightarrow> uuid \<Rightarrow> iam_db \<Rightarrow> http_error + tenant_summary" where
  "route_get_tenant p tid s =
     andthen (require_super_admin p) (\<lambda>_.
       case get_tenant tid s of None \<Rightarrow> Inl (HTTPException 404 ''Tenant not found'') | Some t \<Rightarrow> Inr t)"

definition route_list_tenants :: "iam_principal \<Rightarrow> iam_db \<Rightarrow> http_error + tenant_summary list" where
  "route_list_tenants p s = andthen (require_super_admin p) (\<lambda>_. Inr (list_tenants s))"

definition route_platform_stats :: "timestamp \<Rightarrow> iam_principal \<Rightarrow> iam_db \<Rightarrow> http_error + platform_stats_row" where
  "route_platform_stats now p s = andthen (require_super_admin p) (\<lambda>_. Inr (platform_stats now s))"

definition route_list_users :: "iam_principal \<Rightarrow> user_query \<Rightarrow> iam_db \<Rightarrow> http_error + (user \<times> string option) list" where
  "route_list_users p q s =
     andthen (require_super_admin p) (\<lambda>_.
       if uq_scope q \<notin> {None, Some ''global'', Some ''tenant''} \<or> uq_limit q < 1 \<or> 500 < uq_limit q then Inl invalid_422
       else Inr (list_users q s))"

definition route_update_user_status ::
  "timestamp \<Rightarrow> iam_principal \<Rightarrow> uuid \<Rightarrow> string \<Rightarrow> iam_db \<Rightarrow> iam_db \<times> (http_error + user)" where
  "route_update_user_status now p uid status s =
     (case require_super_admin p of
        Inl e \<Rightarrow> (s, Inl e)
      | Inr _ \<Rightarrow>
          if status \<notin> {''active'', ''disabled''} then (s, Inl invalid_422)
          else if JUuid uid = ip_user_id p \<and> status = ''disabled'' then
            (s, Inl (HTTPException 400 ''You cannot disable your own account''))
          else (case set_user_status now uid status s of
              (s', None) \<Rightarrow> (s', Inl (HTTPException 404 ''User not found''))
            | (s', Some u) \<Rightarrow> (s', Inr u)))"

definition route_create_super_admin ::
  "crypto \<Rightarrow> timestamp \<Rightarrow> iam_principal \<Rightarrow> super_admin_create \<Rightarrow> iam_db \<Rightarrow> iam_db \<times> (http_error + user)" where
  "route_create_super_admin cr now p d s =
     (case require_super_admin p of
        Inl e \<Rightarrow> (s, Inl e)
      | Inr _ \<Rightarrow>
          if length (sa_password d) < 10 then (s, Inl invalid_422)
          else (case create_super_admin cr now d s of
              (s', Inr None) \<Rightarrow> (s', Inl (HTTPException 409 ''Email already registered''))
            | (s', Inr (Some u)) \<Rightarrow> (s', Inr u)
            | (s', Inl _) \<Rightarrow> (s', Inl uncaught_500)))"

definition route_reset_user_password ::
  "crypto \<Rightarrow> timestamp \<Rightarrow> iam_principal \<Rightarrow> uuid \<Rightarrow> string \<Rightarrow> iam_db \<Rightarrow> iam_db \<times> (http_error + uuid)" where
  "route_reset_user_password cr now p uid new_password s =
     (case require_super_admin p of
        Inl e \<Rightarrow> (s, Inl e)
      | Inr _ \<Rightarrow>
          if length new_password < 10 then (s, Inl invalid_422)
          else (case admin_reset_user_password cr now uid new_password s of
              (s', None) \<Rightarrow> (s', Inl (HTTPException 404 ''User not found''))
            | (s', Some u) \<Rightarrow> (s', Inr uid)))"

section \<open>Bootstrap\<close>

text \<open>\<open>main\<close> of \<open>bootstrap_superadmin.py\<close> after its prompts: the exit code.\<close>

definition bootstrap_superadmin ::
  "crypto \<Rightarrow> timestamp \<Rightarrow> string \<Rightarrow> string \<Rightarrow> string \<Rightarrow> iam_db \<Rightarrow> iam_db \<times> int" where
  "bootstrap_superadmin cr now email password name s =
     (if email = [] then (s, 2)
      else if length password < 10 then (s, 2)
      else (case find (\<lambda>u. us_tenant_id u = None \<and> us_email u = email) (users s) of
          Some existing \<Rightarrow> (s, if us_user_type existing = SUPER_ADMIN then 0 else 1)
        | None \<Rightarrow>
            (case insert_user (new_user (next_uuid s) now None SUPER_ADMIN email
                                 (hash_password cr (next_uuid s) password) name None)
                    (s\<lparr>next_uuid := Suc (next_uuid s)\<rparr>) of
               Inl e \<Rightarrow> (s, 1)
             | Inr s1 \<Rightarrow> (s1, 0))))"

section \<open>The transition system\<close>

text \<open>A call by an anonymous client or by a principal that is no super admin, a call of the console,
  a run of the bootstrap script, or a drain of the outbox.\<close>

inductive iam_public :: "crypto \<Rightarrow> iam_db \<Rightarrow> iam_db \<Rightarrow> bool" for cr where
  pub_onboard: "route_onboard_tenant cr now d s = (s', res) \<Longrightarrow> iam_public cr s s'"
| pub_register: "route_register_global cr haversine now g s = (s', ures) \<Longrightarrow> iam_public cr s s'"
| pub_register_tenant: "route_register_tenant_user cr now slug g s = (s', ures) \<Longrightarrow> iam_public cr s s'"
| pub_login: "route_login cr now raw l s = (s', pres) \<Longrightarrow> iam_public cr s s'"
| pub_refresh: "route_refresh cr now old raw s = (s', pres) \<Longrightarrow> iam_public cr s s'"
| pub_update_me: "route_update_me now p fn ph s = (s', ures) \<Longrightarrow> iam_public cr s s'"
| pub_change_password: "route_change_password cr now p cur pw s = (s', cres) \<Longrightarrow> iam_public cr s s'"

inductive iam_console :: "crypto \<Rightarrow> iam_principal \<Rightarrow> iam_db \<Rightarrow> iam_db \<Rightarrow> bool" for cr p where
  con_tenant: "route_update_tenant_status now p tid status s = (s', res) \<Longrightarrow> iam_console cr p s s'"
| con_user: "route_update_user_status now p uid status s = (s', ures) \<Longrightarrow> iam_console cr p s s'"
| con_create: "route_create_super_admin cr now p d s = (s', ures) \<Longrightarrow> iam_console cr p s s'"
| con_reset: "route_reset_user_password cr now p uid pw s = (s', rres) \<Longrightarrow> iam_console cr p s s'"

inductive iam_step :: "crypto \<Rightarrow> iam_db \<Rightarrow> iam_db \<Rightarrow> bool" for cr where
  iam_pub: "iam_public cr s s' \<Longrightarrow> iam_step cr s s'"
| iam_con: "iam_console cr p s s' \<Longrightarrow> iam_step cr s s'"
| iam_boot: "bootstrap_superadmin cr now email pw name s = (s', code) \<Longrightarrow> iam_step cr s s'"
| iam_relay: "drain_once locked broker now (outbox s) = (ob, sent, n) \<Longrightarrow> iam_step cr s (s\<lparr>outbox := ob\<rparr>)"

end
