(* ===== verification/IAM_Inv.thy ===== *)
theory IAM_Inv
  imports IAM_Api
begin

text \<open>
  The invariant of the identity store: keys and unique constraints, the pairing of user type and
  tenancy, references, and that a live refresh token belongs to an active user of an active tenant.
  Every step keeps it.
\<close>

section \<open>The invariant\<close>

definition tenancy_ok :: "iam_db \<Rightarrow> user \<Rightarrow> bool" where
  "tenancy_ok s u \<longleftrightarrow>
     (us_user_type u \<in> {TENANT_ADMIN, COORDINATOR} \<longleftrightarrow> us_tenant_id u \<noteq> None) \<and>
     us_tenant_id u \<in> insert None (Some ` tn_id ` set (tenants s))"

text \<open>The account may hold live refresh tokens.\<close>

definition enabled :: "iam_db \<Rightarrow> user \<Rightarrow> bool" where
  "enabled s u \<longleftrightarrow> is_active u \<and>
     (\<forall>t \<in> set (tenants s). us_tenant_id u = Some (tn_id t) \<longrightarrow> tn_status t = ''active'')"

definition token_ok :: "iam_db \<Rightarrow> refresh_token \<Rightarrow> bool" where
  "token_ok s t \<longleftrightarrow>
     (\<exists>u \<in> set (users s). us_id u = rt_user_id t \<and> (rt_revoked_at t = None \<longrightarrow> enabled s u))"

definition iam_inv :: "iam_db \<Rightarrow> bool" where
  "iam_inv s \<longleftrightarrow>
     keyed tn_id (next_uuid s) (tenants s) \<and> keyed us_id (next_uuid s) (users s) \<and>
     keyed rt_id (next_uuid s) (refresh_tokens s) \<and>
     distinct (map tn_slug (tenants s)) \<and>
     distinct (map (\<lambda>u. (us_tenant_id u, us_email u)) (users s)) \<and>
     distinct (map rt_token_hash (refresh_tokens s)) \<and>
     (\<forall>u \<in> set (users s). tenancy_ok s u) \<and> (\<forall>t \<in> set (refresh_tokens s). token_ok s t)"

lemma iam_inv_token: "iam_inv s \<Longrightarrow> t \<in> set (refresh_tokens s) \<Longrightarrow> token_ok s t"
  by (simp add: iam_inv_def)

lemma token_owner:
  assumes "iam_inv s" "t \<in> set (refresh_tokens s)"
  obtains u where "u \<in> set (users s)" "us_id u = rt_user_id t" "rt_revoked_at t = None \<longrightarrow> enabled s u"
  using iam_inv_token [OF assms] unfolding token_ok_def by (elim bexE conjE)

lemma iam_inv_tenancy: "iam_inv s \<Longrightarrow> u \<in> set (users s) \<Longrightarrow> tenancy_ok s u"
  by (simp add: iam_inv_def)

lemma iam_emit_frame [simp]:
  "tenants (iam_emit now k t d s) = tenants s" "users (iam_emit now k t d s) = users s"
  "refresh_tokens (iam_emit now k t d s) = refresh_tokens s"
  "next_uuid (iam_emit now k t d s) = Suc (next_uuid s)"
  by (simp_all add: iam_emit_def emit_def build_envelope_def)

text \<open>The invariant depends on the tables, and on the counter only from below.\<close>

lemma iam_inv_cong:
  assumes "iam_inv s" "tenants s' = tenants s" "users s' = users s" "refresh_tokens s' = refresh_tokens s"
    and "next_uuid s \<le> next_uuid s'"
  shows "iam_inv s'"
  using assms
  by (auto simp: iam_inv_def tenancy_ok_def token_ok_def enabled_def keyed_def dest: order.strict_trans2)

lemma iam_inv_emit [simp]: "iam_inv s \<Longrightarrow> iam_inv (iam_emit now k t d s)"
  by (rule iam_inv_cong) auto

lemma iam_inv_draw: "iam_inv s \<Longrightarrow> next_uuid s \<le> n \<Longrightarrow> iam_inv (s\<lparr>next_uuid := n\<rparr>)"
  by (rule iam_inv_cong) auto

section \<open>Inserts\<close>

lemma insert_user_Inr:
  "insert_user u s = Inr s' \<Longrightarrow>
   s' = s\<lparr>users := users s @ [u]\<rparr> \<and> tenancy_ok s u \<and>
   (us_tenant_id u, us_email u) \<notin> (\<lambda>u. (us_tenant_id u, us_email u)) ` set (users s)"
  by (auto simp: insert_user_def tenancy_ok_def split: if_splits)

lemma insert_user_inv:
  assumes "insert_user u s1 = Inr s'" "iam_inv s1" "us_id u < next_uuid s1" "us_id u \<notin> us_id ` set (users s1)"
  shows "iam_inv s'"
proof -
  note i = insert_user_Inr [OF assms(1)]
  have "token_ok s' t" if "token_ok s1 t" for t
    using that i by (auto simp: token_ok_def enabled_def)
  then show ?thesis
    using assms(2-4) i by (auto simp: iam_inv_def keyed_def tenancy_ok_def)
qed

lemma fresh_key: "keyed key n rows \<Longrightarrow> n \<le> k \<Longrightarrow> k \<notin> key ` set rows"
  by (auto simp: keyed_def)

text \<open>A user inserted under the next number drawn.\<close>

lemma insert_fresh_inv:
  assumes "insert_user u (s\<lparr>next_uuid := Suc (next_uuid s)\<rparr>) = Inr s'" "iam_inv s" "us_id u = next_uuid s"
  shows "iam_inv s'"
  using assms(1) iam_inv_draw [OF assms(2), of "Suc (next_uuid s)"]
proof (rule insert_user_inv)
  show "us_id u \<notin> us_id ` set (users (s\<lparr>next_uuid := Suc (next_uuid s)\<rparr>))"
    using fresh_key [of us_id "next_uuid s" "users s"] assms(2,3) by (simp add: iam_inv_def)
qed (use assms(3) in simp_all)

lemma add_tenant_inv:
  assumes "iam_inv s" "tn_id t = next_uuid s" "tn_slug t \<notin> tn_slug ` set (tenants s)" "next_uuid s < n"
  shows "iam_inv (s\<lparr>tenants := tenants s @ [t], next_uuid := n\<rparr>)"
proof -
  let ?s = "s\<lparr>tenants := tenants s @ [t], next_uuid := n\<rparr>"
  have no: "us_tenant_id u \<noteq> Some (tn_id t)" if "u \<in> set (users s)" for u
  proof
    assume "us_tenant_id u = Some (tn_id t)"
    moreover have "us_tenant_id u \<in> insert None (Some ` tn_id ` set (tenants s))"
      using assms(1) that by (simp add: iam_inv_def tenancy_ok_def)
    ultimately have "next_uuid s \<in> tn_id ` set (tenants s)" using assms(2) by auto
    then show False using fresh_key [of tn_id "next_uuid s" "tenants s"] assms(1) by (simp add: iam_inv_def)
  qed
  have "token_ok ?s x" if "x \<in> set (refresh_tokens s)" for x
    using assms(1) that no by (fastforce simp: iam_inv_def token_ok_def enabled_def)
  moreover have "tenancy_ok ?s u" if "u \<in> set (users s)" for u
    using assms(1) that by (auto simp: iam_inv_def tenancy_ok_def)
  ultimately show ?thesis
    using assms by (auto simp: iam_inv_def keyed_def dest: order.strict_trans)
qed

section \<open>Tokens\<close>

lemma revoke_simps [simp]:
  "rt_id (revoke now t) = rt_id t" "rt_user_id (revoke now t) = rt_user_id t"
  "rt_token_hash (revoke now t) = rt_token_hash t" "rt_expires_at (revoke now t) = rt_expires_at t"
  "rt_revoked_at (revoke now t) = Some now"
  by (simp_all add: revoke_def)

lemma revoke_inv:
  assumes "iam_inv s"
  shows "iam_inv (s\<lparr>refresh_tokens := row_upd p (revoke now) (refresh_tokens s)\<rparr>)"
proof -
  have "token_ok (s\<lparr>refresh_tokens := ts\<rparr>) = token_ok s" "tenancy_ok (s\<lparr>refresh_tokens := ts\<rparr>) = tenancy_ok s" for ts
    by (auto simp: token_ok_def enabled_def tenancy_ok_def)
  moreover have "token_ok s (revoke now t)" if "token_ok s t" for t
    using that by (auto simp: token_ok_def)
  ultimately show ?thesis
    using assms by (auto simp: iam_inv_def keyed_def map_key_row_upd set_row_upd)
qed

lemma issue_pair_cases:
  assumes "issue_pair cr now raw u rf s = (s', res)"
  obtains (clash) "s' = s" "res = Inl (IamRaised DatabaseError)"
  | (issued) pair t where "sha256 cr raw \<notin> rt_token_hash ` set (refresh_tokens s)"
      "s' = s\<lparr>refresh_tokens := refresh_tokens s @ [t], next_uuid := Suc (Suc (next_uuid s))\<rparr>"
      "rt_id t = Suc (next_uuid s)" "rt_user_id t = us_id u" "rt_token_hash t = sha256 cr raw"
      "rt_revoked_at t = None" "rt_expires_at t = now + REFRESH_TOKEN_TTL_DAYS * 86400 * 1000000"
      "tp_access_token pair = create_access_token now (next_uuid s) (us_id u) (user_type_value (us_user_type u))
         (roles u) (case us_assigned_tenant_id u of Some t \<Rightarrow> Some t | None \<Rightarrow> us_tenant_id u)"
      "tp_refresh_token pair = raw" "res = Inr (Some pair)"
proof (cases "sha256 cr raw \<in> rt_token_hash ` set (refresh_tokens s)")
  case True
  then show ?thesis using assms clash by (simp add: issue_pair_def)
next
  case False
  then show ?thesis using assms by (auto simp: issue_pair_def intro!: issued [OF False])
qed

lemma issue_pair_inv:
  assumes "issue_pair cr now raw u rf s = (s', res)" "iam_inv s" "u \<in> set (users s)" "enabled s u"
  shows "iam_inv s'"
  using assms(1)
proof (cases rule: issue_pair_cases)
  case (issued pair t)
  have "token_ok s' t" using assms(3,4) issued by (auto simp: token_ok_def enabled_def)
  moreover have "token_ok s' x" if "token_ok s x" for x
    using that issued(2) by (auto simp: token_ok_def enabled_def)
  moreover have "keyed rt_id (Suc (Suc (next_uuid s))) (refresh_tokens s @ [t])"
    using assms(2) issued(3) by (force simp: iam_inv_def keyed_def)
  ultimately show ?thesis
    using assms(2) issued
    by (auto simp: iam_inv_def tenancy_ok_def intro: keyed_mono)
qed (use assms(2) in simp)

section \<open>Updates\<close>

lemma touch_user_simps [simp]:
  "us_id (touch_user now u u') = us_id u'" "us_tenant_id (touch_user now u u') = us_tenant_id u'"
  "us_user_type (touch_user now u u') = us_user_type u'" "us_email (touch_user now u u') = us_email u'"
  "us_status (touch_user now u u') = us_status u'" "is_active (touch_user now u u') = is_active u'"
  "us_password_hash (touch_user now u u') = us_password_hash u'"
  by (auto simp: touch_user_def is_active_def)

text \<open>A user rewritten under the same identity; when the account is not enabled afterwards, its tokens
  have to be revoked.\<close>

lemma put_user_inv:
  assumes "iam_inv s" "old \<in> set (users s)" "us_id u = us_id old" "us_tenant_id u = us_tenant_id old"
    and "us_user_type u = us_user_type old" "us_email u = us_email old"
    and "\<And>t. t \<in> set (refresh_tokens s) \<Longrightarrow> rt_user_id t = us_id u \<Longrightarrow> rt_revoked_at t = None \<Longrightarrow> is_active u"
  shows "iam_inv (put_user u s)"
proof -
  let ?s = "put_user u s" and ?f = "\<lambda>x. if us_id x = us_id u then u else x"
  have k: "keyed us_id (next_uuid s) (users s)" using assms(1) by (simp add: iam_inv_def)
  have old: "x = old" if "x \<in> set (users s)" "us_id x = us_id u" for x
    using keyed_unique [OF k that(1) assms(2)] that(2) assms(3) by simp
  have us: "users ?s = map ?f (users s)" by (simp add: put_user_def row_upd_def)
  have "map (\<lambda>u. (us_tenant_id u, us_email u)) (users ?s) = map (\<lambda>u. (us_tenant_id u, us_email u)) (users s)"
    using map_proj_put [OF k assms(2,3), of "\<lambda>u. (us_tenant_id u, us_email u)"] assms(4,6)
    by (simp add: put_user_def)
  then have em: "distinct (map (\<lambda>u. (us_tenant_id u, us_email u)) (users ?s))"
    using assms(1) by (simp add: iam_inv_def)
  have "keyed us_id (next_uuid s) (users ?s)" using keyed_put [OF k assms(2,3)] by (simp add: put_user_def)
  moreover have "tenancy_ok ?s x" if "x \<in> set (users ?s)" for x
  proof -
    have "tenancy_ok s u" using iam_inv_tenancy [OF assms(1,2)] assms(4,5) by (simp add: tenancy_ok_def)
    then have "tenancy_ok s x" using that iam_inv_tenancy [OF assms(1)] unfolding us by auto
    then show ?thesis by (simp add: tenancy_ok_def put_user_def)
  qed
  moreover have "token_ok ?s t" if t: "t \<in> set (refresh_tokens s)" for t
  proof -
    obtain x where x: "x \<in> set (users s)" "us_id x = rt_user_id t" "rt_revoked_at t = None \<longrightarrow> enabled s x"
      by (rule token_owner [OF assms(1) t])
    have en: "enabled s x \<Longrightarrow> x \<noteq> old \<Longrightarrow> enabled ?s x" by (simp add: enabled_def put_user_def)
    show ?thesis
    proof (cases "us_id x = us_id u")
      case True
      then have "x = old" using old x(1) by simp
      then have "rt_revoked_at t = None \<longrightarrow> enabled ?s u"
        using assms(7) [OF t] True x(2,3) assms(4) by (simp add: enabled_def put_user_def)
      moreover have "u \<in> set (users ?s)" using x(1) True unfolding us by force
      ultimately show ?thesis unfolding token_ok_def using True x(2) by (intro bexI [of _ u]) simp_all
    next
      case False
      then have "x \<noteq> old" using assms(3) by auto
      moreover have "x \<in> set (users ?s)" using x(1) False unfolding us by force
      ultimately show ?thesis unfolding token_ok_def using x(2,3) en by (intro bexI [of _ x]) simp_all
    qed
  qed
  ultimately show ?thesis
    using assms(1) em by (simp add: iam_inv_def put_user_def)
qed

lemma set_tenant_inv:
  assumes "iam_inv s" "t \<in> set (tenants s)" "t' = t\<lparr>tn_status := status\<rparr>"
    and "\<And>x u. x \<in> set (refresh_tokens s) \<Longrightarrow> u \<in> set (users s) \<Longrightarrow> us_id u = rt_user_id x \<Longrightarrow>
      us_tenant_id u = Some (tn_id t) \<Longrightarrow> rt_revoked_at x = None \<Longrightarrow> status = ''active''"
  shows "iam_inv (s\<lparr>tenants := row_upd (\<lambda>x. tn_id x = tn_id t') (\<lambda>_. t') (tenants s)\<rparr>)"
proof -
  let ?ts = "row_upd (\<lambda>x. tn_id x = tn_id t') (\<lambda>_. t') (tenants s)"
  let ?s = "s\<lparr>tenants := ?ts\<rparr>"
  have k: "keyed tn_id (next_uuid s) (tenants s)" using assms(1) by (simp add: iam_inv_def)
  have id: "tn_id t' = tn_id t" "tn_slug t' = tn_slug t" "tn_status t' = status" using assms(3) by simp_all
  have m: "map tn_slug ?ts = map tn_slug (tenants s)" by (rule map_proj_put [OF k assms(2) id(1,2)])
  have ids: "tn_id ` set ?ts = tn_id ` set (tenants s)" by (metis map_key_put image_set)
  have k': "keyed tn_id (next_uuid s) ?ts" by (rule keyed_put [OF k assms(2) id(1)])
  have ten: "tenancy_ok ?s u" if "u \<in> set (users s)" for u
    using assms(1) that ids by (simp add: iam_inv_def tenancy_ok_def)
  have tok: "token_ok ?s x" if x: "x \<in> set (refresh_tokens s)" for x
  proof -
    obtain u where u: "u \<in> set (users s)" "us_id u = rt_user_id x" "rt_revoked_at x = None \<longrightarrow> enabled s u"
      by (rule token_owner [OF assms(1) x])
    have "tn_status y = ''active''" if r: "rt_revoked_at x = None" "y \<in> set ?ts" "us_tenant_id u = Some (tn_id y)" for y
      using r u(3) assms(4) [OF x u(1,2)] id by (auto simp: enabled_def set_row_upd split: if_splits)
    then have "rt_revoked_at x = None \<longrightarrow> enabled ?s u" using u(3) by (simp add: enabled_def)
    with u show ?thesis by (auto simp: token_ok_def)
  qed
  show ?thesis using assms(1) m k' ten tok by (simp add: iam_inv_def)
qed

section \<open>Every step keeps the invariant\<close>

lemma onboard_cases:
  assumes "onboard_tenant cr now d s = (s', res)"
  obtains (refused) e where "s' = s" "res = Inl e"
  | (onboarded) t u k1 t1 d1 k2 t2 d2 where "tn_id t = next_uuid s" "tn_slug t = to_slug d"
      "to_slug d \<notin> tn_slug ` set (tenants s)" "tn_status t = ''active''"
      "u = new_user (Suc (next_uuid s)) now (Some (tn_id t)) TENANT_ADMIN (to_admin_email d)
             (hash_password cr (Suc (next_uuid s)) (to_admin_password d)) (to_admin_full_name d) None"
      "insert_user u (s\<lparr>tenants := tenants s @ [t], next_uuid := Suc (Suc (next_uuid s))\<rparr>) =
         Inr (s\<lparr>tenants := tenants s @ [t], next_uuid := Suc (Suc (next_uuid s)), users := users s @ [u]\<rparr>)"
      "s' = iam_emit now k2 t2 d2 (iam_emit now k1 t1 d1
         (s\<lparr>tenants := tenants s @ [t], next_uuid := Suc (Suc (next_uuid s)), users := users s @ [u]\<rparr>))"
      "res = Inr t"
proof (cases "to_slug d \<in> tn_slug ` set (tenants s)")
  case True
  then show ?thesis using assms refused by (auto simp: onboard_tenant_def)
next
  case False
  define t where "t = \<lparr>tn_id = next_uuid s, tn_name = to_name d, tn_slug = to_slug d,
    tn_description = to_description d, tn_status = ''active'', tn_latitude = None,
    tn_longitude = None, tn_created_at = now\<rparr>"
  define u where "u = new_user (Suc (next_uuid s)) now (Some (tn_id t)) TENANT_ADMIN (to_admin_email d)
             (hash_password cr (Suc (next_uuid s)) (to_admin_password d)) (to_admin_full_name d) None"
  let ?s1 = "s\<lparr>tenants := tenants s @ [t], next_uuid := Suc (Suc (next_uuid s))\<rparr>"
  have eq: "onboard_tenant cr now d s = (case insert_user u ?s1 of
      Inl e \<Rightarrow> (s, Inl (IamRaised e))
    | Inr s1 \<Rightarrow>
        (iam_emit now ''iam.user.registered'' (Some (tn_id t)) (user_registered_payload u)
           (iam_emit now ''iam.tenant.created'' (Some (tn_id t))
              [(''tenant_id'', JUuid (tn_id t)), (''name'', JStr (tn_name t)), (''slug'', JStr (tn_slug t))] s1),
         Inr t))"
    using False unfolding onboard_tenant_def t_def u_def by (simp add: Let_def)
  show ?thesis
  proof (cases "insert_user u ?s1")
    case (Inl e)
    then show ?thesis using assms eq refused by auto
  next
    case (Inr s1)
    have s1: "s1 = ?s1\<lparr>users := users s @ [u]\<rparr>" using insert_user_Inr [OF Inr] by simp
    show ?thesis
      using assms eq Inr s1 False by (auto intro!: onboarded [of t u] simp: t_def u_def)
  qed
qed

lemma new_user_simps [simp]:
  "us_id (new_user i now t ty em pw n ph) = i" "us_tenant_id (new_user i now t ty em pw n ph) = t"
  "us_user_type (new_user i now t ty em pw n ph) = ty" "us_email (new_user i now t ty em pw n ph) = em"
  "us_status (new_user i now t ty em pw n ph) = ''active''"
  by (simp_all add: new_user_def)

lemma onboard_inv:
  assumes "onboard_tenant cr now d s = (s', res)" "iam_inv s"
  shows "iam_inv s'"
  using assms(1)
proof (cases rule: onboard_cases)
  case (onboarded t u k1 t1 d1 k2 t2 d2)
  have i: "iam_inv (s\<lparr>tenants := tenants s @ [t], next_uuid := Suc (Suc (next_uuid s))\<rparr>)"
    using onboarded by (intro add_tenant_inv [OF assms(2)]) auto
  have "us_id u \<notin> us_id ` set (users s)"
    using fresh_key [of us_id "next_uuid s" "users s" "Suc (next_uuid s)"] assms(2) onboarded(5)
    by (simp add: iam_inv_def)
  then have "iam_inv (s\<lparr>tenants := tenants s @ [t], next_uuid := Suc (Suc (next_uuid s)), users := users s @ [u]\<rparr>)"
    using onboarded(5) by (intro insert_user_inv [OF onboarded(6) i]) simp_all
  then show ?thesis by (simp add: onboarded(7))
qed (use assms(2) in simp)

lemma register_tenant_inv:
  "register_tenant_user cr now t d s = (s', res) \<Longrightarrow> iam_inv s \<Longrightarrow> iam_inv s'"
  by (auto simp: register_tenant_user_def Let_def split: if_splits sum.splits intro!: iam_inv_emit intro: insert_fresh_inv)

lemma register_global_inv:
  "register_global_user cr haversine now d s = (s', res) \<Longrightarrow> iam_inv s \<Longrightarrow> iam_inv s'"
  by (auto simp: register_global_user_def Let_def split: if_splits sum.splits option.splits intro!: iam_inv_emit intro: insert_fresh_inv)

lemma create_super_admin_inv:
  "create_super_admin cr now d s = (s', res) \<Longrightarrow> iam_inv s \<Longrightarrow> iam_inv s'"
  by (auto simp: create_super_admin_def Let_def split: if_splits sum.splits intro!: iam_inv_emit intro: insert_fresh_inv)

lemma bootstrap_inv:
  "bootstrap_superadmin cr now email pw name s = (s', code) \<Longrightarrow> iam_inv s \<Longrightarrow> iam_inv s'"
  by (auto simp: bootstrap_superadmin_def split: if_splits sum.splits option.splits intro!: iam_inv_emit intro: insert_fresh_inv)

lemma login_user_cases:
  assumes "login_user cr now raw d tenant s = (s', res)"
  obtains (refused) "s' = s" "res = Inr None \<or> res = Inl USER_DISABLED"
  | (checked) u where "u \<in> set (users s)" "us_tenant_id u = tenant" "us_email u = lr_email d"
      "verify_password cr (lr_password d) (us_password_hash u)" "is_active u"
      "issue_pair cr now raw u None s = (s', res)"
proof (cases "find (\<lambda>u. us_tenant_id u = tenant \<and> us_email u = lr_email d) (users s)")
  case None
  then show ?thesis using assms refused by (auto simp: login_user_def)
next
  case (Some u)
  then have "u \<in> set (users s)" "us_tenant_id u = tenant" "us_email u = lr_email d"
    by (auto simp: find_Some_iff)
  then show ?thesis using assms Some refused checked by (auto simp: login_user_def split: if_splits)
qed

lemma login_cases:
  assumes "login cr now raw d s = (s', res)"
  obtains (refused) "s' = s" "res = Inr None \<or> res = Inl USER_DISABLED \<or> res = Inl TENANT_SUSPENDED"
  | (portal) slug t u where "lr_tenant_slug d = Some slug" "t \<in> set (tenants s)" "tn_slug t = slug"
      "tn_status t = ''active''" "u \<in> set (users s)" "us_tenant_id u = Some (tn_id t)" "us_email u = lr_email d"
      "verify_password cr (lr_password d) (us_password_hash u)" "is_active u"
      "issue_pair cr now raw u None s = (s', res)"
  | (mobile) u where "lr_tenant_slug d = None" "u \<in> set (users s)" "us_tenant_id u = None"
      "us_email u = lr_email d" "verify_password cr (lr_password d) (us_password_hash u)" "is_active u"
      "issue_pair cr now raw u None s = (s', res)"
proof (cases "lr_tenant_slug d")
  case None
  then have "login_user cr now raw d None s = (s', res)" using assms by (simp add: login_def)
  then show ?thesis by (cases rule: login_user_cases) (use refused mobile None in auto)
next
  case (Some slug)
  show ?thesis
  proof (cases "find (\<lambda>t. tn_slug t = slug) (tenants s)")
    case None
    then show ?thesis using assms Some refused by (auto simp: login_def)
  next
    case t: (Some t)
    then have m: "t \<in> set (tenants s)" "tn_slug t = slug" by (auto simp: find_Some_iff)
    show ?thesis
    proof (cases "tn_status t = ''active''")
      case True
      then have "login_user cr now raw d (Some (tn_id t)) s = (s', res)" using assms Some t by (simp add: login_def)
      then show ?thesis by (cases rule: login_user_cases) (use refused portal [OF Some m True] in auto)
    qed (use assms Some t refused in \<open>auto simp: login_def\<close>)
  qed
qed

text \<open>A member of an active tenant, or of the global pool, who is active is enabled.\<close>

lemma member_enabled:
  assumes "iam_inv s" "is_active u" "t \<in> set (tenants s)" "tn_status t = ''active''" "us_tenant_id u = Some (tn_id t)"
  shows "enabled s u"
proof -
  have "x = t" if "x \<in> set (tenants s)" "tn_id x = tn_id t" for x
    using keyed_unique [OF _ that(1) assms(3) that(2)] assms(1) by (auto simp: iam_inv_def)
  then show ?thesis using assms(2,4,5) by (auto simp: enabled_def)
qed

lemma global_enabled: "is_active u \<Longrightarrow> us_tenant_id u = None \<Longrightarrow> enabled s u"
  by (simp add: enabled_def)

lemma login_inv:
  assumes "login cr now raw d s = (s', res)" "iam_inv s"
  shows "iam_inv s'"
  using assms(1)
proof (cases rule: login_cases)
  case (portal slug t u)
  then show ?thesis using issue_pair_inv [OF portal(10) assms(2)] member_enabled [OF assms(2)] by blast
next
  case (mobile u)
  then show ?thesis using issue_pair_inv [OF mobile(7) assms(2)] global_enabled by blast
qed (use assms(2) in simp)

lemma refresh_cases:
  assumes "refresh cr now raw_token raw s = (s', res)"
  obtains (refused) "s' = s" "res = Inr None \<or> res = Inl (IamRaised DatabaseError)"
  | (reused) t where "t \<in> set (refresh_tokens s)" "rt_token_hash t = sha256 cr raw_token" "now \<le> rt_expires_at t"
      "rt_revoked_at t \<noteq> None" "res = Inr None"
      "s' = s\<lparr>refresh_tokens := row_upd (\<lambda>x. rt_user_id x = rt_user_id t) (revoke now) (refresh_tokens s)\<rparr>"
  | (rotated) t u pair where "t \<in> set (refresh_tokens s)" "rt_token_hash t = sha256 cr raw_token"
      "now \<le> rt_expires_at t" "rt_revoked_at t = None" "row_get us_id (rt_user_id t) (users s) = Some u" "is_active u"
      "issue_pair cr now raw u (Some (rt_id t))
         (s\<lparr>refresh_tokens := row_upd (\<lambda>x. rt_id x = rt_id t) (revoke now) (refresh_tokens s)\<rparr>) = (s', Inr (Some pair))"
      "res = Inr (Some pair)"
proof (cases "find (\<lambda>t. rt_token_hash t = sha256 cr raw_token) (refresh_tokens s)")
  case None
  then show ?thesis using assms refused by (simp add: refresh_def)
next
  case (Some t)
  then have m: "t \<in> set (refresh_tokens s)" "rt_token_hash t = sha256 cr raw_token" by (auto simp: find_Some_iff)
  show ?thesis
  proof (cases "rt_expires_at t < now \<or> rt_revoked_at t \<noteq> None \<or> row_get us_id (rt_user_id t) (users s) = None \<or>
      \<not> is_active (the (row_get us_id (rt_user_id t) (users s)))")
    case True
    then show ?thesis
      using assms Some refused reused [OF m]
      by (cases "row_get us_id (rt_user_id t) (users s)") (auto simp: refresh_def split: if_splits)
  next
    case False
    then obtain u where u: "now \<le> rt_expires_at t" "rt_revoked_at t = None"
      "row_get us_id (rt_user_id t) (users s) = Some u" "is_active u" by auto
    let ?s = "s\<lparr>refresh_tokens := row_upd (\<lambda>x. rt_id x = rt_id t) (revoke now) (refresh_tokens s)\<rparr>"
    obtain s1 r where i: "issue_pair cr now raw u (Some (rt_id t)) ?s = (s1, r)" by fastforce
    from i show ?thesis
    proof (cases rule: issue_pair_cases)
      case clash
      then show ?thesis using assms Some u i refused by (simp add: refresh_def)
    next
      case (issued pair x)
      then show ?thesis using assms Some u i rotated [OF m u] by (auto simp: refresh_def)
    qed
  qed
qed

lemma refresh_inv:
  assumes "refresh cr now raw_token raw s = (s', res)" "iam_inv s"
  shows "iam_inv s'"
  using assms(1)
proof (cases rule: refresh_cases)
  case (reused t)
  then show ?thesis using revoke_inv [OF assms(2)] by simp
next
  case (rotated t u pair)
  obtain x where x: "x \<in> set (users s)" "us_id x = rt_user_id t" "rt_revoked_at t = None \<longrightarrow> enabled s x"
    by (rule token_owner [OF assms(2) rotated(1)])
  have u: "u \<in> set (users s)" "us_id u = rt_user_id t" using row_get_Some [OF rotated(5)] by auto
  have "u = x" using keyed_unique [of us_id _ "users s", OF _ u(1) x(1)] u(2) x(2) assms(2) by (auto simp: iam_inv_def)
  then have "enabled s u" using x(3) rotated(4) by simp
  then show ?thesis
    using u(1) by (intro issue_pair_inv [OF rotated(7) revoke_inv [OF assms(2)]]) (simp_all add: enabled_def)
qed (use assms(2) in simp)

lemma user_row: "row_get us_id uid (users s) = Some u \<Longrightarrow> u \<in> set (users s) \<and> us_id u = uid"
  by (rule row_get_Some)

lemma revoke_live_put: "revoke_live now owns (put_user u s) = put_user u (revoke_live now owns s)"
  by (simp add: revoke_live_def put_user_def)

lemma revoke_live_inv: "iam_inv s \<Longrightarrow> iam_inv (revoke_live now owns s)"
  unfolding revoke_live_def by (rule revoke_inv)

lemma revoke_live_frame [simp]:
  "users (revoke_live now owns s) = users s" "tenants (revoke_live now owns s) = tenants s"
  "next_uuid (revoke_live now owns s) = next_uuid s"
  by (simp_all add: revoke_live_def)

lemma revoke_live_dead:
  "t \<in> set (refresh_tokens (revoke_live now owns s)) \<Longrightarrow> owns (rt_user_id t) \<Longrightarrow> rt_revoked_at t \<noteq> None"
  by (auto simp: revoke_live_def set_row_upd split: if_splits)

text \<open>An update that keeps identity and status.\<close>

lemma put_same_inv:
  assumes "iam_inv s" "old \<in> set (users s)" "us_id u = us_id old" "us_tenant_id u = us_tenant_id old"
    and "us_user_type u = us_user_type old" "us_email u = us_email old" "us_status u = us_status old"
  shows "iam_inv (put_user u s)"
proof (rule put_user_inv [OF assms(1-6)])
  fix t assume t: "t \<in> set (refresh_tokens s)" "rt_user_id t = us_id u" "rt_revoked_at t = None"
  obtain x where x: "x \<in> set (users s)" "us_id x = rt_user_id t" "rt_revoked_at t = None \<longrightarrow> enabled s x"
    by (rule token_owner [OF assms(1) t(1)])
  have "x = old"
    using keyed_unique [of us_id _ "users s", OF _ x(1) assms(2)] x(2) t(2) assms(1,3) by (auto simp: iam_inv_def)
  then show "is_active u" using x(3) t(3) assms(7) by (simp add: enabled_def is_active_def)
qed

lemma update_profile_inv:
  assumes "update_user_profile now uid fn ph s = (s', res)" "iam_inv s"
  shows "iam_inv s'"
proof (cases "get_user_by_id uid s")
  case None
  then show ?thesis using assms by (simp add: update_user_profile_def)
next
  case (Some u)
  then have "u \<in> set (users s)" by (auto simp: get_user_by_id_def dest: user_row)
  then show ?thesis
    using assms Some by (auto simp: update_user_profile_def Let_def intro!: iam_inv_emit put_same_inv [of s u])
qed

lemma change_password_inv:
  assumes "change_user_password cr now uid cur pw s = (s', res)" "iam_inv s"
  shows "iam_inv s'"
proof (cases "get_user_by_id uid s")
  case None
  then show ?thesis using assms by (simp add: change_user_password_def)
next
  case (Some u)
  then have "u \<in> set (users s)" by (auto simp: get_user_by_id_def dest: user_row)
  then show ?thesis
    using assms Some
    by (auto simp: change_user_password_def split: if_splits
        intro!: revoke_live_inv put_same_inv [of _ u] iam_inv_draw)
qed

lemma reset_password_inv:
  assumes "admin_reset_user_password cr now uid pw s = (s', res)" "iam_inv s"
  shows "iam_inv s'"
proof (cases "row_get us_id uid (users s)")
  case None
  then show ?thesis using assms by (simp add: admin_reset_user_password_def)
next
  case (Some u)
  then have "u \<in> set (users s)" by (auto dest: user_row)
  then show ?thesis
    using assms Some
    by (auto simp: admin_reset_user_password_def Let_def intro!: revoke_live_inv put_same_inv [of _ u] iam_inv_draw)
qed

lemma set_user_status_inv:
  assumes "set_user_status now uid status s = (s', res)" "iam_inv s" "status \<in> {''active'', ''disabled''}"
  shows "iam_inv s'"
proof (cases "row_get us_id uid (users s)")
  case None
  then show ?thesis using assms by (simp add: set_user_status_def)
next
  case (Some u)
  let ?u = "touch_user now u (u\<lparr>us_status := status\<rparr>)"
  have m: "u \<in> set (users s)" using Some by (auto dest: user_row)
  show ?thesis
  proof (cases "status = ''active''")
    case True
    then have "iam_inv (put_user ?u s)"
      using m by (intro put_user_inv [OF assms(2) m]) (auto simp: is_active_def)
    then show ?thesis using assms(1) Some True by (auto simp: set_user_status_def Let_def intro!: iam_inv_emit)
  next
    case False
    then have st: "status = ''disabled''" using assms(3) by simp
    have "iam_inv (put_user ?u (revoke_live now (\<lambda>i. i = us_id u) s))"
      using m revoke_live_dead [where owns = "\<lambda>i. i = us_id u" and now = now and s = s]
      by (intro put_user_inv [OF revoke_live_inv [OF assms(2)], of u]) (fastforce simp: is_active_def)+
    then show ?thesis
      using assms(1) Some st
      by (auto simp: set_user_status_def Let_def revoke_live_put intro!: iam_inv_emit)
  qed
qed

lemma set_tenant_status_inv:
  assumes "set_tenant_status now tid status s = (s', res)" "iam_inv s" "status \<in> {''active'', ''suspended''}"
  shows "iam_inv s'"
proof (cases "row_get tn_id tid (tenants s)")
  case None
  then show ?thesis using assms by (simp add: set_tenant_status_def)
next
  case (Some t)
  let ?t = "t\<lparr>tn_status := status\<rparr>"
  let ?owns = "\<lambda>i. i \<in> us_id ` {u \<in> set (users s). us_tenant_id u = Some tid}"
  have m: "t \<in> set (tenants s)" "tn_id t = tid" using row_get_Some [OF Some] by auto
  show ?thesis
  proof (cases "status = ''active''")
    case True
    then have "iam_inv (s\<lparr>tenants := row_upd (\<lambda>x. tn_id x = tn_id ?t) (\<lambda>_. ?t) (tenants s)\<rparr>)"
      by (intro set_tenant_inv [OF assms(2) m(1)]) auto
    then show ?thesis using assms(1) Some True by (auto simp: set_tenant_status_def Let_def intro!: iam_inv_emit)
  next
    case False
    then have st: "status = ''suspended''" using assms(3) by simp
    let ?r = "revoke_live now ?owns s"
    have "iam_inv (?r\<lparr>tenants := row_upd (\<lambda>x. tn_id x = tn_id ?t) (\<lambda>_. ?t) (tenants ?r)\<rparr>)"
    proof (rule set_tenant_inv [OF revoke_live_inv [OF assms(2)], where t = t and status = status])
      fix x u
      assume x: "x \<in> set (refresh_tokens ?r)" "u \<in> set (users ?r)" "us_id u = rt_user_id x"
        "us_tenant_id u = Some (tn_id t)" "rt_revoked_at x = None"
      then have "?owns (rt_user_id x)" using m(2) by force
      then show "status = ''active''" using revoke_live_dead [OF x(1)] x(5) by simp
    qed (use m in simp_all)
    moreover have "?r\<lparr>tenants := ts\<rparr> = revoke_live now ?owns (s\<lparr>tenants := ts\<rparr>)" for ts
      by (simp add: revoke_live_def)
    ultimately show ?thesis
      using assms(1) Some st by (auto simp: set_tenant_status_def Let_def intro!: iam_inv_emit)
  qed
qed


section \<open>The transition system\<close>

inductive_cases iam_stepE: "iam_step cr s s'"

text \<open>A public call is a call of one of the services, or leaves the store alone.\<close>

lemma iam_public_cases:
  assumes "iam_public cr s s'"
  obtains (same) "s' = s"
  | (onboard) now d res where "onboard_tenant cr now d s = (s', res)"
  | (global) haversine now g res where "register_global_user cr haversine now g s = (s', res)"
  | (member) now t g res where "register_tenant_user cr now t g s = (s', res)" "ug_user_type g = COORDINATOR"
      "t \<in> set (tenants s)" "tn_status t = ''active''"
  | (login) now raw l res where "login cr now raw l s = (s', res)"
  | (refresh) now old raw res where "refresh cr now old raw s = (s', res)"
  | (profile) now uid fn ph res where "update_user_profile now uid fn ph s = (s', res)"
  | (password) now uid cur pw res where "change_user_password cr now uid cur pw s = (s', res)"
  using assms
proof (cases rule: iam_public.cases)
  case (pub_onboard now d res)
  then show ?thesis
    using onboard same by (cases "onboard_tenant cr now d s") (auto simp: route_onboard_tenant_def split: if_splits sum.splits)
next
  case (pub_register haversine now g ures)
  then show ?thesis
    using global same
    by (cases "register_global_user cr haversine now g s") (auto simp: route_register_global_def split: if_splits sum.splits)
next
  case (pub_register_tenant now slug g ures)
  then show ?thesis
    using member same
    by (auto simp: route_register_tenant_user_def find_Some_iff nth_mem
        split: if_splits sum.splits option.splits prod.splits)
next
  case (pub_login now raw l pres)
  then show ?thesis
    using login by (cases "login cr now raw l s") (auto simp: route_login_def split: sum.splits option.splits iam_error.splits)
next
  case (pub_refresh now old raw pres)
  then show ?thesis
    using refresh by (cases "refresh cr now old raw s") (auto simp: route_refresh_def split: sum.splits option.splits)
next
  case (pub_update_me now p fn ph ures)
  then show ?thesis
    using profile same by (auto simp: route_update_me_def split: if_splits sum.splits option.splits prod.splits)
next
  case (pub_change_password now p cur pw cres)
  then show ?thesis
    using password same
    by (auto simp: route_change_password_def split: if_splits sum.splits bool.splits iam_error.splits prod.splits)
qed

text \<open>A console call changes nothing unless the principal is a super admin.\<close>

lemma iam_console_cases:
  assumes "iam_console cr p s s'"
  obtains (same) "s' = s"
  | (tenant) now tid status res where "set_tenant_status now tid status s = (s', res)"
      "status \<in> {''active'', ''suspended''}" "JStr ''super_admin'' \<in> set (ip_roles p)"
  | (user) now uid status res where "set_user_status now uid status s = (s', res)"
      "status \<in> {''active'', ''disabled''}" "JStr ''super_admin'' \<in> set (ip_roles p)"
  | (create) now d res where "create_super_admin cr now d s = (s', res)" "JStr ''super_admin'' \<in> set (ip_roles p)"
  | (reset) now uid pw res where "admin_reset_user_password cr now uid pw s = (s', res)"
      "JStr ''super_admin'' \<in> set (ip_roles p)"
  using assms
proof (cases rule: iam_console.cases)
  case (con_tenant now tid status res)
  then show ?thesis
    using tenant same
    by (auto simp: route_update_tenant_status_def require_super_admin_def split: if_splits option.splits prod.splits)
next
  case (con_user now uid status ures)
  then show ?thesis
    using user same
    by (auto simp: route_update_user_status_def require_super_admin_def split: if_splits option.splits prod.splits)
next
  case (con_create now d ures)
  then show ?thesis
    using create same
    by (auto simp: route_create_super_admin_def require_super_admin_def
        split: if_splits sum.splits option.splits prod.splits)
next
  case (con_reset now uid pw rres)
  then show ?thesis
    using reset same
    by (auto simp: route_reset_user_password_def require_super_admin_def split: if_splits option.splits prod.splits)
qed

lemma iam_public_inv: "iam_public cr s s' \<Longrightarrow> iam_inv s \<Longrightarrow> iam_inv s'"
  by (erule iam_public_cases)
    (simp_all add: onboard_inv register_global_inv register_tenant_inv login_inv refresh_inv update_profile_inv
      change_password_inv)

lemma iam_console_inv: "iam_console cr p s s' \<Longrightarrow> iam_inv s \<Longrightarrow> iam_inv s'"
  by (erule iam_console_cases)
    (blast intro: set_tenant_status_inv set_user_status_inv create_super_admin_inv reset_password_inv)+

lemma iam_step_inv: "iam_step cr s s' \<Longrightarrow> iam_inv s \<Longrightarrow> iam_inv s'"
  by (erule iam_stepE)
    (auto intro: iam_public_inv iam_console_inv bootstrap_inv iam_inv_cong [of _ "_\<lparr>outbox := _\<rparr>"])

lemma empty_iam_inv: "iam_inv empty_iam_db"
  by (simp add: iam_inv_def empty_iam_db_def keyed_def)

lemma iam_reachable_inv: "(iam_step cr)\<^sup>*\<^sup>* empty_iam_db s \<Longrightarrow> iam_inv s"
  by (induction rule: rtranclp_induct) (auto intro: empty_iam_inv iam_step_inv)

end
