(* ===== verification/IAM_Correct.thy ===== *)
theory IAM_Correct
  imports IAM_Inv
begin

text \<open>
  The correctness of the identity service: reachable states respect the constraints, no public call
  creates a privileged account in somebody else's scope, tokens go to enabled accounts only, a refresh
  token works once, a changed password ends the sessions, issued tokens read back in every service, and
  the statistics of the console add up.
\<close>

section \<open>The history of refresh tokens\<close>

text \<open>Tokens are never deleted, and a revocation is never undone.\<close>

definition tokens_kept :: "iam_db \<Rightarrow> iam_db \<Rightarrow> bool" where
  "tokens_kept s s' \<longleftrightarrow>
     (\<forall>t \<in> set (refresh_tokens s). \<exists>t' \<in> set (refresh_tokens s').
        rt_token_hash t' = rt_token_hash t \<and> rt_user_id t' = rt_user_id t \<and> rt_expires_at t' = rt_expires_at t \<and>
        (rt_revoked_at t \<noteq> None \<longrightarrow> rt_revoked_at t' \<noteq> None))"

lemma tokens_kept_same: "refresh_tokens s' = refresh_tokens s \<Longrightarrow> tokens_kept s s'"
  by (auto simp: tokens_kept_def)

lemma tokens_kept_trans: "tokens_kept s1 s2 \<Longrightarrow> tokens_kept s2 s3 \<Longrightarrow> tokens_kept s1 s3"
  unfolding tokens_kept_def by (smt (verit))

lemma tokens_kept_append: "refresh_tokens s' = refresh_tokens s @ ts \<Longrightarrow> tokens_kept s s'"
  by (auto simp: tokens_kept_def)

lemma tokens_kept_revoke: "refresh_tokens s' = row_upd p (revoke now) (refresh_tokens s) @ ts \<Longrightarrow> tokens_kept s s'"
  unfolding tokens_kept_def
  by (intro ballI) (rule_tac x = "if p t then revoke now t else t" in bexI, auto simp: set_row_upd)

lemma insert_user_tokens: "insert_user u s = Inr s' \<Longrightarrow> refresh_tokens s' = refresh_tokens s"
  by (auto dest: insert_user_Inr)

lemma register_tokens:
  "onboard_tenant cr now d s = (s', res1) \<Longrightarrow> refresh_tokens s' = refresh_tokens s"
  "register_tenant_user cr now t g s = (s', res2) \<Longrightarrow> refresh_tokens s' = refresh_tokens s"
  "register_global_user cr haversine now g s = (s', res2) \<Longrightarrow> refresh_tokens s' = refresh_tokens s"
  "create_super_admin cr now a s = (s', res3) \<Longrightarrow> refresh_tokens s' = refresh_tokens s"
  "bootstrap_superadmin cr now email pw name s = (s', code) \<Longrightarrow> refresh_tokens s' = refresh_tokens s"
      apply (auto simp: onboard_tenant_def Let_def split: if_splits sum.splits dest: insert_user_tokens)
     apply (auto simp: register_tenant_user_def Let_def split: if_splits sum.splits dest: insert_user_tokens)
    apply (auto simp: register_global_user_def Let_def split: if_splits sum.splits dest: insert_user_tokens)
   apply (auto simp: create_super_admin_def Let_def split: if_splits sum.splits dest: insert_user_tokens)
  apply (auto simp: bootstrap_superadmin_def Let_def split: if_splits sum.splits option.splits dest: insert_user_tokens)
  done

lemma issue_pair_tokens:
  assumes "issue_pair cr now raw u rf s = (s', res)"
  shows "\<exists>ts. refresh_tokens s' = refresh_tokens s @ ts"
  using assms by (cases rule: issue_pair_cases) auto

lemma login_tokens: "login cr now raw d s = (s', res) \<Longrightarrow> tokens_kept s s'"
  by (erule login_cases) (auto dest!: issue_pair_tokens intro: tokens_kept_append tokens_kept_same)

lemma refresh_tokens_kept: "refresh cr now old raw s = (s', res) \<Longrightarrow> tokens_kept s s'"
  by (erule refresh_cases)
    (auto dest!: issue_pair_tokens intro: tokens_kept_revoke tokens_kept_revoke [where ts = "[]"] tokens_kept_same)

lemma revoke_live_tokens: "refresh_tokens s1 = refresh_tokens s \<Longrightarrow> tokens_kept s (revoke_live now owns s1)"
  by (rule tokens_kept_revoke [where ts = "[]"]) (simp add: revoke_live_def)

lemma put_user_tokens [simp]: "refresh_tokens (put_user u s) = refresh_tokens s"
  by (simp add: put_user_def)

lemma tokens_kept_emit [simp]: "tokens_kept s (iam_emit now k t d s') = tokens_kept s s'"
  by (simp add: tokens_kept_def)

lemma account_tokens:
  "update_user_profile now uid fn ph s = (s', res1) \<Longrightarrow> tokens_kept s s'"
  "change_user_password cr now uid cur pw s = (s', res2) \<Longrightarrow> tokens_kept s s'"
  "admin_reset_user_password cr now uid pw s = (s', res3) \<Longrightarrow> tokens_kept s s'"
  "set_user_status now uid status s = (s', res3) \<Longrightarrow> tokens_kept s s'"
  "set_tenant_status now uid status s = (s', res4) \<Longrightarrow> tokens_kept s s'"
  by (auto simp: update_user_profile_def change_user_password_def admin_reset_user_password_def set_user_status_def
      set_tenant_status_def Let_def revoke_live_tokens tokens_kept_same split: option.splits if_splits)

lemma iam_step_tokens: "iam_step cr s s' \<Longrightarrow> tokens_kept s s'"
proof (erule iam_stepE)
  show "iam_public cr s s' \<Longrightarrow> tokens_kept s s'"
    by (erule iam_public_cases)
      (auto dest: register_tokens intro: tokens_kept_same login_tokens refresh_tokens_kept account_tokens)
  show "iam_console cr p s s' \<Longrightarrow> tokens_kept s s'" for p
    by (erule iam_console_cases) (auto dest: register_tokens intro: tokens_kept_same account_tokens)
qed (auto dest: register_tokens intro: tokens_kept_same)

lemma iam_run_tokens: "(iam_step cr)\<^sup>*\<^sup>* s s' \<Longrightarrow> tokens_kept s s'"
  by (induction rule: rtranclp_induct) (auto intro: tokens_kept_same tokens_kept_trans iam_step_tokens)


section \<open>Issued tokens\<close>

lemma access_token_claims:
  "dget (create_access_token now jti uid ty rs tenant) ''sub'' = Some (JUuid uid)"
  "dget (create_access_token now jti uid ty rs tenant) ''user_type'' = Some (JStr ty)"
  "dget (create_access_token now jti uid ty rs tenant) ''roles'' = Some (JArr (map JStr rs))"
  "dget (create_access_token now jti uid ty rs tenant) ''exp'' = Some (JInt ((now + 900000000) div 1000000))"
  by (simp_all add: create_access_token_def ACCESS_TOKEN_TTL_MINUTES_def)

lemma access_token_principal:
  "principal_of (create_access_token now jti uid ty rs tenant) =
     Inr \<lparr>p_user_id = uid, p_tenant_id = tenant, p_user_type = JStr ty, p_roles = map JStr rs\<rparr>"
  by (cases tenant) (simp_all add: principal_of_def create_access_token_def Let_def dget_default_def)

lemma pair_principal:
  assumes "issue_pair cr now raw u rf s = (s', Inr (Some pair))"
  shows "dget (tp_access_token pair) ''sub'' = Some (JUuid (us_id u))"
    and "principal_of (tp_access_token pair) =
      Inr \<lparr>p_user_id = us_id u,
           p_tenant_id = (case us_assigned_tenant_id u of Some t \<Rightarrow> Some t | None \<Rightarrow> us_tenant_id u),
           p_user_type = JStr (user_type_value (us_user_type u)), p_roles = map JStr (roles u)\<rparr>"
  using assms by (cases rule: issue_pair_cases; simp add: access_token_claims access_token_principal)+

lemma refresh_owner:
  assumes "iam_inv s" "t \<in> set (refresh_tokens s)" "rt_revoked_at t = None"
    and "row_get us_id (rt_user_id t) (users s) = Some u"
  shows "u \<in> set (users s)" "us_id u = rt_user_id t" "enabled s u"
proof -
  obtain x where x: "x \<in> set (users s)" "us_id x = rt_user_id t" "rt_revoked_at t = None \<longrightarrow> enabled s x"
    by (rule token_owner [OF assms(1,2)])
  show u: "u \<in> set (users s)" "us_id u = rt_user_id t" using row_get_Some [OF assms(4)] by auto
  have "u = x" using keyed_unique [of us_id _ "users s", OF _ u(1) x(1)] u(2) x(2) assms(1) by (auto simp: iam_inv_def)
  then show "enabled s u" using x(3) assms(3) by simp
qed

text \<open>Both ways to a token pair end in an enabled account.\<close>

lemma login_pair:
  assumes "login cr now raw d s = (s', Inr (Some pair))" "iam_inv s"
  obtains u where "u \<in> set (users s)" "enabled s u" "us_email u = lr_email d"
    "verify_password cr (lr_password d) (us_password_hash u)"
    "us_tenant_id u = None \<longleftrightarrow> lr_tenant_slug d = None"
    "issue_pair cr now raw u None s = (s', Inr (Some pair))"
  using assms(1)
proof (cases rule: login_cases)
  case (portal slug t u)
  then show ?thesis using member_enabled [OF assms(2)] by (intro that [of u]) auto
next
  case (mobile u)
  then show ?thesis using global_enabled by (intro that [of u]) auto
qed auto

lemma refresh_pair:
  assumes "refresh cr now old raw s = (s', Inr (Some pair))" "iam_inv s"
  obtains u t where "u \<in> set (users s)" "enabled s u" "t \<in> set (refresh_tokens s)" "rt_token_hash t = sha256 cr old"
    "rt_user_id t = us_id u" "now \<le> rt_expires_at t" "rt_revoked_at t = None"
    "issue_pair cr now raw u (Some (rt_id t))
       (s\<lparr>refresh_tokens := row_upd (\<lambda>x. rt_id x = rt_id t) (revoke now) (refresh_tokens s)\<rparr>) = (s', Inr (Some pair))"
  using assms(1)
proof (cases rule: refresh_cases)
  case (rotated t u pair')
  note o = refresh_owner [OF assms(2) rotated(1,4,5)]
  show ?thesis using rotated o by (intro that [of u t]) auto
qed auto

text \<open>A revoked token is refused and, before it expires, ends every session of its owner.\<close>

lemma revoked_token_refused:
  assumes "iam_inv s" "t \<in> set (refresh_tokens s)" "rt_token_hash t = sha256 cr old" "rt_revoked_at t \<noteq> None"
    and "refresh cr now old raw s = (s', res)"
  shows "res = Inr None \<and>
    (now \<le> rt_expires_at t \<longrightarrow>
       (\<forall>x \<in> set (refresh_tokens s'). rt_user_id x = rt_user_id t \<longrightarrow> rt_revoked_at x \<noteq> None))"
proof -
  obtain y where y: "find (\<lambda>x. rt_token_hash x = sha256 cr old) (refresh_tokens s) = Some y"
    using assms(2,3) by (cases "find (\<lambda>x. rt_token_hash x = sha256 cr old) (refresh_tokens s)") (auto simp: find_None_iff)
  then have "y \<in> set (refresh_tokens s)" "rt_token_hash y = rt_token_hash t" using assms(3) by (auto simp: find_Some_iff)
  then have "y = t" using assms(1,2) by (auto simp: iam_inv_def distinct_map dest: inj_onD)
  with y have f: "find (\<lambda>x. rt_token_hash x = sha256 cr old) (refresh_tokens s) = Some t" by simp
  show ?thesis
    using assms(4,5) f by (auto simp: refresh_def set_row_upd split: if_splits)
qed

section \<open>Where accounts come from\<close>

definition same_account :: "user \<Rightarrow> user \<Rightarrow> bool" where
  "same_account v u \<longleftrightarrow> us_id u = us_id v \<and> us_user_type u = us_user_type v \<and> us_tenant_id u = us_tenant_id v \<and>
     us_email u = us_email v \<and> roles u = roles v \<and> us_status u = us_status v"

lemma same_account_refl [simp]: "same_account u u"
  by (simp add: same_account_def)

lemma old_account: "u \<in> set (users s) \<Longrightarrow> \<exists>v \<in> set (users s). same_account v u"
  using same_account_refl by blast

lemma role_assignments_touch [simp]:
  "us_role_assignments (touch_user now u u') = us_role_assignments u'"
  "us_role_assignments (new_user i now t ty em pw n ph) = []"
  by (simp_all add: touch_user_def new_user_def)

lemma roles_cong:
  "us_user_type u = us_user_type v \<Longrightarrow> us_role_assignments u = us_role_assignments v \<Longrightarrow> roles u = roles v"
  by (simp add: roles_def)

lemma put_user_accounts:
  assumes "u \<in> set (users (put_user w s))" "v \<in> set (users s)" "same_account v w"
  shows "\<exists>v \<in> set (users s). same_account v u"
  using assms old_account [of u s] by (auto simp: put_user_def set_row_upd split: if_splits)

text \<open>An account that is new in \<open>s'\<close>, of the kind an anonymous client may create.\<close>

definition unprivileged_account :: "iam_db \<Rightarrow> user \<Rightarrow> bool" where
  "unprivileged_account s u \<longleftrightarrow>
     us_user_type u \<noteq> SUPER_ADMIN \<and> us_role_assignments u = [] \<and>
     (us_user_type u = TENANT_ADMIN \<longrightarrow> us_tenant_id u \<notin> Some ` tn_id ` set (tenants s)) \<and>
     (us_user_type u = COORDINATOR \<longrightarrow>
        (\<exists>t \<in> set (tenants s). us_tenant_id u = Some (tn_id t) \<and> tn_status t = ''active''))"

lemma onboard_accounts:
  assumes "onboard_tenant cr now d s = (s', res)" "iam_inv s" "u \<in> set (users s')"
  shows "u \<in> set (users s) \<or> unprivileged_account s u"
  using assms(1)
proof (cases rule: onboard_cases)
  case (onboarded t a k1 t1 d1 k2 t2 d2)
  have "next_uuid s \<notin> tn_id ` set (tenants s)"
    using fresh_key [of tn_id "next_uuid s" "tenants s"] assms(2) by (simp add: iam_inv_def)
  then have "unprivileged_account s a" using onboarded(1,5) by (auto simp: unprivileged_account_def)
  then show ?thesis using assms(3) by (auto simp: onboarded(7))
qed (use assms(3) in simp)

lemma register_global_accounts:
  assumes "register_global_user cr haversine now g s = (s', res)" "u \<in> set (users s')"
  shows "u \<in> set (users s) \<or> unprivileged_account s u"
  using assms
  by (auto simp: register_global_user_def Let_def GLOBAL_USER_TYPES_def unprivileged_account_def
      split: if_splits sum.splits dest!: insert_user_Inr)

lemma register_tenant_accounts:
  assumes "register_tenant_user cr now t g s = (s', res)" "u \<in> set (users s')"
    and "ug_user_type g = COORDINATOR" "t \<in> set (tenants s)" "tn_status t = ''active''"
  shows "u \<in> set (users s) \<or> unprivileged_account s u"
  using assms
  by (auto simp: register_tenant_user_def Let_def unprivileged_account_def
      split: if_splits sum.splits dest!: insert_user_Inr)

lemma login_users: "login cr now raw d s = (s', res) \<Longrightarrow> users s' = users s"
  by (erule login_cases) (auto elim: issue_pair_cases)

lemma refresh_users: "refresh cr now old raw s = (s', res) \<Longrightarrow> users s' = users s"
  by (erule refresh_cases) (auto elim: issue_pair_cases)

lemma update_profile_accounts:
  assumes "update_user_profile now uid fn ph s = (s', res)" "u \<in> set (users s')"
  shows "\<exists>v \<in> set (users s). same_account v u"
proof (cases "row_get us_id uid (users s)")
  case None
  then show ?thesis using assms by (auto simp: update_user_profile_def get_user_by_id_def intro: old_account)
next
  case (Some v)
  then have "v \<in> set (users s)" by (auto dest: user_row)
  then show ?thesis
    using assms Some
    by (auto simp: update_user_profile_def get_user_by_id_def Let_def same_account_def [of v]
        intro!: put_user_accounts [where v = v] roles_cong)
qed

lemma change_password_accounts:
  assumes "change_user_password cr now uid cur pw s = (s', res)" "u \<in> set (users s')"
  shows "\<exists>v \<in> set (users s). same_account v u"
proof (cases "row_get us_id uid (users s)")
  case None
  then show ?thesis using assms by (auto simp: change_user_password_def get_user_by_id_def intro: old_account)
next
  case (Some v)
  let ?w = "touch_user now v (v\<lparr>us_password_hash := hash_password cr (next_uuid s) pw\<rparr>)"
  have v: "v \<in> set (users s)" using Some by (auto dest: user_row)
  have "same_account v ?w" by (auto simp: same_account_def intro: roles_cong)
  moreover have "u \<in> set (users s) \<or> u \<in> set (users (put_user ?w (s\<lparr>next_uuid := Suc (next_uuid s)\<rparr>)))"
    using assms Some by (auto simp: change_user_password_def get_user_by_id_def Let_def split: if_splits)
  ultimately show ?thesis
    using put_user_accounts [of u ?w "s\<lparr>next_uuid := Suc (next_uuid s)\<rparr>" v] v old_account by auto
qed

lemma public_accounts:
  assumes "iam_public cr s s'" "iam_inv s" "u \<in> set (users s')"
  shows "(\<exists>v \<in> set (users s). same_account v u) \<or> unprivileged_account s u"
proof -
  from assms(1) show ?thesis
    by (cases rule: iam_public_cases)
      (use old_account assms(2,3) onboard_accounts register_global_accounts register_tenant_accounts login_users refresh_users
        update_profile_accounts change_password_accounts in metis)+
qed

section \<open>Login decides\<close>

text \<open>The account a login request names, and that its tenant is suspended.\<close>

definition login_account :: "iam_db \<Rightarrow> login_request \<Rightarrow> user \<Rightarrow> bool" where
  "login_account s d u \<longleftrightarrow> u \<in> set (users s) \<and> us_email u = lr_email d \<and>
     (case lr_tenant_slug d of
        None \<Rightarrow> us_tenant_id u = None
      | Some slug \<Rightarrow> \<exists>t \<in> set (tenants s). tn_slug t = slug \<and> us_tenant_id u = Some (tn_id t))"

definition login_suspended :: "iam_db \<Rightarrow> login_request \<Rightarrow> bool" where
  "login_suspended s d \<longleftrightarrow> (\<exists>t \<in> set (tenants s). lr_tenant_slug d = Some (tn_slug t) \<and> tn_status t \<noteq> ''active'')"

lemma find_unique:
  assumes "r \<in> set rows" "P r" "\<And>x. x \<in> set rows \<Longrightarrow> P x \<Longrightarrow> x = r"
  shows "find P rows = Some r"
proof (cases "find P rows")
  case None
  then show ?thesis using assms(1,2) by (auto simp: find_None_iff)
next
  case (Some y)
  then have "y \<in> set rows" "P y" by (auto simp: find_Some_iff)
  then show ?thesis using assms(3) Some by simp
qed

lemma email_unique:
  assumes "iam_inv s" "u \<in> set (users s)" "v \<in> set (users s)" "us_tenant_id u = us_tenant_id v" "us_email u = us_email v"
  shows "u = v"
  using assms by (auto simp: iam_inv_def distinct_map dest: inj_onD)

lemma slug_unique:
  "iam_inv s \<Longrightarrow> t \<in> set (tenants s) \<Longrightarrow> x \<in> set (tenants s) \<Longrightarrow> tn_slug t = tn_slug x \<Longrightarrow> t = x"
  by (auto simp: iam_inv_def distinct_map dest: inj_onD)

lemma login_user_known:
  assumes "iam_inv s" "u \<in> set (users s)" "us_tenant_id u = tenant" "us_email u = lr_email d"
  shows "login_user cr now raw d tenant s =
    (if \<not> verify_password cr (lr_password d) (us_password_hash u) then (s, Inr None)
     else if \<not> is_active u then (s, Inl USER_DISABLED) else issue_pair cr now raw u None s)"
proof -
  have "find (\<lambda>u. us_tenant_id u = tenant \<and> us_email u = lr_email d) (users s) = Some u"
    using assms(2-4) by (intro find_unique) (auto intro: email_unique [OF assms(1)])
  then show ?thesis by (simp add: login_user_def)
qed

lemma login_known:
  assumes "iam_inv s" "login_account s d u"
  shows "login cr now raw d s =
    (if login_suspended s d then (s, Inl TENANT_SUSPENDED)
     else if \<not> verify_password cr (lr_password d) (us_password_hash u) then (s, Inr None)
     else if \<not> is_active u then (s, Inl USER_DISABLED) else issue_pair cr now raw u None s)"
proof (cases "lr_tenant_slug d")
  case None
  then show ?thesis
    using assms(2) login_user_known [OF assms(1)] by (simp add: login_def login_account_def login_suspended_def)
next
  case (Some slug)
  then obtain t where t: "t \<in> set (tenants s)" "tn_slug t = slug" "us_tenant_id u = Some (tn_id t)"
    using assms(2) by (auto simp: login_account_def)
  have "find (\<lambda>t. tn_slug t = slug) (tenants s) = Some t"
    using t by (intro find_unique) (auto intro: slug_unique [OF assms(1)])
  moreover have "login_suspended s d \<longleftrightarrow> tn_status t \<noteq> ''active''"
    unfolding login_suspended_def using Some t(1,2) slug_unique [OF assms(1) _ t(1)] by (metis option.inject)
  ultimately show ?thesis
    using Some assms(2) t(3) login_user_known [OF assms(1)] by (simp add: login_def login_account_def)
qed

lemma login_unknown:
  assumes "\<nexists>u. login_account s d u" "iam_inv s"
  shows "login cr now raw d s = (if login_suspended s d then (s, Inl TENANT_SUSPENDED) else (s, Inr None))"
proof (cases "lr_tenant_slug d")
  case None
  then have "find (\<lambda>u. us_tenant_id u = None \<and> us_email u = lr_email d) (users s) = None"
    using assms(1) by (auto simp: login_account_def find_None_iff)
  then show ?thesis using None by (simp add: login_def login_user_def login_suspended_def)
next
  case (Some slug)
  show ?thesis
  proof (cases "find (\<lambda>t. tn_slug t = slug) (tenants s)")
    case None
    then have "\<not> login_suspended s d" using Some by (auto simp: login_suspended_def find_None_iff)
    then show ?thesis using Some None by (simp add: login_def)
  next
    case t: (Some t)
    then have m: "t \<in> set (tenants s)" "tn_slug t = slug" by (auto simp: find_Some_iff)
    have "find (\<lambda>u. us_tenant_id u = Some (tn_id t) \<and> us_email u = lr_email d) (users s) = None"
      using assms(1) Some m by (auto simp: login_account_def find_None_iff)
    moreover have "login_suspended s d \<longleftrightarrow> tn_status t \<noteq> ''active''"
      unfolding login_suspended_def using Some m slug_unique [OF assms(2) _ m(1)] by (metis option.inject)
    ultimately show ?thesis using Some t by (simp add: login_def login_user_def)
  qed
qed

lemma issue_pair_fresh:
  assumes "sha256 cr raw \<notin> rt_token_hash ` set (refresh_tokens s)"
  shows "\<exists>s' pair. issue_pair cr now raw u rf s = (s', Inr (Some pair))"
  using assms by (simp add: issue_pair_def Let_def)

section \<open>Properties\<close>

text \<open>C3. In every reachable state of the identity service slugs, emails (per tenant, and in the global
  pool) and token hashes are unique, exactly the tenant roles have a tenant, which exists, every refresh
  token has an owner, and a live one belongs to an active account whose tenant is active.\<close>

theorem iam_reachable_sound:
  assumes "(iam_step cr)\<^sup>*\<^sup>* empty_iam_db s"
  shows "distinct (map tn_slug (tenants s)) \<and>
    distinct (map (\<lambda>u. (us_tenant_id u, us_email u)) (users s)) \<and>
    distinct (map rt_token_hash (refresh_tokens s)) \<and>
    (\<forall>u \<in> set (users s). (us_user_type u \<in> {TENANT_ADMIN, COORDINATOR} \<longleftrightarrow> us_tenant_id u \<noteq> None) \<and>
       us_tenant_id u \<in> insert None (Some ` tn_id ` set (tenants s))) \<and>
    (\<forall>x \<in> set (refresh_tokens s). \<exists>v \<in> set (users s). us_id v = rt_user_id x \<and>
       (rt_revoked_at x = None \<longrightarrow> is_active v \<and>
          (\<forall>t \<in> set (tenants s). us_tenant_id v = Some (tn_id t) \<longrightarrow> tn_status t = ''active'')))"
  using iam_reachable_inv [OF assms] unfolding iam_inv_def tenancy_ok_def token_ok_def enabled_def by blast

definition iam_demo_crypto :: crypto where
  "iam_demo_crypto = \<lparr>hash_password = (\<lambda>salt p. p), verify_password = (\<lambda>p h. p = h), sha256 = (\<lambda>raw. raw)\<rparr>"

definition iam_demo_login :: login_request where
  "iam_demo_login = \<lparr>lr_tenant_slug = Some ''red-cross'', lr_email = ''a@x'', lr_password = ''0123456789''\<rparr>"

definition iam_demo_db :: iam_db where
  "iam_demo_db = fst (route_onboard_tenant iam_demo_crypto 10
     \<lparr>to_name = ''Red Cross'', to_slug = ''red-cross'', to_description = None, to_admin_email = ''a@x'',
      to_admin_password = ''0123456789'', to_admin_full_name = ''Ann''\<rparr> empty_iam_db)"

definition iam_demo_session :: iam_db where
  "iam_demo_session = fst (route_login iam_demo_crypto 20 ''raw0'' iam_demo_login iam_demo_db)"

lemma iam_demo_reachable: "(iam_step iam_demo_crypto)\<^sup>*\<^sup>* empty_iam_db iam_demo_db"
  unfolding iam_demo_db_def by (blast intro: r_into_rtranclp iam_pub pub_onboard surjective_pairing)

lemma iam_demo_session_reachable: "(iam_step iam_demo_crypto)\<^sup>*\<^sup>* empty_iam_db iam_demo_session"
  unfolding iam_demo_session_def
  by (rule rtranclp.rtrancl_into_rtrancl [OF iam_demo_reachable]) (blast intro: iam_pub pub_login surjective_pairing)

theorem iam_reachable_sound_witness:
  "distinct (map rt_token_hash (refresh_tokens iam_demo_session)) \<and>
   map (\<lambda>x. (rt_user_id x, rt_revoked_at x)) (refresh_tokens iam_demo_session) = [(1, None)]"
proof -
  have "map (\<lambda>x. (rt_user_id x, rt_revoked_at x)) (refresh_tokens iam_demo_session) = [(1, None)]" by code_simp
  then show ?thesis using iam_reachable_sound [OF iam_demo_session_reachable] by blast
qed

text \<open>C5. A token pair, by login or by refresh, is only ever issued to an active account whose tenant is
  active: disabling an account or suspending a tenant locks its users out at once. A login needs the
  password of an account with that email in the population the request names; a refresh needs a live
  token of that account.\<close>

theorem tokens_only_for_enabled_accounts:
  assumes "(iam_step cr)\<^sup>*\<^sup>* empty_iam_db s"
    and "login cr now raw d s = (s', Inr (Some pair)) \<or> refresh cr now old raw s = (s', Inr (Some pair))"
  shows "\<exists>u \<in> set (users s). is_active u \<and>
    (\<forall>t \<in> set (tenants s). us_tenant_id u = Some (tn_id t) \<longrightarrow> tn_status t = ''active'') \<and>
    dget (tp_access_token pair) ''sub'' = Some (JUuid (us_id u)) \<and>
    ((us_email u = lr_email d \<and> verify_password cr (lr_password d) (us_password_hash u) \<and>
       (us_tenant_id u = None \<longleftrightarrow> lr_tenant_slug d = None)) \<or>
     (\<exists>x \<in> set (refresh_tokens s). rt_token_hash x = sha256 cr old \<and> rt_user_id x = us_id u \<and>
        rt_revoked_at x = None \<and> now \<le> rt_expires_at x))"
proof -
  note i = iam_reachable_inv [OF assms(1)]
  from assms(2) show ?thesis
  proof
    assume l: "login cr now raw d s = (s', Inr (Some pair))"
    show ?thesis
      by (rule login_pair [OF l i]) (rule bexI, auto simp: enabled_def pair_principal)
  next
    assume r: "refresh cr now old raw s = (s', Inr (Some pair))"
    show ?thesis
      by (rule refresh_pair [OF r i]) (rule bexI, auto simp: enabled_def pair_principal)
  qed
qed

theorem tokens_only_for_enabled_accounts_witness:
  "\<exists>u \<in> set (users iam_demo_session). is_active u \<and> us_id u = 1 \<and>
     refresh_tokens (fst (refresh iam_demo_crypto 30 ''raw0'' ''raw1'' iam_demo_session)) \<noteq> []"
proof -
  have ok: "(case refresh iam_demo_crypto 30 ''raw0'' ''raw1'' iam_demo_session of
      (s', Inr (Some pair)) \<Rightarrow> refresh_tokens s' \<noteq> [] \<and> dget (tp_access_token pair) ''sub'' = Some (JUuid 1) | _ \<Rightarrow> False)"
    by code_simp
  then obtain s' pair where r: "refresh iam_demo_crypto 30 ''raw0'' ''raw1'' iam_demo_session = (s', Inr (Some pair))"
    "refresh_tokens s' \<noteq> []" "dget (tp_access_token pair) ''sub'' = Some (JUuid 1)"
    by (auto split: prod.splits sum.splits option.splits)
  from tokens_only_for_enabled_accounts [OF iam_demo_session_reachable, of 30 "''raw1''" iam_demo_login s' pair "''raw0''"] r
  show ?thesis by auto
qed

text \<open>C4. A refresh token works once: after a successful refresh the same token is refused in every later
  state, and presenting it again before it expires revokes every session of its owner.\<close>

theorem refresh_token_single_use:
  assumes "(iam_step cr)\<^sup>*\<^sup>* empty_iam_db s" "refresh cr now old raw s = (s1, Inr (Some pair))"
    and "(iam_step cr)\<^sup>*\<^sup>* s1 s2" "refresh cr now' old raw' s2 = (s3, res)"
  shows "res = Inr None \<and>
    (\<exists>t \<in> set (refresh_tokens s). rt_token_hash t = sha256 cr old \<and>
       dget (tp_access_token pair) ''sub'' = Some (JUuid (rt_user_id t)) \<and>
       (now' \<le> rt_expires_at t \<longrightarrow>
          (\<forall>x \<in> set (refresh_tokens s3). rt_user_id x = rt_user_id t \<longrightarrow> rt_revoked_at x \<noteq> None)))"
proof -
  note i = iam_reachable_inv [OF assms(1)]
  obtain u t where t: "t \<in> set (refresh_tokens s)" "rt_token_hash t = sha256 cr old" "rt_user_id t = us_id u"
    "issue_pair cr now raw u (Some (rt_id t))
       (s\<lparr>refresh_tokens := row_upd (\<lambda>x. rt_id x = rt_id t) (revoke now) (refresh_tokens s)\<rparr>) = (s1, Inr (Some pair))"
    by (rule refresh_pair [OF assms(2) i])
  have "revoke now t \<in> set (refresh_tokens s1)"
    using t(1) issue_pair_tokens [OF t(4)] by (force simp: set_row_upd)
  with iam_run_tokens [OF assms(3)] obtain x where x: "x \<in> set (refresh_tokens s2)" "rt_token_hash x = rt_token_hash t"
    "rt_user_id x = rt_user_id t" "rt_expires_at x = rt_expires_at t" "rt_revoked_at x \<noteq> None"
    unfolding tokens_kept_def by fastforce
  have "iam_inv s1" by (rule refresh_inv [OF assms(2) i])
  with assms(3) have "iam_inv s2" by (induction rule: rtranclp_induct) (auto intro: iam_step_inv)
  from revoked_token_refused [OF this x(1) _ x(5) assms(4)] show ?thesis
    using x t pair_principal(1) [OF t(4)] by auto
qed

theorem refresh_token_single_use_witness:
  "\<exists>s1 pair. refresh iam_demo_crypto 30 ''raw0'' ''raw1'' iam_demo_session = (s1, Inr (Some pair)) \<and>
     snd (refresh iam_demo_crypto 40 ''raw0'' ''raw2'' s1) = Inr None"
proof -
  have ok: "(case refresh iam_demo_crypto 30 ''raw0'' ''raw1'' iam_demo_session of
      (s', Inr (Some pair)) \<Rightarrow> True | _ \<Rightarrow> False)" by code_simp
  then obtain s1 pair where r: "refresh iam_demo_crypto 30 ''raw0'' ''raw1'' iam_demo_session = (s1, Inr (Some pair))"
    by (auto split: prod.splits sum.splits option.splits)
  obtain s3 res where "refresh iam_demo_crypto 40 ''raw0'' ''raw2'' s1 = (s3, res)" by fastforce
  from refresh_token_single_use [OF iam_demo_session_reachable r rtranclp.rtrancl_refl this] this r
  show ?thesis by auto
qed



text \<open>C36. Every outcome of a login with its status code: 403 when the named tenant is suspended, 401 when
  no account of that population has this email and password, without telling which of the two is wrong,
  403 when the account is disabled, and a token pair otherwise. A refused login changes nothing.\<close>

theorem login_outcomes:
  assumes "(iam_step cr)\<^sup>*\<^sup>* empty_iam_db s" "sha256 cr raw \<notin> rt_token_hash ` set (refresh_tokens s)"
  shows "if login_suspended s d then
      route_login cr now raw d s =
        (s, Inl (HTTPException 403 ''Your organization/tenant account has been suspended. Please contact support.''))
    else if \<exists>u. login_account s d u \<and> verify_password cr (lr_password d) (us_password_hash u) then
      if \<exists>u. login_account s d u \<and> is_active u then (\<exists>s' pair. route_login cr now raw d s = (s', Inr pair))
      else route_login cr now raw d s =
        (s, Inl (HTTPException 403 ''Your account has been disabled or banned. Please contact support.''))
    else route_login cr now raw d s = (s, Inl (HTTPException 401 ''Invalid credentials''))"
proof -
  note i = iam_reachable_inv [OF assms(1)]
  show ?thesis
  proof (cases "\<exists>u. login_account s d u")
    case True
    then obtain u where u: "login_account s d u" by blast
    have uniq: "v = u" if "login_account s d v" for v
      using that u slug_unique [OF i] email_unique [OF i, of v u]
      unfolding login_account_def by (auto split: option.splits) metis
    obtain s' pair where "issue_pair cr now raw u None s = (s', Inr (Some pair))"
      using issue_pair_fresh [OF assms(2)] by blast
    moreover have "(\<exists>v. login_account s d v \<and> Q v) \<longleftrightarrow> Q u" for Q using u uniq by blast
    ultimately show ?thesis using login_known [OF i u, of cr now raw] by (simp add: route_login_def)
  next
    case False
    then show ?thesis using login_unknown [OF False i, of cr now raw] by (simp add: route_login_def)
  qed
qed

theorem login_outcomes_witness:
  "\<exists>s' pair. route_login iam_demo_crypto 20 ''raw0'' iam_demo_login iam_demo_db = (s', Inr pair)"
proof -
  have f: "sha256 iam_demo_crypto ''raw0'' \<notin> rt_token_hash ` set (refresh_tokens iam_demo_db)" by code_simp
  have n: "\<not> login_suspended iam_demo_db iam_demo_login" by code_simp
  have "list_ex (\<lambda>u. login_account iam_demo_db iam_demo_login u \<and> is_active u \<and>
      verify_password iam_demo_crypto (lr_password iam_demo_login) (us_password_hash u)) (users iam_demo_db)" by code_simp
  then show ?thesis
    using login_outcomes [OF iam_demo_reachable f, of iam_demo_login 20] n by (auto simp: list_ex_iff split: if_splits)
qed

text \<open>A password change needs the current password. It then replaces the password of that account and
  of no other, revokes every session of the account, and the new password logs the account in when the
  account is active and its tenant not suspended. With a wrong current password nothing changes. The
  hypothesis on the hash is what Argon2 promises: a password verifies against its own hash.\<close>

theorem password_change_takes_effect:
  assumes "(iam_step cr)\<^sup>*\<^sup>* empty_iam_db s" "u \<in> set (users s)"
    and argon2: "\<And>salt p. verify_password cr p (hash_password cr salt p)"
    and "change_user_password cr now (us_id u) cur new s = (s', res)"
  shows "if verify_password cr cur (us_password_hash u) then
      res = Inr True \<and>
      (\<forall>x \<in> set (refresh_tokens s'). rt_user_id x = us_id u \<longrightarrow> rt_revoked_at x \<noteq> None) \<and>
      (\<forall>v \<in> set (users s). us_id v \<noteq> us_id u \<longrightarrow> v \<in> set (users s')) \<and>
      (login_account s d u \<and> lr_password d = new \<and> is_active u \<and> \<not> login_suspended s d \<and>
       sha256 cr raw \<notin> rt_token_hash ` set (refresh_tokens s) \<longrightarrow>
         (\<exists>s'' pair. route_login cr now' raw d s' = (s'', Inr pair)))
    else res = Inl INVALID_CURRENT_PASSWORD \<and> s' = s"
proof -
  note i = iam_reachable_inv [OF assms(1)]
  let ?w = "touch_user now u (u\<lparr>us_password_hash := hash_password cr (next_uuid s) new\<rparr>)"
  have g: "row_get us_id (us_id u) (users s) = Some u"
    using keyed_row_get [of us_id "next_uuid s" "users s" u] i assms(2) by (simp add: iam_inv_def)
  show ?thesis
  proof (cases "verify_password cr cur (us_password_hash u)")
    case True
    have s': "s' = revoke_live now (\<lambda>x. x = us_id u) (put_user ?w (s\<lparr>next_uuid := Suc (next_uuid s)\<rparr>))" "res = Inr True"
      using assms(4) g True by (simp_all add: change_user_password_def get_user_by_id_def)
    then have us: "users s' = row_upd (\<lambda>x. us_id x = us_id u) (\<lambda>_. ?w) (users s)" "tenants s' = tenants s"
      by (simp_all add: put_user_def)
    have w: "?w \<in> set (users s')" using assms(2) by (force simp: us set_row_upd)
    have "\<exists>s'' pair. route_login cr now' raw d s' = (s'', Inr pair)"
      if l: "login_account s d u" "lr_password d = new" "is_active u" "\<not> login_suspended s d"
        "sha256 cr raw \<notin> rt_token_hash ` set (refresh_tokens s)"
    proof -
      have "login_account s' d ?w" using l(1) w us(2) by (auto simp: login_account_def split: option.splits)
      moreover have "\<not> login_suspended s' d" using l(4) us(2) by (simp add: login_suspended_def)
      moreover have "is_active ?w" using l(3) by (simp add: is_active_def)
      moreover have "verify_password cr (lr_password d) (us_password_hash ?w)" using l(2) argon2 by simp
      moreover have "sha256 cr raw \<notin> rt_token_hash ` set (refresh_tokens s')"
        using l(5) by (auto simp: s' revoke_live_def set_row_upd)
      ultimately show ?thesis
        using login_known [OF change_password_inv [OF assms(4) i], of d ?w cr now' raw]
          issue_pair_fresh [of cr raw s' now' ?w None] by (auto simp: route_login_def)
    qed
    moreover have "rt_revoked_at x \<noteq> None" if "x \<in> set (refresh_tokens s')" "rt_user_id x = us_id u" for x
      using revoke_live_dead that unfolding s' by blast
    moreover have "v \<in> set (users s')" if "v \<in> set (users s)" "us_id v \<noteq> us_id u" for v
      using that by (auto simp: us set_row_upd)
    ultimately show ?thesis using True s'(2) by auto
  next
    case False
    then show ?thesis using assms(4) g by (simp add: change_user_password_def get_user_by_id_def)
  qed
qed

theorem password_change_takes_effect_witness:
  "\<exists>s' s'' pair. change_user_password iam_demo_crypto 30 1 ''0123456789'' ''9876543210'' iam_demo_session = (s', Inr True) \<and>
     route_login iam_demo_crypto 40 ''raw1'' (iam_demo_login\<lparr>lr_password := ''9876543210''\<rparr>) s' = (s'', Inr pair)"
proof -
  let ?d = "iam_demo_login\<lparr>lr_password := ''9876543210''\<rparr>"
  have "list_ex (\<lambda>u. login_account iam_demo_session ?d u \<and> is_active u \<and> us_id u = 1 \<and>
      verify_password iam_demo_crypto ''0123456789'' (us_password_hash u)) (users iam_demo_session)" by code_simp
  then obtain u where u: "u \<in> set (users iam_demo_session)" "login_account iam_demo_session ?d u" "is_active u"
    "us_id u = 1" "verify_password iam_demo_crypto ''0123456789'' (us_password_hash u)" by (auto simp: list_ex_iff)
  have f: "sha256 iam_demo_crypto ''raw1'' \<notin> rt_token_hash ` set (refresh_tokens iam_demo_session)" by code_simp
  have n: "\<not> login_suspended iam_demo_session ?d" by code_simp
  have h: "verify_password iam_demo_crypto p (hash_password iam_demo_crypto salt p)" for salt p
    by (simp add: iam_demo_crypto_def)
  obtain s' res where c: "change_user_password iam_demo_crypto 30 (us_id u) ''0123456789'' ''9876543210'' iam_demo_session = (s', res)"
    by fastforce
  from password_change_takes_effect [OF iam_demo_session_reachable u(1) h c, of ?d "''raw1''" 40] u f n
  show ?thesis using c by auto
qed

text \<open>What the identity service signs, every other service reads back: when the JOSE library accepts
  the token and returns the claims that were signed, verification gives the principal of the account that
  logged in, with its type and roles and the tenant it acts for, and a role guard lets it pass exactly
  when the account has one of the roles.\<close>

theorem issued_token_roundtrip:
  assumes "login cr now raw d s = (s', Inr (Some pair))"
    and "get_header token = Some header" "dget header ''alg'' = Some (JStr ''RS256'')"
    and "get_key answer t t' (dget_default header ''kid'' (JStr [])) c = (c', Inr (Some key))"
    and "decode token key iss aud = Some (tp_access_token pair)"
  shows "\<exists>u \<in> set (users s). us_email u = lr_email d \<and>
    (\<exists>p. verify get_header decode iss aud answer t t' token c = (c', Inr p) \<and>
       p_user_id p = us_id u \<and> p_user_type p = JStr (user_type_value (us_user_type u)) \<and>
       p_tenant_id p = (case us_assigned_tenant_id u of Some x \<Rightarrow> Some x | None \<Rightarrow> us_tenant_id u) \<and>
       (\<forall>rs. require_any_role rs p = Inr p \<longleftrightarrow> set rs \<inter> set (roles u) \<noteq> {}))"
proof -
  obtain u where u: "u \<in> set (users s)" "us_email u = lr_email d" "issue_pair cr now raw u None s = (s', Inr (Some pair))"
    using assms(1) by (cases rule: login_cases) auto
  have "verify get_header decode iss aud answer t t' token c = (c', principal_of (tp_access_token pair))"
    using assms(2-5) by (simp add: verify_def)
  moreover have "list_all hashable (map JStr rs)" for rs by (induction rs) auto
  ultimately show ?thesis
    using u pair_principal(2) [OF u(3)] by (intro bexI [OF _ u(1)]) (auto simp: require_any_role_Inr)
qed

theorem issued_token_roundtrip_witness:
  "\<exists>c' p. verify (\<lambda>t. Some [(''alg'', JStr ''RS256''), (''kid'', JStr ''k'')])
       (\<lambda>t key iss aud. case snd (login iam_demo_crypto 20 ''raw0'' iam_demo_login iam_demo_db) of
          Inr (Some pair) \<Rightarrow> Some (tp_access_token pair) | _ \<Rightarrow> None)
       ''rcp-iam'' ''rcp-services'' HttpError 50 50 ''token''
       \<lparr>cache_ttl = 3600, cache_keys = [(JStr ''k'', JNull)], fetched_at = 40\<rparr> = (c', Inr p) \<and>
     require_any_role [''tenant_admin''] p = Inr p"
    (is "\<exists>c' p. verify ?h ?d _ _ _ _ _ _ ?c = _ \<and> _")
proof -
  have "(case login iam_demo_crypto 20 ''raw0'' iam_demo_login iam_demo_db of (s', Inr (Some pair)) \<Rightarrow> True | _ \<Rightarrow> False)"
    by code_simp
  then obtain s' pair where l: "login iam_demo_crypto 20 ''raw0'' iam_demo_login iam_demo_db = (s', Inr (Some pair))"
    by (auto split: prod.splits sum.splits option.splits)
  have r: "list_all (\<lambda>u. ''tenant_admin'' \<in> set (roles u)) (users iam_demo_db)" by code_simp
  have k: "get_key HttpError 50 50 (dget_default [(''alg'', JStr ''RS256''), (''kid'', JStr ''k'')] ''kid'' (JStr [])) ?c =
      (?c, Inr (Some JNull))" by (simp add: get_key_def needs_fetch_def)
  have d: "?d ''token'' JNull ''rcp-iam'' ''rcp-services'' = Some (tp_access_token pair)" using l by simp
  obtain u p where u: "u \<in> set (users iam_demo_db)" "verify ?h ?d ''rcp-iam'' ''rcp-services'' HttpError 50 50 ''token'' ?c = (?c, Inr p)"
    "require_any_role [''tenant_admin''] p = Inr p \<longleftrightarrow> set [''tenant_admin''] \<inter> set (roles u) \<noteq> {}"
    using issued_token_roundtrip [OF l, where get_header = ?h and decode = ?d and token = "''token''"
        and iss = "''rcp-iam''" and aud = "''rcp-services''", OF refl _ k d] by auto
  then have "require_any_role [''tenant_admin''] p = Inr p" using r by (simp add: list_all_iff)
  then show ?thesis using u(2) by blast
qed

text \<open>The figures of the console add up: the platform totals are the sizes of the tables and the sum of
  the three populations, every tenant's user count is the number of its admins and coordinators, and the
  tenant users of the platform are the users of the listed tenants.\<close>

theorem console_figures_consistent:
  assumes "(iam_step cr)\<^sup>*\<^sup>* empty_iam_db s"
  shows "st_total_users (platform_stats now s) = length (users s) \<and>
    st_total_tenants (platform_stats now s) = length (tenants s) \<and>
    st_total_users (platform_stats now s) =
      st_global_users (platform_stats now s) + st_tenant_users (platform_stats now s) + st_super_admins (platform_stats now s) \<and>
    st_tenant_users (platform_stats now s) = sum_list (map ts_user_count (list_tenants s)) \<and>
    (\<forall>x \<in> set (list_tenants s). ts_user_count x = ts_admin_count x + ts_coordinator_count x)"
proof -
  note i = iam_reachable_inv [OF assms]
  let ?n = "\<lambda>ty. row_count (\<lambda>u. us_user_type u = ty) (users s)"
  have ty: "us_user_type u \<in> {TENANT_ADMIN, COORDINATOR} \<longleftrightarrow> us_tenant_id u \<noteq> None"
    "us_tenant_id u \<in> insert None (Some ` tn_id ` set (tenants s))" if "u \<in> set (users s)" for u
    using iam_inv_tenancy [OF i that] by (auto simp: tenancy_ok_def)
  have all: "sum_list (map ?n [VOLUNTEER, VICTIM, DONATOR, TENANT_ADMIN, COORDINATOR, SUPER_ADMIN]) = length (users s)"
  proof -
    let ?types = "[VOLUNTEER, VICTIM, DONATOR, TENANT_ADMIN, COORDINATOR, SUPER_ADMIN]"
    have "us_user_type u \<in> set ?types" for u by (cases "us_user_type u") auto
    then have "filter (\<lambda>r. us_user_type r \<in> set ?types) (users s) = users s" by (intro filter_True) blast
    then have "row_count (\<lambda>r. us_user_type r \<in> set ?types) (users s) = length (users s)" unfolding row_count_def by simp
    then show ?thesis by (subst sum_row_counts) auto
  qed
  have "distinct (map (\<lambda>t. Some (tn_id t)) (sort_key (\<lambda>t. - tn_created_at t) (tenants s)))"
    using i by (simp add: iam_inv_def keyed_def distinct_map inj_on_def)
  from sum_row_counts [OF this, of us_tenant_id "users s"]
  have "sum_list (map ts_user_count (list_tenants s)) = row_count (\<lambda>u. us_tenant_id u \<in> Some ` tn_id ` set (tenants s)) (users s)"
    by (simp add: list_tenants_def tenant_rollup_def comp_def image_image)
  also have "\<dots> = ?n TENANT_ADMIN + ?n COORDINATOR"
  proof (rule row_count_split)
    show "us_tenant_id r \<in> Some ` tn_id ` set (tenants s) \<longleftrightarrow>
        us_user_type r = TENANT_ADMIN \<or> us_user_type r = COORDINATOR" if "r \<in> set (users s)" for r
      using ty [OF that] by (cases "us_tenant_id r") auto
  qed simp
  finally have t: "sum_list (map ts_user_count (list_tenants s)) = ?n TENANT_ADMIN + ?n COORDINATOR" .
  have "ts_user_count x = ts_admin_count x + ts_coordinator_count x" if "x \<in> set (list_tenants s)" for x
    using that unfolding list_tenants_def
    by (auto simp: tenant_rollup_def intro!: row_count_split) (use ty in auto)
  then show ?thesis
    using all t by (simp add: platform_stats_def Let_def group_counts_total count_of_group_counts)
qed

theorem console_figures_consistent_witness:
  "st_total_users (platform_stats 50 iam_demo_session) = length (users iam_demo_session) \<and>
   st_tenant_users (platform_stats 50 iam_demo_session) = 1"
proof -
  have "st_tenant_users (platform_stats 50 iam_demo_session) = 1" by code_simp
  then show ?thesis using console_figures_consistent [OF iam_demo_session_reachable] by blast
qed

end
