(* ===== verification/Account_Events.thy ===== *)
theory Account_Events
  imports Volunteer_Correct Logistics_Correct IAM_Correct
begin

text \<open>
  The account events between the identity service and its two consumers: the envelopes that
  \<open>services/iam/app/services/{auth,admin}.py\<close> write to the outbox, read by the consumers of
  \<open>services/logistics\<close> and \<open>services/volunteer\<close>, for a registration and for a deactivation.
\<close>

section \<open>From the identity service to its consumers\<close>

text \<open>The envelope of an account event as the identity service writes it to its outbox.\<close>

definition account_envelope :: "uuid \<Rightarrow> timestamp \<Rightarrow> string \<Rightarrow> uuid option \<Rightarrow> (string \<times> json) list \<Rightarrow> json" where
  "account_envelope e now key tenant data = snd (build_envelope e now key ''iam-service'' tenant data 1 None)"

lemma account_envelope_emitted:
  "outbox (iam_emit now key tenant data s) =
     outbox s @ [\<lparr>ob_id = outbox_seq s, ob_event_id = next_uuid s, ob_routing_key = key,
                  ob_payload = account_envelope (next_uuid s) now key tenant data, ob_published_at = None\<rparr>]"
  by (simp add: iam_emit_def emit_def build_envelope_def account_envelope_def)

lemma account_envelope_id [simp]: "envelope_id (account_envelope e now key tenant data) = Some e"
  by (simp add: account_envelope_def build_envelope_def envelope_id_def)

lemma collect_JStr: "collect col_str (map JStr xs) = Inr xs"
  by (induction xs) auto

lemma tenant_of_json_opt: "tenant_of (json_opt JUuid t) = Inr t"
  by (cases t) (simp_all add: tenant_of_def)

lemma col_str_opt_json_opt: "col_str_opt (json_opt JStr p) = Inr p"
  by (cases p) simp_all

text \<open>Both consumers understand the payload of an account.\<close>

lemma registered_replica_fields:
  "replica_fields_of (user_registered_payload u) = Inr (us_full_name u, us_phone u, roles u, is_active u)"
  by (simp add: replica_fields_of_def user_registered_payload_def col_str_opt_json_opt col_strs_def collect_JStr)

lemma registered_identity_fields:
  "identity_fields (user_registered_payload u) = Inr (us_full_name u, us_phone u, is_active u)"
  by (simp add: identity_fields_def user_registered_payload_def col_str_opt_json_opt)

lemma replica_of_registered:
  assumes "e \<notin> set (lg_processed l)" "row_get ur_user_id (us_id u) (replicas l) = None"
  shows "\<exists>l'. handle_user_event (account_envelope e now ''iam.user.registered'' tenant (user_registered_payload u)) l = Inr l' \<and>
    row_get ur_user_id (us_id u) (replicas l') =
      Some (new_replica (us_id u) tenant (us_updated_at u) (us_full_name u, us_phone u, roles u, is_active u))"
proof -
  have d: "dindex (user_registered_payload u) ''user_id'' = Inr (JUuid (us_id u))"
    "dindex (user_registered_payload u) ''updated_at'' = Inr (JTime (us_updated_at u))"
    by (simp_all add: user_registered_payload_def)
  show ?thesis
    using assms
    by (simp add: handle_user_event_def account_envelope_def build_envelope_def tenant_of_json_opt upsert_replica_def d
        registered_replica_fields row_get_append new_replica_def)
qed

lemma profile_of_registered:
  assumes "e \<notin> set (processed_events v)" "row_get vp_user_id (us_id u) (profiles v) = None"
  shows "\<exists>v'. handle_iam (now', account_envelope e now ''iam.user.registered'' tenant (user_registered_payload u)) v = Inr v' \<and>
    row_get vp_user_id (us_id u) (profiles v') =
      (if us_user_type u = VOLUNTEER
       then Some (new_profile (next_uuid v) (us_id u) now' (us_updated_at u) (us_full_name u, us_phone u, is_active u))
       else None)"
proof -
  have d: "dindex (user_registered_payload u) ''user_id'' = Inr (JUuid (us_id u))"
    "dindex (user_registered_payload u) ''updated_at'' = Inr (JTime (us_updated_at u))"
    "dget (user_registered_payload u) ''user_type'' = Some (JStr (user_type_value (us_user_type u)))"
    by (simp_all add: user_registered_payload_def)
  have ty: "user_type_value (us_user_type u) = ''VOLUNTEER'' \<longleftrightarrow> us_user_type u = VOLUNTEER"
    by (cases "us_user_type u") simp_all
  show ?thesis
    using assms
    by (simp add: handle_iam_def account_envelope_def build_envelope_def upsert_profile_def d ty
        registered_identity_fields row_get_append new_profile_def mark_processed_def)
qed


text \<open>The two events of a deactivation, on either replica: the deactivation makes the row inactive, and the
  update that accompanies it leaves an inactive row inactive.\<close>

definition deactivated_payload :: "timestamp \<Rightarrow> user \<Rightarrow> (string \<times> json) list" where
  "deactivated_payload now u =
     [(''user_id'', JUuid (us_id u)), (''tenant_id'', json_opt JUuid (us_tenant_id u)),
      (''status'', JStr ''disabled''), (''occurred_at'', JTime now)]"

lemma account_outbox [simp]:
  "outbox (put_user x s) = outbox s" "outbox (revoke_live now owns s) = outbox s"
  "next_uuid (put_user x s) = next_uuid s" "outbox_seq (put_user x s) = outbox_seq s"
  by (simp_all add: put_user_def revoke_live_def)

lemma disable_events:
  assumes "set_user_status now uid ''disabled'' s = (s', Some u)" "outbox s' = outbox s @ [o1, o2]"
  shows "us_id u = uid" "\<not> is_active u" "ob_event_id o1 \<noteq> ob_event_id o2"
    "ob_payload o1 = account_envelope (ob_event_id o1) now ''iam.user.deactivated'' (us_tenant_id u) (deactivated_payload now u)"
    "ob_payload o2 = account_envelope (ob_event_id o2) now ''iam.user.updated'' (us_tenant_id u) (status_payload now u)"
proof -
  obtain v where v: "row_get us_id uid (users s) = Some v"
    using assms(1) by (cases "row_get us_id uid (users s)") (auto simp: set_user_status_def)
  let ?u = "touch_user now v (v\<lparr>us_status := ''disabled''\<rparr>)"
  let ?s1 = "revoke_live now (\<lambda>i. i = us_id v) (put_user ?u s)"
  have u: "u = ?u" "us_id v = uid" using assms(1) v row_get_Some [OF v] by (auto simp: set_user_status_def Let_def)
  have "s' = iam_emit now ''iam.user.updated'' (us_tenant_id u) (status_payload now u)
      (iam_emit now ''iam.user.deactivated'' (us_tenant_id u) (deactivated_payload now u) ?s1)"
    using assms(1) v by (simp add: set_user_status_def Let_def deactivated_payload_def u(1))
  then have o: "[o1, o2] =
     [\<lparr>ob_id = outbox_seq ?s1, ob_event_id = next_uuid ?s1, ob_routing_key = ''iam.user.deactivated'',
       ob_payload = account_envelope (next_uuid ?s1) now ''iam.user.deactivated'' (us_tenant_id u) (deactivated_payload now u),
       ob_published_at = None\<rparr>,
      \<lparr>ob_id = outbox_seq (iam_emit now ''iam.user.deactivated'' (us_tenant_id u) (deactivated_payload now u) ?s1),
       ob_event_id = Suc (next_uuid ?s1), ob_routing_key = ''iam.user.updated'',
       ob_payload = account_envelope (Suc (next_uuid ?s1)) now ''iam.user.updated'' (us_tenant_id u) (status_payload now u),
       ob_published_at = None\<rparr>]"
    using assms(2) by (simp only: account_envelope_emitted account_outbox iam_emit_frame append_assoc append.simps same_append_eq)
  then show "ob_event_id o1 \<noteq> ob_event_id o2"
    "ob_payload o1 = account_envelope (ob_event_id o1) now ''iam.user.deactivated'' (us_tenant_id u) (deactivated_payload now u)"
    "ob_payload o2 = account_envelope (ob_event_id o2) now ''iam.user.updated'' (us_tenant_id u) (status_payload now u)"
    by simp_all
  show "us_id u = uid" "\<not> is_active u" using u by (simp_all add: is_active_def)
qed

lemma replica_deactivated:
  assumes "e \<notin> set (lg_processed l)" "row_get ur_user_id (us_id u) (replicas l) = Some r"
  shows "\<exists>l'. handle_user_event (account_envelope e now ''iam.user.deactivated'' tenant (deactivated_payload now u)) l = Inr l' \<and>
    lg_processed l' = e # lg_processed l \<and> row_get ur_user_id (us_id u) (replicas l') = Some (r\<lparr>ur_is_active := False\<rparr>)"
  using assms row_get_Some [OF assms(2)]
  by (simp add: handle_user_event_def account_envelope_def build_envelope_def tenant_of_json_opt deactivate_replica_def
      deactivated_payload_def row_get_row_upd)

lemma replica_status_update:
  assumes "e \<notin> set (lg_processed l)" "row_get ur_user_id (us_id u) (replicas l) = Some r" "\<not> is_active u"
  shows "\<exists>l' r'. handle_user_event (account_envelope e now ''iam.user.updated'' tenant (status_payload now u)) l = Inr l' \<and>
    lg_processed l' = e # lg_processed l \<and> row_get ur_user_id (us_id u) (replicas l') = Some r' \<and>
    (\<not> ur_is_active r \<longrightarrow> \<not> ur_is_active r')"
proof -
  have d: "dindex (status_payload now u) ''user_id'' = Inr (JUuid (us_id u))"
    "dindex (status_payload now u) ''updated_at'' = Inr (JTime now)"
    "replica_fields_of (status_payload now u) = Inr (us_full_name u, us_phone u, roles u, False)"
    using assms(3)
    by (simp_all add: status_payload_def replica_fields_of_def col_str_opt_json_opt col_strs_def collect_JStr)
  have id: "ur_user_id (set_replica src f x) = ur_user_id x" for src f x by (cases f) (simp add: set_replica_def)
  show ?thesis
    using assms row_get_Some [OF assms(2)]
    by (cases "ur_source_updated_at r \<le> now")
      (simp_all add: handle_user_event_def account_envelope_def build_envelope_def tenant_of_json_opt upsert_replica_def d
        row_get_row_upd id, simp add: set_replica_def)
qed

lemma profile_deactivated:
  assumes "e \<notin> set (processed_events v)" "row_get vp_user_id (us_id u) (profiles v) = Some p"
  shows "\<exists>v'. handle_iam (t, account_envelope e now ''iam.user.deactivated'' tenant (deactivated_payload now u)) v = Inr v' \<and>
    processed_events v' = e # processed_events v \<and>
    row_get vp_user_id (us_id u) (profiles v') = Some (p\<lparr>vp_is_active := False, vp_available_status := False\<rparr>)"
  using assms row_get_Some [OF assms(2)]
  by (simp add: handle_iam_def account_envelope_def build_envelope_def deactivate_profile_def
      deactivated_payload_def row_get_row_upd mark_processed_def)

lemma profile_status_update:
  assumes "e \<notin> set (processed_events v)" "row_get vp_user_id (us_id u) (profiles v) = Some p" "\<not> is_active u"
  shows "\<exists>v' p'. handle_iam (t, account_envelope e now ''iam.user.updated'' tenant (status_payload now u)) v = Inr v' \<and>
    processed_events v' = e # processed_events v \<and> row_get vp_user_id (us_id u) (profiles v') = Some p' \<and>
    (\<not> vp_is_active p \<longrightarrow> \<not> vp_is_active p') \<and> vp_available_status p' = vp_available_status p"
proof -
  have d: "dindex (status_payload now u) ''user_id'' = Inr (JUuid (us_id u))"
    "dindex (status_payload now u) ''updated_at'' = Inr (JTime now)"
    "identity_fields (status_payload now u) = Inr (us_full_name u, us_phone u, False)"
    using assms(3) by (simp_all add: status_payload_def identity_fields_def col_str_opt_json_opt)
  have id: "vp_user_id (set_identity src f x) = vp_user_id x" for src f x by (cases f) (simp add: set_identity_def)
  show ?thesis
  proof (cases "dget (status_payload now u) ''user_type'' = Some (JStr ''VOLUNTEER'') \<and> accepts_update now p")
    case True
    then show ?thesis
      using assms row_get_Some [OF assms(2)]
      by (simp add: handle_iam_def account_envelope_def build_envelope_def upsert_profile_def d row_get_row_upd id
          mark_processed_def) (simp add: set_identity_def)
  next
    case False
    then show ?thesis
      using assms
      by (auto simp: handle_iam_def account_envelope_def build_envelope_def upsert_profile_def d mark_processed_def)
  qed
qed

text \<open>Either order of the two events leaves the row inactive.\<close>

lemma replica_after_disabling:
  assumes "e1 \<notin> set (lg_processed l)" "e2 \<notin> set (lg_processed l)" "e1 \<noteq> e2" "\<not> is_active u"
    and "row_get ur_user_id (us_id u) (replicas l) = Some r"
    and "m1 = account_envelope e1 now ''iam.user.deactivated'' tenant (deactivated_payload now u)"
    and "m2 = account_envelope e2 now ''iam.user.updated'' tenant (status_payload now u)"
    and "ms = [m1, m2] \<or> ms = [m2, m1]"
  shows "\<exists>r'. row_get ur_user_id (us_id u) (replicas (deliver_all handle_user_event ms l)) = Some r' \<and> \<not> ur_is_active r'"
  using assms(8)
proof
  assume ms: "ms = [m1, m2]"
  obtain l1 where l1: "handle_user_event m1 l = Inr l1" "lg_processed l1 = e1 # lg_processed l"
    "row_get ur_user_id (us_id u) (replicas l1) = Some (r\<lparr>ur_is_active := False\<rparr>)"
    using replica_deactivated [OF assms(1,5), of now tenant] unfolding assms(6) by blast
  then show ?thesis
    using replica_status_update [OF _ l1(3) assms(4), of e2 now tenant] assms(2,3) unfolding ms assms(7)
    by (auto simp: deliver_all_def deliver_def)
next
  assume ms: "ms = [m2, m1]"
  obtain l1 r1 where l1: "handle_user_event m2 l = Inr l1" "lg_processed l1 = e2 # lg_processed l"
    "row_get ur_user_id (us_id u) (replicas l1) = Some r1"
    using replica_status_update [OF assms(2,5,4), of now tenant] unfolding assms(7) by blast
  then show ?thesis
    using replica_deactivated [OF _ l1(3), of e1 now tenant] assms(1,3) unfolding ms assms(6)
    by (auto simp: deliver_all_def deliver_def)
qed

lemma profile_after_disabling:
  assumes "e1 \<notin> set (processed_events v)" "e2 \<notin> set (processed_events v)" "e1 \<noteq> e2" "\<not> is_active u"
    and "row_get vp_user_id (us_id u) (profiles v) = Some p"
    and "m1 = account_envelope e1 now ''iam.user.deactivated'' tenant (deactivated_payload now u)"
    and "m2 = account_envelope e2 now ''iam.user.updated'' tenant (status_payload now u)"
    and "ms = [(t, m1), (t, m2)] \<or> ms = [(t, m2), (t, m1)]"
  shows "\<exists>p'. row_get vp_user_id (us_id u) (profiles (deliver_all handle_iam ms v)) = Some p' \<and>
    \<not> vp_is_active p' \<and> \<not> vp_available_status p'"
  using assms(8)
proof
  assume ms: "ms = [(t, m1), (t, m2)]"
  obtain v1 where v1: "handle_iam (t, m1) v = Inr v1" "processed_events v1 = e1 # processed_events v"
    "row_get vp_user_id (us_id u) (profiles v1) = Some (p\<lparr>vp_is_active := False, vp_available_status := False\<rparr>)"
    using profile_deactivated [OF assms(1,5), of t now tenant] unfolding assms(6) by blast
  then show ?thesis
    using profile_status_update [OF _ v1(3) assms(4), of e2 t now tenant] assms(2,3) unfolding ms assms(7)
    by (auto simp: deliver_all_def deliver_def)
next
  assume ms: "ms = [(t, m2), (t, m1)]"
  obtain v1 p1 where v1: "handle_iam (t, m2) v = Inr v1" "processed_events v1 = e2 # processed_events v"
    "row_get vp_user_id (us_id u) (profiles v1) = Some p1"
    using profile_status_update [OF assms(2,5,4), of t now tenant] unfolding assms(7) by blast
  then show ?thesis
    using profile_deactivated [OF _ v1(3), of e1 t now tenant] assms(1,3) unfolding ms assms(6)
    by (auto simp: deliver_all_def deliver_def)
qed

end
