(* ===== verification/Emissions.thy ===== *)
theory Emissions
  imports Account_Events
begin

text \<open>
  What the operations of the three producing services write to their outboxes: they only append rows,
  with consecutive ids, unpublished, each the envelope of its own event id, under the service's prefix
  of routing keys; and every row of the identity service describes an account or a tenant that exists.
\<close>

section \<open>Appending to the outbox\<close>

definition emits :: "(outbox_row \<Rightarrow> bool) \<Rightarrow> 'a service_scheme \<Rightarrow> 'a service_scheme \<Rightarrow> bool" where
  "emits good s s' \<longleftrightarrow>
     next_uuid s \<le> next_uuid s' \<and> outbox_seq s \<le> outbox_seq s' \<and>
     (\<exists>new. outbox s' = outbox s @ new \<and> map ob_id new = [outbox_seq s..<outbox_seq s'] \<and>
        distinct (map ob_event_id new) \<and> (\<forall>r \<in> set new. next_uuid s \<le> ob_event_id r \<and> ob_event_id r < next_uuid s') \<and>
        list_all (\<lambda>r. ob_published_at r = None \<and> good r) new)"

text \<open>A row of a service: its key starts with the name of the service, and it is the envelope of its id.\<close>

definition service_row :: "string \<Rightarrow> outbox_row \<Rightarrow> bool" where
  "service_row svc r \<longleftrightarrow>
     take (length svc) (ob_routing_key r) = svc \<and> envelope_id (ob_payload r) = Some (ob_event_id r)"

named_theorems emission

lemma emits_refl [emission]: "emits good s s"
  by (auto simp: emits_def)

lemma emits_frame:
  "outbox s'' = outbox s' \<Longrightarrow> outbox_seq s'' = outbox_seq s' \<Longrightarrow> next_uuid s'' = next_uuid s' \<Longrightarrow>
   emits good s s'' = emits good s s'"
  by (simp add: emits_def)

lemma emits_draw:
  assumes "emits good s s'" "outbox s'' = outbox s'" "outbox_seq s'' = outbox_seq s'" "next_uuid s' \<le> next_uuid s''"
  shows "emits good s s''"
  using assms unfolding emits_def by (auto intro: order_trans less_le_trans)

lemma emits_emit:
  assumes "emits good s s'"
    and "good \<lparr>ob_id = outbox_seq s', ob_event_id = next_uuid s', ob_routing_key = key,
      ob_payload = snd (build_envelope (next_uuid s') now key producer tenant data 1 None), ob_published_at = None\<rparr>"
  shows "emits good s (emit producer now key tenant data s')"
proof -
  from assms(1) obtain new where new: "outbox s' = outbox s @ new" "map ob_id new = [outbox_seq s..<outbox_seq s']"
    "outbox_seq s \<le> outbox_seq s'" "next_uuid s \<le> next_uuid s'" "distinct (map ob_event_id new)"
    "\<forall>r \<in> set new. next_uuid s \<le> ob_event_id r \<and> ob_event_id r < next_uuid s'"
    "list_all (\<lambda>r. ob_published_at r = None \<and> good r) new"
    by (auto simp: emits_def)
  then have "next_uuid s' \<notin> ob_event_id ` set new" by auto
  with new show ?thesis
    using assms(2) by (auto simp: emits_def emit_def build_envelope_def)
qed

lemma emits_trans:
  assumes "emits good s s'" "emits good s' s''"
  shows "emits good s s''"
proof -
  from assms(1) obtain new where new: "outbox s' = outbox s @ new" "map ob_id new = [outbox_seq s..<outbox_seq s']"
    "outbox_seq s \<le> outbox_seq s'" "next_uuid s \<le> next_uuid s'" "distinct (map ob_event_id new)"
    "\<forall>r \<in> set new. next_uuid s \<le> ob_event_id r \<and> ob_event_id r < next_uuid s'"
    "list_all (\<lambda>r. ob_published_at r = None \<and> good r) new"
    by (auto simp: emits_def)
  from assms(2) obtain new' where new': "outbox s'' = outbox s' @ new'" "map ob_id new' = [outbox_seq s'..<outbox_seq s'']"
    "outbox_seq s' \<le> outbox_seq s''" "next_uuid s' \<le> next_uuid s''" "distinct (map ob_event_id new')"
    "\<forall>r \<in> set new'. next_uuid s' \<le> ob_event_id r \<and> ob_event_id r < next_uuid s''"
    "list_all (\<lambda>r. ob_published_at r = None \<and> good r) new'"
    by (auto simp: emits_def)
  have "[outbox_seq s..<outbox_seq s''] = [outbox_seq s..<outbox_seq s'] @ [outbox_seq s'..<outbox_seq s'']"
    using new(3) new'(3) by (metis upt_add_eq_append le_Suc_ex)
  moreover have "ob_event_id ` set new \<inter> ob_event_id ` set new' = {}" using new(6) new'(6) by fastforce
  ultimately show ?thesis using new new' by (fastforce simp: emits_def)
qed

lemma emits_mono: "emits good s s' \<Longrightarrow> (\<And>r. good r \<Longrightarrow> good' r) \<Longrightarrow> emits good' s s'"
  unfolding emits_def by (metis (mono_tags, lifting) list.pred_mono_strong)

lemma envelope_id_build [simp]:
  "envelope_id (snd (build_envelope e now key producer tenant data v t)) = Some e"
  by (simp add: build_envelope_def envelope_id_def)

lemma emits_service:
  "emits (service_row svc) s s' \<Longrightarrow> take (length svc) key = svc \<Longrightarrow>
   emits (service_row svc) s (emit producer now key tenant data s')"
  by (erule emits_emit) (simp add: service_row_def)

section \<open>Logistics\<close>

text \<open>The effect of a logistics call on what the messaging sees: events appended, replicas and processed
  ids untouched.\<close>

definition lg_quiet :: "logistics_db \<Rightarrow> logistics_db \<Rightarrow> bool" where
  "lg_quiet s s' \<longleftrightarrow>
     emits (service_row ''logistics.'') s s' \<and> replicas s' = replicas s \<and> lg_processed s' = lg_processed s"

lemma lg_quiet_refl [emission]: "lg_quiet s s"
  by (simp add: lg_quiet_def emits_refl)

lemma lg_quiet_frame [emission]:
  "lg_quiet s (s'\<lparr>categories := a\<rparr>) = lg_quiet s s'" "lg_quiet s (s'\<lparr>items := b\<rparr>) = lg_quiet s s'"
  "lg_quiet s (s'\<lparr>help_requests := c\<rparr>) = lg_quiet s s'" "lg_quiet s (s'\<lparr>tasks := d\<rparr>) = lg_quiet s s'"
  "lg_quiet s (s'\<lparr>alerts := e\<rparr>) = lg_quiet s s'" "lg_quiet s (s'\<lparr>payments := f\<rparr>) = lg_quiet s s'"
  "lg_quiet s (put_category x1 s') = lg_quiet s s'" "lg_quiet s (put_item x2 s') = lg_quiet s s'"
  "lg_quiet s (put_request x3 s') = lg_quiet s s'" "lg_quiet s (put_task x4 s') = lg_quiet s s'"
  by (simp_all add: lg_quiet_def emits_def put_category_def put_item_def put_request_def put_task_def)

lemma lg_quiet_draw [emission]: "next_uuid s' \<le> n \<Longrightarrow> lg_quiet s s' \<Longrightarrow> lg_quiet s (s'\<lparr>next_uuid := n\<rparr>)"
  unfolding lg_quiet_def by (auto intro: emits_draw)

lemma lg_quiet_emit [emission]:
  "lg_quiet s s' \<Longrightarrow> take (length ''logistics.'') key = ''logistics.'' \<Longrightarrow> lg_quiet s (lg_emit now key tenant data s')"
  unfolding lg_quiet_def lg_emit_frame unfolding lg_emit_def by (blast intro: emits_service)

lemma lg_operations_quiet:
  "create_category now tenant dd s = (s', res1) \<Longrightarrow> lg_quiet s s'"
  "update_category now tenant cid d2 s = (s', res2) \<Longrightarrow> lg_quiet s s'"
  "deactivate_category now tenant cid s = (s', res3) \<Longrightarrow> lg_quiet s s'"
  "add_inventory_item now tenant d4 s = (s', res4) \<Longrightarrow> lg_quiet s s'"
  "reserve_stock now tenant iid q s = (s', res4) \<Longrightarrow> lg_quiet s s'"
  "release_stock now tenant iid q s = (s', res4) \<Longrightarrow> lg_quiet s s'"
  "create_request iso_date now p d5 s = (s', res5) \<Longrightarrow> lg_quiet s s'"
  "change_status now r st p s = (s', res5) \<Longrightarrow> lg_quiet s s'"
  "assign_task now p d6 s = (s', res6) \<Longrightarrow> lg_quiet s s'"
  "update_task_status now tenant tid tst s = (s', res6) \<Longrightarrow> lg_quiet s s'"
  "create_checkout_session h t donor d7 s = (s', res7) \<Longrightarrow> lg_quiet s s'"
  "route_create_alert now p d8 s = (s', res8) \<Longrightarrow> lg_quiet s s'"
  by (auto simp: create_category_def update_category_def deactivate_category_def add_inventory_item_def
      reserve_stock_def release_stock_def create_request_def change_status_def assign_task_def
      update_task_status_def create_checkout_session_def route_create_alert_def Let_def
      emission split: option.splits sum.splits if_splits prod.splits payload_error.splits)

lemma guarded_quiet:
  assumes "guarded allowed p code s outcome = (s', res)" "\<And>s1 v. outcome = (s1, Inr v) \<Longrightarrow> lg_quiet s s1"
  shows "lg_quiet s s'"
  using assms by (auto simp: guarded_def lg_quiet_refl split: sum.splits prod.splits if_splits)

lemma lg_call_quiet: "lg_call iso_date p s s' \<Longrightarrow> lg_quiet s s'"
  by (induction rule: lg_call.induct)
    (auto simp: route_create_category_def route_update_category_def route_deactivate_category_def
      route_add_item_def route_reserve_def route_submit_request_def route_update_status_def
      route_dispatch_task_def route_update_task_def route_create_checkout_def lg_quiet_refl
      split: sum.splits option.splits if_splits elim!: guarded_quiet intro: lg_operations_quiet)

section \<open>Volunteer\<close>

text \<open>The effect of a volunteer call: events appended, and the same accounts have a profile.\<close>

definition vol_quiet :: "volunteer_db \<Rightarrow> volunteer_db \<Rightarrow> bool" where
  "vol_quiet s s' \<longleftrightarrow>
     emits (service_row ''volunteer.'') s s' \<and> map vp_user_id (profiles s') = map vp_user_id (profiles s) \<and>
     set (processed_events s) \<subseteq> set (processed_events s')"

lemma vol_quiet_refl [emission]: "vol_quiet s s"
  by (simp add: vol_quiet_def emits_refl)

lemma vol_quiet_trans: "vol_quiet s s' \<Longrightarrow> vol_quiet s' s'' \<Longrightarrow> vol_quiet s s''"
  by (auto simp: vol_quiet_def intro: emits_trans)

lemma vol_quiet_frame [emission]:
  "vol_quiet s (s'\<lparr>events := a\<rparr>) = vol_quiet s s'" "vol_quiet s (s'\<lparr>requirements := b\<rparr>) = vol_quiet s s'"
  "vol_quiet s (s'\<lparr>mappings := c\<rparr>) = vol_quiet s s'" "vol_quiet s (s'\<lparr>victim_requests := d\<rparr>) = vol_quiet s s'"
  "vol_quiet s (s'\<lparr>reports := e\<rparr>) = vol_quiet s s'"
  "vol_quiet (s\<lparr>mappings := c\<rparr>) s' = vol_quiet s s'" "vol_quiet (s\<lparr>requirements := b\<rparr>) s' = vol_quiet s s'"
  by (simp_all add: vol_quiet_def emits_def)

lemma vol_quiet_draw [emission]: "next_uuid s' \<le> n \<Longrightarrow> vol_quiet s s' \<Longrightarrow> vol_quiet s (s'\<lparr>next_uuid := n\<rparr>)"
  unfolding vol_quiet_def by (auto intro: emits_draw)

lemma vol_quiet_emit [emission]:
  assumes "vol_quiet s s'" "take (length ''volunteer.'') key = ''volunteer.''"
  shows "vol_quiet s (vol_emit now key tenant data s')"
proof -
  have "profiles (vol_emit now key tenant data s') = profiles s'"
    "processed_events (vol_emit now key tenant data s') = processed_events s'"
    by (simp_all add: vol_emit_def emit_def build_envelope_def)
  moreover have "emits (service_row ''volunteer.'') s (vol_emit now key tenant data s')"
    unfolding vol_emit_def using assms by (auto intro: emits_service simp: vol_quiet_def simp del: list.size)
  ultimately show ?thesis using assms(1) by (simp add: vol_quiet_def)
qed

lemma notify_quiet: "vol_quiet s (fold (notify_volunteer now event r) vs s)"
proof (induction vs rule: rev_induct)
  case (snoc v vs)
  then show ?case by (simp add: notify_volunteer_def emission)
qed (simp add: emission)

lemma match_quiet: "match_requirements now ds event rs mapped s = (s', n) \<Longrightarrow> vol_quiet s s'"
proof (induction rs arbitrary: mapped s s' n)
  case (Cons r rs)
  then show ?case
    by (auto simp: Let_def split: if_splits prod.splits) (metis vol_quiet_trans notify_quiet)
qed (simp add: emission)

lemma run_matching_quiet: "run_matching now eid s = (s', res) \<Longrightarrow> vol_quiet s s'"
  by (auto simp: run_matching_def emission split: option.splits if_splits sum.splits prod.splits dest: match_quiet)

lemma fulfilled_quiet: "mark_requirement_fulfilled now rid s = Some s' \<Longrightarrow> vol_quiet s s'"
  by (auto simp: mark_requirement_fulfilled_def Let_def emission split: option.splits if_splits)

lemma profile_upd_quiet:
  assumes "\<And>v. vp_user_id (f v) = vp_user_id v"
  shows "vol_quiet s (s\<lparr>profiles := row_upd p f (profiles s)\<rparr>)"
  using map_key_row_upd [of vp_user_id f p "profiles s"] assms by (auto simp: vol_quiet_def emits_def)

lemma accept_quiet: "accept_assignment now mid u s = (s', res) \<Longrightarrow> vol_quiet s s'"
  by (auto simp: accept_assignment_def Let_def emission split: option.splits if_splits
      dest!: fulfilled_quiet)

lemma transition_quiet: "transition_assignment now mid u st s = (s', res) \<Longrightarrow> vol_quiet s s'"
  by (auto simp: transition_assignment_def Let_def emission split: option.splits if_splits)

lemma vol_call_quiet: "vol_call s s' \<Longrightarrow> vol_quiet s s'"
proof (induction rule: vol_call.induct)
  case (step_declare now p raw s s' res)
  then show ?case
    by (auto simp: route_declare_event_def declare_event_def Let_def emission
        split: sum.splits option.splits prod.splits)
next
  case (step_rebroadcast now p eid s s' res')
  then show ?case
    by (auto simp: route_rebroadcast_def emission split: sum.splits if_splits prod.splits dest: run_matching_quiet)
next
  case (step_close p eid s s' res'')
  then show ?case by (auto simp: route_close_event_def emission split: sum.splits)
next
  case (step_accept now p mid s s' res3)
  then show ?case by (auto simp: route_accept_def emission split: sum.splits prod.splits dest: accept_quiet)
next
  case (step_transition now p mid st s s' res3)
  then show ?case by (auto simp: route_transition_def emission split: sum.splits prod.splits dest: transition_quiet)
next
  case (step_update_profile p upd s s' res4)
  then show ?case
    by (auto simp: route_update_my_profile_def Let_def emission split: sum.splits intro: profile_upd_quiet)
next
  case (step_availability p b s s' res4)
  then show ?case
    by (auto simp: route_set_availability_def emission split: sum.splits if_splits intro: profile_upd_quiet)
next
  case (step_help now p hc s s' res5)
  then show ?case
    by (auto simp: route_create_help_request_def Let_def emission split: sum.splits)
next
  case (step_report now p rc s s' res6)
  then show ?case
    by (auto simp: route_submit_report_def Let_def emission split: sum.splits option.splits)
qed

lemma disaster_quiet: "handle_disaster (now, m) s = Inr s' \<Longrightarrow> vol_quiet s s'"
proof (erule handle_disaster_cases)
  fix e t n assume "run_matching now t (mark_processed e s) = (s', Inr n)"
  from run_matching_quiet [OF this] show ?thesis
    by (auto simp: vol_quiet_def emits_def mark_processed_def)
qed (simp add: emission)

section \<open>Identity\<close>

type_synonym account = "uuid \<times> uuid option \<times> user_type"

definition account_of :: "user \<Rightarrow> account" where
  "account_of u = (us_id u, us_tenant_id u, us_user_type u)"

definition accounts :: "iam_db \<Rightarrow> account set" where
  "accounts s = account_of ` set (users s)"

text \<open>A row of the identity service, relative to the accounts that exist: a registration or an update
  carries the data of an account, a deactivation its id; the rest is about tenants.\<close>

definition about_account :: "account set \<Rightarrow> uuid option \<Rightarrow> (string \<times> json) list \<Rightarrow> bool" where
  "about_account A tenant data \<longleftrightarrow>
     (\<exists>u. account_of u \<in> A \<and> tenant = us_tenant_id u \<and>
        (data = user_registered_payload u \<or> (\<exists>t. data = status_payload t u)))"

definition names_account :: "account set \<Rightarrow> (string \<times> json) list \<Rightarrow> bool" where
  "names_account A data \<longleftrightarrow> (\<exists>u. account_of u \<in> A \<and> dget data ''user_id'' = Some (JUuid (us_id u)))"

definition tenant_key :: "string \<Rightarrow> bool" where
  "tenant_key key \<longleftrightarrow> take (length ''iam.tenant.'') key = ''iam.tenant.''"

definition account_row :: "account set \<Rightarrow> outbox_row \<Rightarrow> bool" where
  "account_row A r \<longleftrightarrow>
     (\<exists>now tenant data.
        ob_payload r = account_envelope (ob_event_id r) now (ob_routing_key r) tenant data \<and>
        (ob_routing_key r \<in> {''iam.user.registered'', ''iam.user.updated''} \<and> about_account A tenant data \<or>
         ob_routing_key r = ''iam.user.deactivated'' \<and> names_account A data \<or>
         tenant_key (ob_routing_key r)))"

definition registration :: "account \<Rightarrow> outbox_row \<Rightarrow> bool" where
  "registration a r \<longleftrightarrow>
     ob_routing_key r = ''iam.user.registered'' \<and>
     (\<exists>now u. account_of u = a \<and>
        ob_payload r = account_envelope (ob_event_id r) now ''iam.user.registered'' (us_tenant_id u)
          (user_registered_payload u))"

text \<open>The effect of a call: rows about existing accounts are appended, accounts stay, and a new account is
  announced unless it is a super admin of the bootstrap script.\<close>

definition iam_effect :: "iam_db \<Rightarrow> iam_db \<Rightarrow> bool" where
  "iam_effect s s' \<longleftrightarrow>
     emits (account_row (accounts s')) s s' \<and> accounts s \<subseteq> accounts s' \<and>
     (\<forall>a \<in> accounts s'. a \<in> accounts s \<or> snd (snd a) = SUPER_ADMIN \<or> (\<exists>r \<in> set (outbox s'). registration a r))"

lemma account_row_mono: "account_row A r \<Longrightarrow> A \<subseteq> B \<Longrightarrow> account_row B r"
  unfolding account_row_def about_account_def names_account_def by (elim exE conjE, intro exI conjI, assumption) blast

lemma iam_effect_same:
  "outbox s' = outbox s \<Longrightarrow> outbox_seq s' = outbox_seq s \<Longrightarrow> next_uuid s \<le> next_uuid s' \<Longrightarrow>
   accounts s' = accounts s \<Longrightarrow> iam_effect s s'"
  using emits_draw [OF emits_refl] by (auto simp: iam_effect_def)

lemma accounts_frame [simp]:
  "accounts (iam_emit now key tenant data s) = accounts s" "accounts (revoke_live now owns s) = accounts s"
  "accounts (s\<lparr>refresh_tokens := ts\<rparr>) = accounts s" "accounts (s\<lparr>next_uuid := n\<rparr>) = accounts s"
  "accounts (s\<lparr>tenants := tns\<rparr>) = accounts s" "accounts (s\<lparr>users := users s @ [u]\<rparr>) = insert (account_of u) (accounts s)"
  by (auto simp: accounts_def revoke_live_def)

lemma accounts_put:
  assumes "iam_inv s" "u \<in> set (users s)" "account_of u' = account_of u"
  shows "accounts (put_user u' s) = accounts s"
proof -
  have "keyed us_id (next_uuid s) (users s)" using assms(1) by (simp add: iam_inv_def)
  then have "account_of (if us_id x = us_id u' then u' else x) = account_of x" if "x \<in> set (users s)" for x
    using keyed_unique [of us_id _ "users s" x u] assms that by (auto simp: account_of_def)
  then have "map account_of (row_upd (\<lambda>x. us_id x = us_id u') (\<lambda>_. u') (users s)) = map account_of (users s)"
    by (simp add: row_upd_def)
  then show ?thesis
    unfolding accounts_def put_user_def by (metis (no_types, lifting) iam_db.select_convs(2) iam_db.update_convs(2) iam_db.surjective set_map)
qed

lemma emits_iam:
  assumes "emits (account_row A) s s'"
    and "account_row A \<lparr>ob_id = outbox_seq s', ob_event_id = next_uuid s', ob_routing_key = key,
      ob_payload = account_envelope (next_uuid s') now key tenant data, ob_published_at = None\<rparr>"
  shows "emits (account_row A) s (iam_emit now key tenant data s')"
  unfolding iam_emit_def using assms(2) by (intro emits_emit [OF assms(1)]) (simp add: account_envelope_def)

lemma registration_row:
  "account_of u \<in> A \<Longrightarrow> account_row A \<lparr>ob_id = i, ob_event_id = e, ob_routing_key = ''iam.user.registered'',
     ob_payload = account_envelope e now ''iam.user.registered'' (us_tenant_id u) (user_registered_payload u),
     ob_published_at = None\<rparr>"
  unfolding account_row_def about_account_def
  by (intro exI [of _ now] exI [of _ "us_tenant_id u"] exI [of _ "user_registered_payload u"]) auto

lemma tenant_row:
  "tenant_key key \<Longrightarrow> account_row A \<lparr>ob_id = i, ob_event_id = e, ob_routing_key = key,
     ob_payload = account_envelope e now key tenant data, ob_published_at = None\<rparr>"
  unfolding account_row_def by (intro exI [of _ now] exI [of _ tenant] exI [of _ data]) simp

lemma registered_effect:
  assumes "insert_user u s1 = Inr s2" "emits (account_row (insert (account_of u) (accounts s))) s s2'"
    and "accounts s2' = accounts s2" "accounts s1 = accounts s" "tenant = us_tenant_id u"
  shows "iam_effect s (iam_emit now ''iam.user.registered'' tenant (user_registered_payload u) s2')"
proof -
  have acc: "accounts s2' = insert (account_of u) (accounts s)"
    using insert_user_Inr [OF assms(1)] assms(3,4) by simp
  have "registration (account_of u) \<lparr>ob_id = outbox_seq s2', ob_event_id = next_uuid s2',
    ob_routing_key = ''iam.user.registered'', ob_payload = account_envelope (next_uuid s2') now ''iam.user.registered''
      (us_tenant_id u) (user_registered_payload u), ob_published_at = None\<rparr>"
    by (auto simp: registration_def)
  then show ?thesis
    using emits_iam [OF assms(2) registration_row [of u]] acc assms(5)
    by (auto simp: iam_effect_def account_envelope_emitted)
qed


lemma onboard_effect: "onboard_tenant cr now d s = (s', res) \<Longrightarrow> iam_effect s s'"
proof -
  assume r: "onboard_tenant cr now d s = (s', res)"
  let ?t = "\<lparr>tn_id = next_uuid s, tn_name = to_name d, tn_slug = to_slug d, tn_description = to_description d,
    tn_status = ''active'', tn_latitude = None, tn_longitude = None, tn_created_at = now\<rparr>"
  let ?i = "Suc (next_uuid s)"
  let ?u = "new_user ?i now (Some (tn_id ?t)) TENANT_ADMIN (to_admin_email d)
    (hash_password cr ?i (to_admin_password d)) (to_admin_full_name d) None"
  let ?s1 = "s\<lparr>tenants := tenants s @ [?t], next_uuid := Suc ?i\<rparr>"
  show ?thesis
  proof (cases "to_slug d \<in> tn_slug ` set (tenants s)")
    case True
    then show ?thesis using r by (auto simp: onboard_tenant_def intro: iam_effect_same)
  next
    case False
    show ?thesis
    proof (cases "insert_user ?u ?s1")
      case (Inl e)
      then show ?thesis using r False by (auto simp: onboard_tenant_def Let_def intro: iam_effect_same)
    next
      case (Inr s2)
      let ?s3 = "iam_emit now ''iam.tenant.created'' (Some (tn_id ?t))
        [(''tenant_id'', JUuid (tn_id ?t)), (''name'', JStr (tn_name ?t)), (''slug'', JStr (tn_slug ?t))] s2"
      have "emits (account_row A) s s2" for A
        using insert_user_Inr [OF Inr] emits_refl [of "account_row A" s] by (simp add: emits_def)
      then have "emits (account_row A) s ?s3" for A by (intro emits_iam tenant_row) (simp_all add: tenant_key_def)
      then have "iam_effect s (iam_emit now ''iam.user.registered'' (Some (tn_id ?t)) (user_registered_payload ?u) ?s3)"
        by (rule registered_effect [OF Inr]) (simp_all add: new_user_def)
      moreover have "s' = iam_emit now ''iam.user.registered'' (Some (tn_id ?t)) (user_registered_payload ?u) ?s3"
        using r False Inr by (simp add: onboard_tenant_def Let_def)
      ultimately show ?thesis by simp
    qed
  qed
qed

lemma inserted_emits:
  assumes "insert_user u (s\<lparr>next_uuid := Suc (next_uuid s)\<rparr>) = Inr s2"
  shows "emits (account_row A) s s2"
  using insert_user_Inr [OF assms] emits_refl [of "account_row A" s] by (simp add: emits_def)

lemma register_effects:
  "register_tenant_user cr now t g s = (s', res) \<Longrightarrow> iam_effect s s'"
  "register_global_user cr haversine now g s = (s', res) \<Longrightarrow> iam_effect s s'"
  "create_super_admin cr now a s = (s', res2) \<Longrightarrow> iam_effect s s'"
  by (auto simp: register_tenant_user_def register_global_user_def create_super_admin_def Let_def new_user_def
      split: if_splits sum.splits
      intro: iam_effect_same registered_effect inserted_emits)


lemma put_user_effect:
  assumes "iam_inv s" "u \<in> set (users s)" "account_of u' = account_of u"
  shows "iam_effect s (put_user u' s)"
    "next_uuid s \<le> n \<Longrightarrow> iam_effect s (revoke_live now owns (put_user u' (s\<lparr>next_uuid := n\<rparr>)))"
proof -
  show "iam_effect s (put_user u' s)"
    using accounts_put [OF assms] by (intro iam_effect_same) (simp_all add: put_user_def)
  have "put_user u' (s\<lparr>next_uuid := n\<rparr>) = (put_user u' s)\<lparr>next_uuid := n\<rparr>" by (simp add: put_user_def)
  then have "accounts (revoke_live now owns (put_user u' (s\<lparr>next_uuid := n\<rparr>))) = accounts s"
    using accounts_put [OF assms] by simp
  then show "iam_effect s (revoke_live now owns (put_user u' (s\<lparr>next_uuid := n\<rparr>)))" if "next_uuid s \<le> n"
    using that by (intro iam_effect_same) (simp_all add: put_user_def revoke_live_def)
qed

lemma iam_effect_emit:
  assumes "iam_effect s s'"
    and "\<And>i e. account_row (accounts s') \<lparr>ob_id = i, ob_event_id = e, ob_routing_key = key,
      ob_payload = account_envelope e now key tenant data, ob_published_at = None\<rparr>"
  shows "iam_effect s (iam_emit now key tenant data s')"
  using assms(1) emits_iam [of "accounts s'" s s'] assms(2) by (auto simp: iam_effect_def account_envelope_emitted)

lemma account_touch [simp]:
  "account_of (touch_user now u u') = (if u' = u then account_of u else account_of u')"
  by (simp add: touch_user_def account_of_def)

lemma update_row:
  assumes "account_of u \<in> A" "data = user_registered_payload u \<or> (\<exists>t. data = status_payload t u)" "tenant = us_tenant_id u"
  shows "account_row A \<lparr>ob_id = i, ob_event_id = e, ob_routing_key = ''iam.user.updated'',
     ob_payload = account_envelope e now ''iam.user.updated'' tenant data, ob_published_at = None\<rparr>"
  unfolding account_row_def about_account_def
  using assms by (intro exI [of _ now] exI [of _ tenant] exI [of _ data]) auto

lemma deactivation_row:
  "account_of u \<in> A \<Longrightarrow> dget data ''user_id'' = Some (JUuid (us_id u)) \<Longrightarrow>
   account_row A \<lparr>ob_id = i, ob_event_id = e, ob_routing_key = ''iam.user.deactivated'',
     ob_payload = account_envelope e now ''iam.user.deactivated'' tenant data, ob_published_at = None\<rparr>"
  unfolding account_row_def names_account_def by (intro exI [of _ now] exI [of _ tenant] exI [of _ data]) auto

lemma profile_effect:
  assumes "update_user_profile now uid fn ph s = (s', res)" "iam_inv s"
  shows "iam_effect s s'"
proof (cases "row_get us_id uid (users s)")
  case None
  then show ?thesis using assms(1) by (auto simp: update_user_profile_def get_user_by_id_def intro: iam_effect_same)
next
  case (Some u)
  then have u: "u \<in> set (users s)" by (auto dest: user_row)
  define u1 where "u1 = u\<lparr>us_full_name := (case fn of None \<Rightarrow> us_full_name u | Some n \<Rightarrow> n),
    us_phone := (case ph of None \<Rightarrow> us_phone u | Some p \<Rightarrow> Some p)\<rparr>"
  have acc: "account_of u1 = account_of u" "account_of u \<in> accounts s" "account_of (touch_user now u u1) = account_of u"
    using u by (auto simp: u1_def account_of_def accounts_def)
  have "iam_effect s (put_user (touch_user now u u1) s)" by (rule put_user_effect [OF assms(2) u acc(3)])
  then have "iam_effect s (iam_emit now ''iam.user.updated'' (us_tenant_id u1) (user_registered_payload u1)
      (put_user (touch_user now u u1) s))"
    using acc accounts_put [OF assms(2) u acc(3)] by (intro iam_effect_emit update_row) auto
  then show ?thesis
    using assms(1) Some by (simp add: update_user_profile_def get_user_by_id_def Let_def u1_def)
qed

lemma user_status_effect:
  assumes "set_user_status now uid status s = (s', res)" "iam_inv s"
  shows "iam_effect s s'"
proof (cases "row_get us_id uid (users s)")
  case None
  then show ?thesis using assms(1) by (auto simp: set_user_status_def intro: iam_effect_same)
next
  case (Some u)
  then have u: "u \<in> set (users s)" by (auto dest: user_row)
  define u1 where "u1 = touch_user now u (u\<lparr>us_status := status\<rparr>)"
  have acc: "account_of u1 = account_of u" "account_of u \<in> accounts s" "us_tenant_id u1 = us_tenant_id u"
    using u by (auto simp: u1_def account_of_def accounts_def touch_user_def)
  define s2 where "s2 = (if status \<in> {''disabled'', ''banned''} then
    iam_emit now ''iam.user.deactivated'' (us_tenant_id u)
      [(''user_id'', JUuid (us_id u)), (''tenant_id'', json_opt JUuid (us_tenant_id u)),
       (''status'', JStr status), (''occurred_at'', JTime now)] (revoke_live now (\<lambda>i. i = us_id u) (put_user u1 s))
    else put_user u1 s)"
  note put = accounts_put [OF assms(2) u acc(1)]
  have "iam_effect s (revoke_live now (\<lambda>i. i = us_id u) (put_user u1 s))"
    using put_user_effect(2) [OF assms(2) u acc(1), where n = "next_uuid s"] by simp
  then have "iam_effect s s2"
    using put_user_effect(1) [OF assms(2) u acc(1)] put acc
    by (auto simp: s2_def intro!: iam_effect_emit deactivation_row [of u])
  moreover have "accounts s2 = accounts s" using put by (simp add: s2_def)
  ultimately have "iam_effect s (iam_emit now ''iam.user.updated'' (us_tenant_id u) (status_payload now u1) s2)"
    using acc by (intro iam_effect_emit update_row [of u1]) auto
  moreover have "s' = iam_emit now ''iam.user.updated'' (us_tenant_id u) (status_payload now u1) s2"
    using assms(1) Some unfolding s2_def u1_def by (simp add: set_user_status_def Let_def)
  ultimately show ?thesis by simp
qed

lemma tenant_status_effect:
  assumes "set_tenant_status now tid status s = (s', res)"
  shows "iam_effect s s'"
proof -
  have "iam_effect s (revoke_live now owns (s\<lparr>tenants := ts\<rparr>))" "iam_effect s (s\<lparr>tenants := ts\<rparr>)" for owns ts
    by (rule iam_effect_same; simp add: revoke_live_def)+
  then show ?thesis
    using assms
    by (auto simp: set_tenant_status_def Let_def split: option.splits if_splits
        simp: tenant_key_def intro!: iam_effect_emit tenant_row intro: iam_effect_same)
qed

lemma issue_pair_effect: "issue_pair cr now raw u rf s = (s', res) \<Longrightarrow> iam_effect s s'"
  by (erule issue_pair_cases) (auto intro: iam_effect_same)

lemma iam_effect_revoked [simp]: "iam_effect (s\<lparr>refresh_tokens := ts\<rparr>) s' = iam_effect s s'"
  by (simp add: iam_effect_def emits_def)

lemma session_effects:
  "login cr now raw d s = (s', res) \<Longrightarrow> iam_effect s s'"
  "refresh cr now old raw s = (s', res) \<Longrightarrow> iam_effect s s'"
  by (erule login_cases refresh_cases; auto dest: issue_pair_effect intro: iam_effect_same)+

lemma password_effects:
  "iam_inv s \<Longrightarrow> change_user_password cr now uid cur pw s = (s', res2) \<Longrightarrow> iam_effect s s'"
  "iam_inv s \<Longrightarrow> admin_reset_user_password cr now uid pw s = (s', res3) \<Longrightarrow> iam_effect s s'"
  by (auto simp: change_user_password_def admin_reset_user_password_def get_user_by_id_def Let_def account_of_def
      split: option.splits if_splits dest: user_row intro: iam_effect_same intro!: put_user_effect(2))

lemma accounts_insert: "insert_user u s1 = Inr s2 \<Longrightarrow> accounts s2 = insert (account_of u) (accounts s1)"
  by (drule insert_user_Inr) simp

lemma bootstrap_effect: "bootstrap_superadmin cr now email pw name s = (s', code) \<Longrightarrow> iam_effect s s'"
  by (auto simp: bootstrap_superadmin_def iam_effect_def account_of_def new_user_def split: if_splits option.splits sum.splits
      intro: emits_refl inserted_emits dest: accounts_insert)

inductive iam_call :: "crypto \<Rightarrow> iam_db \<Rightarrow> iam_db \<Rightarrow> bool" for cr where
  call_public: "iam_public cr s s' \<Longrightarrow> iam_call cr s s'"
| call_console: "iam_console cr p s s' \<Longrightarrow> iam_call cr s s'"
| call_bootstrap: "bootstrap_superadmin cr now email pw name s = (s', code) \<Longrightarrow> iam_call cr s s'"

lemma iam_call_step: "iam_call cr s s' \<Longrightarrow> iam_step cr s s'"
  by (induction rule: iam_call.induct) (auto intro: iam_step.intros)

lemma iam_call_effect:
  assumes "iam_call cr s s'" "iam_inv s"
  shows "iam_effect s s'"
  using assms(1)
proof (cases rule: iam_call.cases)
  case call_public
  then show ?thesis
    using assms(2)
    by (cases rule: iam_public_cases)
      (auto intro: iam_effect_same onboard_effect register_effects session_effects password_effects profile_effect)
next
  case (call_console p)
  then show ?thesis
    using assms(2)
    by (cases rule: iam_console_cases)
      (auto intro: iam_effect_same register_effects password_effects user_status_effect tenant_status_effect)
qed (rule bootstrap_effect)

end
