(* ===== verification/Workers.thy ===== *)
theory Workers
  imports Messaging
begin

text \<open>
  The worker threads of the services: the relay loop of
  \<open>services/{iam,logistics,volunteer}/app/events/relay.py\<close>, and the consumer loop, the message callback
  and the broker topology of \<open>services/{logistics,volunteer}/app/events/consumers/*.py\<close> and
  \<open>services/analytics/app/events/consumer.py\<close>.

  A loop runs until its stop event is set, so it is a \<open>partial_function (option)\<close>: \<open>None\<close> is the loop
  that never ends. Everything a loop does not decide itself is its environment, a record of functions
  of the number of times the loop has looked at the stop event: the event, whether the broker accepts
  a connection, its answers, and the rows other threads of the service have committed meanwhile. The
  pauses of \<open>time.sleep\<close> change no state.
\<close>

section \<open>The relay loop\<close>

record relay_env =
  re_stop :: "nat \<Rightarrow> bool"
  re_connect :: "nat \<Rightarrow> bool"
  re_emitted :: "nat \<Rightarrow> outbox_row list"
  re_locked :: "nat \<Rightarrow> nat \<Rightarrow> bool"
  re_broker :: "nat \<Rightarrow> outbox_row \<Rightarrow> bool \<times> bool"
  re_now :: "nat \<Rightarrow> timestamp"
  re_upkeep :: "nat \<Rightarrow> bool"

text \<open>The inner loop, on a connected channel: it ends when the stop event is set, or with an exception
  of \<open>_drain_once\<close> or of \<open>process_data_events\<close> (\<open>re_upkeep\<close>), which is called after an idle drain only.
  The result is the number of checks made, the outbox and what has reached the broker.\<close>

partial_function (option) drain_loop ::
  "relay_env \<Rightarrow> nat \<Rightarrow> outbox_row list \<Rightarrow> outbox_row list \<Rightarrow>
   (nat \<times> outbox_row list \<times> outbox_row list) option" where
  "drain_loop env k rows sentlog =
     (let db = rows @ re_emitted env k in
      if re_stop env k then Some (Suc k, db, sentlog)
      else
        (case drain_once (re_locked env k) (re_broker env k) (re_now env k) db of
           (rows', sent, result) \<Rightarrow>
             if result = None \<or> (result = Some 0 \<and> \<not> re_upkeep env k)
             then Some (Suc k, rows', sentlog @ sent)
             else drain_loop env (Suc k) rows' (sentlog @ sent)))"

text \<open>\<open>_relay_loop\<close>: connect, drain until an exception or the stop event, and look at the stop event
  again. A refused connection is retried.\<close>

partial_function (option) relay_loop ::
  "relay_env \<Rightarrow> nat \<Rightarrow> outbox_row list \<Rightarrow> outbox_row list \<Rightarrow>
   (nat \<times> outbox_row list \<times> outbox_row list) option" where
  "relay_loop env k rows sentlog =
     (let db = rows @ re_emitted env k in
      if re_stop env k then Some (Suc k, db, sentlog)
      else if re_connect env k then
        Option.bind (drain_loop env (Suc k) db sentlog)
          (\<lambda>(k', rows', sentlog'). relay_loop env k' rows' sentlog')
      else relay_loop env (Suc k) db sentlog)"

text \<open>The stop event is set before check \<open>K\<close> and stays set.\<close>

definition stops_at :: "nat \<Rightarrow> (nat \<Rightarrow> bool) \<Rightarrow> bool" where
  "stops_at K stop \<longleftrightarrow> (\<forall>k. stop k \<longleftrightarrow> K \<le> k)"

text \<open>The relay is alone and a confirm means delivery; the rows other threads commit are unpublished,
  with ids above the earlier ones.\<close>

definition single_relay :: "relay_env \<Rightarrow> bool" where
  "single_relay env \<longleftrightarrow> (\<forall>k. confirms (re_broker env k) \<and> re_locked env k = (\<lambda>_. False))"

definition new_rows :: "relay_env \<Rightarrow> nat \<Rightarrow> outbox_row list \<Rightarrow> bool" where
  "new_rows env k rows \<longleftrightarrow>
     (\<forall>n. sorted_wrt (<) (map ob_id (rows @ concat (map (re_emitted env) [k..<n])))) \<and>
     (\<forall>j. \<forall>r \<in> set (re_emitted env j). ob_published_at r = None)"

section \<open>Termination of the relay\<close>

lemma drain_loop_stops:
  assumes "stops_at K (re_stop env)"
  shows "\<exists>k' rows' sentlog'. drain_loop env k rows sentlog = Some (k', rows', sentlog') \<and>
    k < k' \<and> k' \<le> max (Suc K) (Suc k)"
proof (induction "K - k" arbitrary: k rows sentlog)
  case 0
  then have "re_stop env k" using assms by (simp add: stops_at_def)
  then show ?case by (subst drain_loop.simps) simp
next
  case (Suc d)
  then have "\<not> re_stop env k" using assms by (simp add: stops_at_def)
  moreover obtain rows1 sent result where
    "drain_once (re_locked env k) (re_broker env k) (re_now env k) (rows @ re_emitted env k) = (rows1, sent, result)"
    using prod_cases3 by blast
  moreover from Suc have "d = K - Suc k" by simp
  from Suc(1) [OF this, of rows1 "sentlog @ sent"] obtain k' rows' sentlog' where
    "drain_loop env (Suc k) rows1 (sentlog @ sent) = Some (k', rows', sentlog')" "Suc k < k'"
    "k' \<le> max (Suc K) (Suc (Suc k))" by blast
  ultimately show ?case using Suc(2) by (subst drain_loop.simps) (auto simp: Let_def)
qed

lemma relay_loop_stops:
  assumes "stops_at K (re_stop env)"
  shows "\<exists>k' rows' sentlog'. relay_loop env k rows sentlog = Some (k', rows', sentlog') \<and>
    k < k' \<and> k' \<le> Suc (max (Suc K) k)"
proof (induction "K - k" arbitrary: k rows sentlog rule: less_induct)
  case less
  let ?db = "rows @ re_emitted env k"
  show ?case
  proof (cases "re_stop env k")
    case True
    then show ?thesis by (subst relay_loop.simps) (simp add: Let_def)
  next
    case False
    then have "k < K" using assms by (simp add: stops_at_def)
    obtain k1 rows1 sentlog1 where d: "drain_loop env (Suc k) ?db sentlog = Some (k1, rows1, sentlog1)"
      "Suc k < k1" "k1 \<le> max (Suc K) (Suc (Suc k))"
      using drain_loop_stops [OF assms, of "Suc k" ?db sentlog] by auto
    define nxt where "nxt = (if re_connect env k then (k1, rows1, sentlog1) else (Suc k, ?db, sentlog))"
    obtain k2 rows2 sentlog2 where n: "nxt = (k2, rows2, sentlog2)" by (cases nxt)
    then have k2: "k < k2" "k2 \<le> Suc K" using d \<open>k < K\<close> by (auto simp: nxt_def split: if_splits)
    then have "K - k2 < K - k" using \<open>k < K\<close> by simp
    from less(1) [OF this, of rows2 sentlog2] obtain k' rows' sentlog' where
      "relay_loop env k2 rows2 sentlog2 = Some (k', rows', sentlog')" "k2 < k'" "k' \<le> Suc (max (Suc K) k2)"
      by blast
    moreover have "relay_loop env k rows sentlog = relay_loop env k2 rows2 sentlog2"
      using False d(1) n by (subst relay_loop.simps) (auto simp: Let_def nxt_def split: if_splits)
    ultimately show ?thesis using k2 by auto
  qed
qed

section \<open>The relay loop refines the relay steps\<close>

lemma new_rows_next:
  assumes "new_rows env k rows" "map ob_id rows' = map ob_id (rows @ re_emitted env k)"
  shows "new_rows env (Suc k) rows'"
proof -
  have "sorted_wrt (<) (map ob_id (rows' @ concat (map (re_emitted env) [Suc k..<n])))" for n
  proof (cases "k < n")
    case True
    then have "[k..<n] = k # [Suc k..<n]" by (rule upt_conv_Cons)
    then show ?thesis
      using assms(1) [unfolded new_rows_def, THEN conjunct1, rule_format, of n] assms(2) by simp
  next
    case False
    then show ?thesis
      using assms(1) [unfolded new_rows_def, THEN conjunct1, rule_format, of "Suc k"] assms(2) by simp
  qed
  then show ?thesis using assms(1) by (simp add: new_rows_def)
qed

lemma relay_emits:
  "sorted_wrt (<) (map ob_id (rows @ new)) \<Longrightarrow> \<forall>r \<in> set new. ob_published_at r = None \<Longrightarrow>
   relay_step\<^sup>*\<^sup>* (rows, sentlog) (rows @ new, sentlog)"
proof (induction new rule: rev_induct)
  case (snoc r new)
  then have "relay_step\<^sup>*\<^sup>* (rows, sentlog) (rows @ new, sentlog)"
    by (simp add: sorted_wrt_append)
  moreover have "relay_step (rows @ new, sentlog) ((rows @ new) @ [r], sentlog)"
    using snoc.prems by (intro relay_emit) (auto simp: sorted_wrt_append)
  ultimately show ?case by simp
qed simp

lemma new_rows_emits:
  assumes "new_rows env k rows"
  shows "relay_step\<^sup>*\<^sup>* (rows, sentlog) (rows @ re_emitted env k, sentlog)"
proof (rule relay_emits)
  show "sorted_wrt (<) (map ob_id (rows @ re_emitted env k))"
    using assms [unfolded new_rows_def, THEN conjunct1, rule_format, of "Suc k"] by simp
  show "\<forall>r \<in> set (re_emitted env k). ob_published_at r = None" using assms by (simp add: new_rows_def)
qed

lemma drain_once_ids: "drain_once locked broker now rows = (rows', sent, result) \<Longrightarrow> map ob_id rows' = map ob_id rows"
  by (auto simp: drain_once_def Let_def split: prod.splits bool.splits)

text \<open>Partial correctness by fixpoint induction: whatever a loop returns was reached by relay steps.\<close>

lemma drain_loop_steps:
  assumes "drain_loop env k rows sentlog = Some res" and "single_relay env" "new_rows env k rows"
  shows "\<exists>k' rows' sentlog'. res = (k', rows', sentlog') \<and>
    relay_step\<^sup>*\<^sup>* (rows, sentlog) (rows', sentlog') \<and> new_rows env k' rows'"
  using assms
proof (induction rule: drain_loop.raw_induct [rotated, consumes 1, case_names 1])
  case (1 loop env k rows sentlog res)
  let ?db = "rows @ re_emitted env k"
  note emits = new_rows_emits [OF 1(4), of sentlog]
  show ?case
  proof (cases "re_stop env k")
    case True
    then show ?thesis using 1(2) emits new_rows_next [OF 1(4), of ?db] by (auto simp: Let_def)
  next
    case False
    have one: "confirms (re_broker env k)" "re_locked env k = (\<lambda>_. False)"
      using 1(3) by (simp_all add: single_relay_def)
    obtain rows1 sent result where
      d: "drain_once (re_locked env k) (re_broker env k) (re_now env k) ?db = (rows1, sent, result)"
      using prod_cases3 by blast
    have "relay_step (?db, sentlog) (rows1, sentlog @ sent)"
      using relay_drain [OF one(1)] d one(2) by simp
    with emits have steps: "relay_step\<^sup>*\<^sup>* (rows, sentlog) (rows1, sentlog @ sent)" by simp
    have new: "new_rows env (Suc k) rows1" using new_rows_next [OF 1(4) drain_once_ids [OF d]] .
    show ?thesis
    proof (cases "result = None \<or> (result = Some 0 \<and> \<not> re_upkeep env k)")
      case True
      then show ?thesis using False 1(2) d steps new by (auto simp: Let_def)
    next
      case cont: False
      then have "loop env (Suc k) rows1 (sentlog @ sent) = Some res"
        using False 1(2) d by (auto simp: Let_def split: if_splits)
      from 1(1) [OF this 1(3) new] show ?thesis by (auto intro: rtranclp_trans [OF steps])
    qed
  qed
qed

lemma relay_loop_steps:
  assumes "relay_loop env k rows sentlog = Some res" and "single_relay env" "new_rows env k rows"
  shows "\<exists>k' rows' sentlog'. res = (k', rows', sentlog') \<and>
    relay_step\<^sup>*\<^sup>* (rows, sentlog) (rows', sentlog') \<and> new_rows env k' rows'"
  using assms
proof (induction rule: relay_loop.raw_induct [rotated, consumes 1, case_names 1])
  case (1 loop env k rows sentlog res)
  let ?db = "rows @ re_emitted env k"
  note emits = new_rows_emits [OF 1(4), of sentlog]
  have new: "new_rows env (Suc k) ?db" using new_rows_next [OF 1(4)] by simp
  show ?case
  proof (cases "re_stop env k")
    case True
    then show ?thesis using 1(2) emits new by (auto simp: Let_def)
  next
    case False
    show ?thesis
    proof (cases "re_connect env k")
      case True
      with False 1(2) obtain res1 where
        r: "drain_loop env (Suc k) ?db sentlog = Some res1" "(\<lambda>(k', rows', sentlog'). loop env k' rows' sentlog') res1 = Some res"
        by (auto simp: Let_def Option.bind_eq_Some_conv)
      from drain_loop_steps [OF r(1) 1(3) new] obtain k1 rows1 sentlog1 where
        d: "res1 = (k1, rows1, sentlog1)" "relay_step\<^sup>*\<^sup>* (?db, sentlog) (rows1, sentlog1)" "new_rows env k1 rows1" by blast
      have "loop env k1 rows1 sentlog1 = Some res" using r(2) d(1) by simp
      from 1(1) [OF this 1(3) d(3)] show ?thesis
        by (auto intro: rtranclp_trans [OF rtranclp_trans [OF emits d(2)]])
    next
      case refused: False
      then have "loop env (Suc k) ?db sentlog = Some res" using False 1(2) by (simp add: Let_def)
      from 1(1) [OF this 1(3) new] show ?thesis by (auto intro: rtranclp_trans [OF emits])
    qed
  qed
qed

section \<open>Progress after an outage\<close>

text \<open>From check \<open>c\<close> on the broker accepts connections and confirms, and no further rows are written.\<close>

definition recovers_at :: "nat \<Rightarrow> relay_env \<Rightarrow> bool" where
  "recovers_at c env \<longleftrightarrow>
     (\<forall>k \<ge> c. re_connect env k \<and> re_broker env k = healthy \<and> re_locked env k = (\<lambda>_. False) \<and>
       re_upkeep env k \<and> re_emitted env k = [])"

definition pending :: "nat \<Rightarrow> relay_env \<Rightarrow> nat \<Rightarrow> outbox_row list \<Rightarrow> nat" where
  "pending c env k rows = length rows + length (concat (map (re_emitted env) [k..<c]))"

lemma unpublished_le: "unpublished rows \<le> length rows"
  by (simp add: unpublished_def row_count_def)

lemma pending_next:
  assumes "k < c" "map ob_id rows' = map ob_id (rows @ re_emitted env k)"
  shows "pending c env (Suc k) rows' = pending c env k rows"
proof -
  have "length rows' = length (rows @ re_emitted env k)" using assms(2) by (metis length_map)
  then show ?thesis using upt_conv_Cons [OF assms(1)] by (simp add: pending_def)
qed

lemma new_rows_distinct: "new_rows env k rows \<Longrightarrow> distinct (map ob_id (rows @ re_emitted env k))"
  unfolding new_rows_def by (drule conjunct1, drule spec [of _ "Suc k"]) (simp add: strict_sorted_iff)

lemma drain_loop_recovered:
  assumes "stops_at K (re_stop env)" "recovers_at c env" "new_rows env k rows" "c \<le> k"
    and "drain_loop env k rows sentlog = Some (k', rows', sentlog')"
  shows "K < k' \<and> unpublished rows' = unpublished rows - BATCH_SIZE * (K - k)"
  using assms(3-5)
proof (induction "K - k" arbitrary: k rows sentlog)
  case 0
  then have "re_stop env k" "re_emitted env k = []" using assms(1,2) by (auto simp: stops_at_def recovers_at_def)
  then show ?case using 0 by (subst (asm) drain_loop.simps) auto
next
  case (Suc d)
  have env: "\<not> re_stop env k" "re_emitted env k = []" "re_broker env k = healthy"
    "re_locked env k = (\<lambda>_. False)" "re_upkeep env k"
    using Suc(2,4) assms(1,2) by (auto simp: stops_at_def recovers_at_def)
  let ?b = "drain_batch (\<lambda>_. False) rows"
  define rows1 where "rows1 = row_upd (\<lambda>r. ob_id r \<in> ob_id ` set ?b)
    (\<lambda>r. r\<lparr>ob_published_at := Some (re_now env k)\<rparr>) rows"
  have d: "drain_once (\<lambda>_. False) healthy (re_now env k) rows = (rows1, ?b, Some (length ?b))"
    by (simp add: drain_once_healthy rows1_def)
  then have "drain_loop env (Suc k) rows1 (sentlog @ ?b) = Some (k', rows', sentlog')"
    using Suc(5) env by (subst (asm) drain_loop.simps) (simp add: Let_def)
  moreover have "new_rows env (Suc k) rows1"
    using new_rows_next [OF Suc(3), of rows1] env(2) by (simp add: rows1_def)
  ultimately have "K < k' \<and> unpublished rows' = unpublished rows1 - BATCH_SIZE * (K - Suc k)"
    using Suc(1) [of "Suc k" rows1 "sentlog @ ?b"] Suc(2,4) by simp
  moreover have "unpublished rows1 = unpublished rows - BATCH_SIZE"
    using unpublished_after_drain [of rows] new_rows_distinct [OF Suc(3)] env(2) by (simp add: rows1_def)
  moreover have "BATCH_SIZE * (K - k) = BATCH_SIZE + BATCH_SIZE * (K - Suc k)"
    using Suc(2) by (metis Suc_diff_Suc mult_Suc_right zero_less_Suc zero_less_diff)
  ultimately show ?case by simp
qed

lemma drain_loop_progress:
  assumes "stops_at K (re_stop env)" "recovers_at c env" "c < K" "new_rows env k rows" "k \<le> Suc c"
    and "drain_loop env k rows sentlog = Some (k', rows', sentlog')"
  shows "k' \<le> c \<and> pending c env k' rows' = pending c env k rows \<or>
    K < k' \<and> unpublished rows' \<le> pending c env k rows - BATCH_SIZE * (K - Suc c)"
  using assms(4-6)
proof (induction "c - k" arbitrary: k rows sentlog)
  case 0
  then have "K < k'" "unpublished rows' = unpublished rows - BATCH_SIZE * (K - k)"
    using drain_loop_recovered [OF assms(1,2) 0(2) _ 0(4)] by auto
  moreover have "BATCH_SIZE * (K - Suc c) \<le> BATCH_SIZE * (K - k)"
    using 0(3) by (intro mult_le_mono2) simp
  moreover have "unpublished rows \<le> pending c env k rows"
    using unpublished_le [of rows] by (simp add: pending_def)
  ultimately have "unpublished rows' \<le> pending c env k rows - BATCH_SIZE * (K - Suc c)"
    by (metis diff_le_mono diff_le_mono2 order_trans)
  with \<open>K < k'\<close> show ?case by simp
next
  case (Suc d)
  then have k: "k < c" "\<not> re_stop env k" using assms(1,3) by (auto simp: stops_at_def)
  obtain rows1 sent result where
    d: "drain_once (re_locked env k) (re_broker env k) (re_now env k) (rows @ re_emitted env k) = (rows1, sent, result)"
    using prod_cases3 by blast
  note ids = drain_once_ids [OF d]
  note pend = pending_next [OF k(1) ids]
  show ?case
  proof (cases "result = None \<or> (result = Some 0 \<and> \<not> re_upkeep env k)")
    case True
    then have "k' = Suc k" "rows' = rows1"
      using Suc(5) k(2) d by (subst (asm) drain_loop.simps, force simp: Let_def)+
    then show ?thesis using pend k(1) by simp
  next
    case False
    then have "drain_loop env (Suc k) rows1 (sentlog @ sent) = Some (k', rows', sentlog')"
      using Suc(5) k(2) d by (subst (asm) drain_loop.simps) (auto simp: Let_def split: if_splits)
    with Suc(1) [of "Suc k" rows1 "sentlog @ sent"] Suc(2) new_rows_next [OF Suc(3) ids] k(1) pend
    show ?thesis by simp
  qed
qed

lemma relay_loop_progress:
  assumes "stops_at K (re_stop env)" "recovers_at c env" "c < K" "single_relay env"
    and "new_rows env k rows" "k \<le> c"
    and "relay_loop env k rows sentlog = Some (k', rows', sentlog')"
  shows "unpublished rows' \<le> pending c env k rows - BATCH_SIZE * (K - Suc c)"
  using assms(5-7)
proof (induction "c - k" arbitrary: k rows sentlog rule: less_induct)
  case less
  let ?db = "rows @ re_emitted env k"
  have run: "\<not> re_stop env k" using less(3) assms(1,3) by (simp add: stops_at_def)
  have new: "new_rows env (Suc k) ?db" using new_rows_next [OF less(2)] by simp
  have pend: "pending c env (Suc k) ?db = pending c env k rows"
    using less(3) pending_next [of k c ?db rows env] assms(2)
    by (cases "k = c") (simp_all add: pending_def recovers_at_def)
  show ?case
  proof (cases "re_connect env k")
    case False
    then have "k < c" using less(3) assms(2) by (cases "k = c") (auto simp: recovers_at_def)
    then have "unpublished rows' \<le> pending c env (Suc k) ?db - BATCH_SIZE * (K - Suc c)"
      using less(1) [of "Suc k" ?db sentlog] new less(4) run False
      by (subst (asm) (2) relay_loop.simps) (simp add: Let_def)
    then show ?thesis using pend by simp
  next
    case True
    obtain k1 rows1 log1 where d: "drain_loop env (Suc k) ?db sentlog = Some (k1, rows1, log1)" "Suc k < k1"
      using drain_loop_stops [OF assms(1), of "Suc k" ?db sentlog] by auto
    have rest: "relay_loop env k1 rows1 log1 = Some (k', rows', sentlog')"
      using less(4) run True d(1) by (subst (asm) relay_loop.simps) (simp add: Let_def)
    have new1: "new_rows env k1 rows1" using drain_loop_steps [OF d(1) assms(4) new] by simp
    from less(3) have "Suc k \<le> Suc c" by simp
    from drain_loop_progress [OF assms(1-3) new this d(1)] consider
      (again) "k1 \<le> c" "pending c env k1 rows1 = pending c env (Suc k) ?db"
      | (stopped) "K < k1" "unpublished rows1 \<le> pending c env (Suc k) ?db - BATCH_SIZE * (K - Suc c)" by blast
    then show ?thesis
    proof cases
      case again
      then show ?thesis using less(1) [of k1 rows1 log1] new1 rest d(2) pend by simp
    next
      case stopped
      then have "re_stop env k1" "re_emitted env k1 = []"
        using assms(1-3) by (auto simp: stops_at_def recovers_at_def)
      then have "rows' = rows1" using rest by (subst (asm) relay_loop.simps) simp
      then show ?thesis using stopped pend by simp
    qed
  qed
qed

section \<open>The message callback and the consumer loop\<close>

text \<open>\<open>_on_message\<close>: the body is parsed (\<open>loads\<close> is \<open>json.loads\<close>) and handled; the message is
  acknowledged after the handler has committed, and rejected without requeueing on any exception.\<close>

datatype reply = Ack | Nack

definition on_message ::
  "('b \<Rightarrow> 'm option) \<Rightarrow> ('m \<Rightarrow> 's \<Rightarrow> 'e + 's) \<Rightarrow> 'b \<Rightarrow> 's \<Rightarrow> 's \<times> reply" where
  "on_message loads handle body s =
     (case loads body of
        None \<Rightarrow> (s, Nack)
      | Some m \<Rightarrow> (case handle m s of Inl _ \<Rightarrow> (s, Nack) | Inr s' \<Rightarrow> (s', Ack)))"

text \<open>\<open>start_consuming\<close> calls the callback for every delivery until the connection ends.\<close>

fun start_consuming ::
  "('b \<Rightarrow> 'm option) \<Rightarrow> ('m \<Rightarrow> 's \<Rightarrow> 'e + 's) \<Rightarrow> 'b list \<Rightarrow> 's \<Rightarrow> 's \<times> reply list" where
  "start_consuming loads handle [] s = (s, [])"
| "start_consuming loads handle (body # bodies) s =
     (case on_message loads handle body s of
        (s1, r) \<Rightarrow> (case start_consuming loads handle bodies s1 of (s2, rs) \<Rightarrow> (s2, r # rs)))"

text \<open>\<open>_consume_loop\<close>. The environment gives, for every check of the stop event, the event itself and
  the deliveries of the connection made then, \<open>None\<close> when it is refused. The stop event is looked at
  only between connections.\<close>

record 'b consumer_env =
  ce_stop :: "nat \<Rightarrow> bool"
  ce_connect :: "nat \<Rightarrow> 'b list option"

partial_function (option) consume_loop ::
  "('b \<Rightarrow> 'm option) \<Rightarrow> ('m \<Rightarrow> 's \<Rightarrow> 'e + 's) \<Rightarrow> 'b consumer_env \<Rightarrow> nat \<Rightarrow> 's \<Rightarrow> reply list \<Rightarrow>
   (nat \<times> 's \<times> reply list) option" where
  "consume_loop loads handle env k s replies =
     (if ce_stop env k then Some (Suc k, s, replies)
      else
        (case ce_connect env k of
           None \<Rightarrow> consume_loop loads handle env (Suc k) s replies
         | Some bodies \<Rightarrow>
             (case start_consuming loads handle bodies s of
                (s', rs) \<Rightarrow> consume_loop loads handle env (Suc k) s' (replies @ rs))))"

definition delivered :: "'b consumer_env \<Rightarrow> nat \<Rightarrow> nat \<Rightarrow> 'b list" where
  "delivered env k K = concat (map (\<lambda>j. case ce_connect env j of None \<Rightarrow> [] | Some bodies \<Rightarrow> bodies) [k..<K])"

lemma on_message_deliver:
  "fst (on_message loads handle body s) = (case loads body of None \<Rightarrow> s | Some m \<Rightarrow> deliver handle m s)"
  by (simp add: on_message_def deliver_def split: option.splits sum.splits)

lemma start_consuming_deliver_all:
  "fst (start_consuming loads handle bodies s) = deliver_all handle (List.map_filter loads bodies) s"
proof (induction bodies arbitrary: s)
  case Nil
  then show ?case by (simp add: deliver_all_def List.map_filter_simps)
next
  case (Cons body bodies)
  obtain s1 r s2 rs where "on_message loads handle body s = (s1, r)"
    "start_consuming loads handle bodies s1 = (s2, rs)" by fastforce
  then show ?case
    using Cons [of s1] on_message_deliver [of loads handle body s]
    by (simp add: deliver_all_def List.map_filter_simps split: option.splits)
qed

lemma start_consuming_replies:
  "length (snd (start_consuming loads handle bodies s)) = length bodies"
  by (induction bodies arbitrary: s) (simp_all split: prod.splits, metis snd_conv)

text \<open>A delivery is acknowledged exactly when it is well-formed and its handler commits on what the earlier
  deliveries left.\<close>

definition accepted :: "('b \<Rightarrow> 'm option) \<Rightarrow> ('m \<Rightarrow> 's \<Rightarrow> 'e + 's) \<Rightarrow> 's \<Rightarrow> 'b list \<Rightarrow> nat \<Rightarrow> bool" where
  "accepted loads handle s bodies i =
     (case loads (bodies ! i) of
        None \<Rightarrow> False
      | Some m \<Rightarrow> \<not> isl (handle m (deliver_all handle (List.map_filter loads (take i bodies)) s)))"

lemma start_consuming_reply:
  "i < length bodies \<Longrightarrow>
   snd (start_consuming loads handle bodies s) ! i = (if accepted loads handle s bodies i then Ack else Nack)"
proof (induction bodies arbitrary: s i)
  case (Cons body bodies)
  obtain s1 r where m: "on_message loads handle body s = (s1, r)" by fastforce
  show ?case
  proof (cases i)
    case 0
    then show ?thesis using m
      by (auto simp: accepted_def on_message_def deliver_all_def List.map_filter_simps split: prod.splits option.splits sum.splits)
  next
    case (Suc j)
    have "s1 = (case loads body of None \<Rightarrow> s | Some m \<Rightarrow> deliver handle m s)"
      using on_message_deliver [of loads handle body s] m by simp
    then have "accepted loads handle s (body # bodies) i = accepted loads handle s1 bodies j"
      by (simp add: accepted_def Suc deliver_all_def List.map_filter_simps split: option.splits)
    then show ?thesis using Cons.IH [of j s1] Cons.prems m by (auto simp: Suc split: prod.splits)
  qed
qed simp

lemma start_consuming_append:
  "start_consuming loads handle (xs @ ys) s =
     (case start_consuming loads handle xs s of
        (s1, rs) \<Rightarrow> (case start_consuming loads handle ys s1 of (s2, rs') \<Rightarrow> (s2, rs @ rs')))"
  by (induction xs arbitrary: s) (simp_all split: prod.splits)

lemma consume_loop_delivers:
  assumes "stops_at K (ce_stop env)"
  shows "consume_loop loads handle env k s replies =
    (case start_consuming loads handle (delivered env k K) s of
       (s', rs) \<Rightarrow> Some (Suc (max K k), s', replies @ rs))"
proof (induction "K - k" arbitrary: k s replies)
  case 0
  then have "ce_stop env k" "delivered env k K = []" using assms by (auto simp: stops_at_def delivered_def)
  then show ?case using 0 by (subst consume_loop.simps) (simp add: max_def)
next
  case (Suc d)
  then have k: "k < K" "\<not> ce_stop env k" using assms by (auto simp: stops_at_def)
  have "delivered env k K = (case ce_connect env k of None \<Rightarrow> [] | Some bodies \<Rightarrow> bodies) @ delivered env (Suc k) K"
    using upt_conv_Cons [OF k(1)] by (simp add: delivered_def)
  then show ?case
    using Suc(1) [of "Suc k"] Suc(2) k
    by (subst consume_loop.simps) (auto simp: start_consuming_append split: option.splits prod.splits)
qed

section \<open>Topology\<close>

text \<open>What a consumer declares on its channel before it consumes, as the list of requests to the broker:
  exchanges with their type and durability, queues with their durability and arguments, and bindings
  of a queue to an exchange under a pattern.\<close>

datatype channel_op =
    Exchange_declare string string bool
  | Queue_declare string bool "(string \<times> string) list"
  | Queue_bind string string string

record consumer_config =
  cc_queue :: string
  cc_dlq :: string
  cc_bindings :: "string list"

definition EVENTS_EXCHANGE :: string where
  "EVENTS_EXCHANGE = ''rcp.events''"

definition DLX_EXCHANGE :: string where
  "DLX_EXCHANGE = ''rcp.dlx''"

definition declare_topology :: "consumer_config \<Rightarrow> channel_op list" where
  "declare_topology cfg =
     [Exchange_declare EVENTS_EXCHANGE ''topic'' True,
      Exchange_declare DLX_EXCHANGE ''topic'' True,
      Queue_declare (cc_queue cfg) True
        [(''x-queue-type'', ''quorum''), (''x-dead-letter-exchange'', DLX_EXCHANGE)],
      Queue_declare (cc_dlq cfg) True [],
      Queue_bind (cc_dlq cfg) DLX_EXCHANGE ''#''] @
     map (Queue_bind (cc_queue cfg) EVENTS_EXCHANGE) (cc_bindings cfg)"

definition logistics_iam_consumer :: consumer_config where
  "logistics_iam_consumer =
     \<lparr>cc_queue = ''logistics.iam-events.q'', cc_dlq = ''dlq.logistics.iam-events'',
      cc_bindings = [''iam.user.*'', ''iam.tenant.*'']\<rparr>"

definition volunteer_iam_consumer :: consumer_config where
  "volunteer_iam_consumer =
     \<lparr>cc_queue = ''volunteer.iam-events.q'', cc_dlq = ''dlq.volunteer.iam-events'',
      cc_bindings = [''iam.user.*'']\<rparr>"

definition volunteer_disaster_consumer :: consumer_config where
  "volunteer_disaster_consumer =
     \<lparr>cc_queue = ''volunteer.disaster-events.q'', cc_dlq = ''dlq.volunteer.disaster-events'',
      cc_bindings = [''volunteer.disaster.declared'']\<rparr>"

definition analytics_consumer :: consumer_config where
  "analytics_consumer =
     \<lparr>cc_queue = ''analytics.projections.q'', cc_dlq = ''dlq.analytics.projections'',
      cc_bindings = [''logistics.request.*'', ''logistics.inventory.*'', ''logistics.resource-category.*'']\<rparr>"

definition consumer_configs :: "consumer_config list" where
  "consumer_configs =
     [logistics_iam_consumer, volunteer_iam_consumer, volunteer_disaster_consumer, analytics_consumer]"

text \<open>The queues a message reaches from an exchange, once the operations \<open>ops\<close> have been carried out.
  How the broker matches a routing key against a pattern is a parameter; the laws are those of topic
  exchanges: \<open>#\<close> matches every key, a final \<open>*\<close> matches one word, and a pattern without wildcards matches
  itself only.\<close>

fun bound_queue :: "(string \<Rightarrow> string \<Rightarrow> bool) \<Rightarrow> string \<Rightarrow> string \<Rightarrow> channel_op \<Rightarrow> string option" where
  "bound_queue matches exchange key (Queue_bind q e pat) =
     (if e = exchange \<and> matches pat key then Some q else None)"
| "bound_queue matches exchange key _ = None"

definition route :: "(string \<Rightarrow> string \<Rightarrow> bool) \<Rightarrow> channel_op list \<Rightarrow> string \<Rightarrow> string \<Rightarrow> string list" where
  "route matches ops exchange key = remdups (List.map_filter (bound_queue matches exchange key) ops)"

definition literal :: "string \<Rightarrow> bool" where
  "literal p \<longleftrightarrow> CHR ''*'' \<notin> set p \<and> CHR ''#'' \<notin> set p"

definition topic_laws :: "(string \<Rightarrow> string \<Rightarrow> bool) \<Rightarrow> bool" where
  "topic_laws matches \<longleftrightarrow>
     (\<forall>key. matches ''#'' key) \<and>
     (\<forall>p key. literal p \<longrightarrow>
        matches (p @ ''.*'') key = (\<exists>w. CHR ''.'' \<notin> set w \<and> key = p @ ''.'' @ w)) \<and>
     (\<forall>p key. literal p \<longrightarrow> matches p key = (p = key))"

text \<open>A concrete topic match, on the words between dots.\<close>

fun match_words :: "string list \<Rightarrow> string list \<Rightarrow> bool" where
  "match_words [] ws = (ws = [])"
| "match_words (p # ps) [] = (p = ''#'' \<and> match_words ps [])"
| "match_words (p # ps) (w # ws) =
     (if p = ''#'' then match_words ps (w # ws) \<or> match_words (p # ps) ws
      else (p = ''*'' \<or> p = w) \<and> match_words ps ws)"

definition topic_match :: "string \<Rightarrow> string \<Rightarrow> bool" where
  "topic_match p key = match_words (split_on CHR ''.'' p) (split_on CHR ''.'' key)"

lemma match_words_literal:
  "\<forall>p \<in> set ps. p \<noteq> ''*'' \<and> p \<noteq> ''#'' \<Longrightarrow> match_words ps ws = (ps = ws)"
  by (induction ps ws rule: match_words.induct) auto

lemma match_words_star:
  "\<forall>p \<in> set ps. p \<noteq> ''*'' \<and> p \<noteq> ''#'' \<Longrightarrow> match_words (ps @ [''*'']) ws = (\<exists>w. ws = ps @ [w])"
proof (induction ps arbitrary: ws)
  case Nil
  then show ?case by (cases ws) auto
next
  case (Cons p ps)
  then show ?case by (cases ws) auto
qed

lemma literal_words: "literal p \<Longrightarrow> w \<in> set (split_on CHR ''.'' p) \<Longrightarrow> w \<noteq> ''*'' \<and> w \<noteq> ''#''"
  using split_on_chars [of w _ p] by (auto simp: literal_def)

lemma match_words_hash: "match_words [''#''] ws"
  by (induction ws) simp_all

lemma topic_match_laws: "topic_laws topic_match"
proof -
  have "topic_match ''#'' key" for key
    using match_words_hash by (simp add: topic_match_def)
  moreover have "topic_match (p @ ''.*'') key = (\<exists>w. CHR ''.'' \<notin> set w \<and> key = p @ ''.'' @ w)"
    if "literal p" for p key
  proof -
    have "topic_match (p @ ''.*'') key = (\<exists>w. split_on CHR ''.'' key = split_on CHR ''.'' p @ [w])"
      using match_words_star [of "split_on CHR ''.'' p"] literal_words [OF that]
      by (simp add: topic_match_def split_on_append)
    also have "\<dots> = (\<exists>w. CHR ''.'' \<notin> set w \<and> key = p @ ''.'' @ w)"
    proof
      assume "\<exists>w. split_on CHR ''.'' key = split_on CHR ''.'' p @ [w]"
      then obtain w where w: "split_on CHR ''.'' key = split_on CHR ''.'' p @ [w]" by blast
      then have "CHR ''.'' \<notin> set w" using split_on_no_sep [of w _ key] by simp
      moreover from this w have "key = p @ ''.'' @ w"
        by (intro split_on_inj [of "CHR ''.''"]) (simp add: split_on_append split_on_plain)
      ultimately show "\<exists>w. CHR ''.'' \<notin> set w \<and> key = p @ ''.'' @ w" by blast
    qed (auto simp: split_on_append split_on_plain)
    finally show ?thesis .
  qed
  moreover have "topic_match p key = (p = key)" if "literal p" for p key
    using match_words_literal literal_words [OF that] split_on_inj
    by (auto simp: topic_match_def)
  ultimately show ?thesis by (simp add: topic_laws_def)
qed

lemma route_member:
  "q \<in> set (route matches ops exchange key) \<longleftrightarrow>
     (\<exists>pat. Queue_bind q exchange pat \<in> set ops \<and> matches pat key)"
proof -
  have "bound_queue matches exchange key op1 = Some q \<longleftrightarrow>
    (\<exists>pat. op1 = Queue_bind q exchange pat \<and> matches pat key)" for op1
    by (cases op1) auto
  then show ?thesis by (force simp: route_def List.map_filter_def)
qed


section \<open>Properties\<close>


definition demo_row :: "nat \<Rightarrow> outbox_row" where
  "demo_row i = \<lparr>ob_id = i, ob_event_id = i + 5, ob_routing_key = ''k'', ob_payload = JNull, ob_published_at = None\<rparr>"

text \<open>Two rows are written before the first check; the second drain fails.\<close>

definition demo_relay_env :: "nat \<Rightarrow> relay_env" where
  "demo_relay_env K =
     \<lparr>re_stop = (\<lambda>k. K \<le> k), re_connect = (\<lambda>k. True),
      re_emitted = (\<lambda>k. if k = 0 then [demo_row 0, demo_row 1] else []),
      re_locked = (\<lambda>_ _. False), re_broker = (\<lambda>k r. if k = 1 then (ob_id r = 0, False) else (True, True)),
      re_now = (\<lambda>k. 9), re_upkeep = (\<lambda>k. True)\<rparr>"

lemma demo_relay_env_ok:
  "stops_at K (re_stop (demo_relay_env K))" "single_relay (demo_relay_env K)" "new_rows (demo_relay_env K) 0 []"
proof -
  show "stops_at K (re_stop (demo_relay_env K))" "single_relay (demo_relay_env K)"
    by (auto simp: stops_at_def single_relay_def demo_relay_env_def confirms_def)
  have "concat (map (re_emitted (demo_relay_env K)) [0..<n]) = (if n = 0 then [] else [demo_row 0, demo_row 1])" for n
    by (induction n) (auto simp: demo_relay_env_def)
  then show "new_rows (demo_relay_env K) 0 []"
    by (simp add: new_rows_def demo_row_def demo_relay_env_def)
qed


text \<open>C15. The relay catches up after an outage: if the broker is reachable and confirms from check \<open>c\<close> on,
  no further rows are written then, and the relay is left running long enough for the rows written so
  far (a batch of 100 for every check but one after \<open>c\<close>), then it has published every row when it is stopped.\<close>

theorem relay_loop_catches_up:
  assumes "stops_at K (re_stop env)" and "single_relay env" and "new_rows env 0 []"
    and "recovers_at c env" and "c < K"
    and "length (concat (map (re_emitted env) [0..<c])) \<le> BATCH_SIZE * (K - Suc c)"
  shows "\<exists>k rows sentlog. relay_loop env 0 [] [] = Some (k, rows, sentlog) \<and> unpublished rows = 0"
proof -
  obtain k rows sentlog where r: "relay_loop env 0 [] [] = Some (k, rows, sentlog)"
    using relay_loop_stops [OF assms(1), of 0 "[]" "[]"] by auto
  have "unpublished rows \<le> pending c env 0 [] - BATCH_SIZE * (K - Suc c)"
    by (rule relay_loop_progress [OF assms(1,4,5,2,3) _ r]) simp
  then show ?thesis using r assms(6) by (simp add: pending_def)
qed

theorem relay_loop_catches_up_witness:
  "\<exists>k rows sentlog. relay_loop (demo_relay_env 6) 0 [] [] = Some (k, rows, sentlog) \<and> unpublished rows = 0"
proof (rule relay_loop_catches_up [OF demo_relay_env_ok, where c = 2])
  show "recovers_at 2 (demo_relay_env 6)"
    by (auto simp: recovers_at_def demo_relay_env_def healthy_def)
  show "length (concat (map (re_emitted (demo_relay_env 6)) [0..<2])) \<le> BATCH_SIZE * (6 - Suc 2)"
    by (simp add: demo_relay_env_def BATCH_SIZE_def upt_rec)
qed simp



text \<open>Dead letters are shared: because every consumer binds its dead-letter queue to the one
  dead-letter exchange with the pattern \<open>#\<close>, a message any consumer rejects is stored in the dead-letter
  queues of all consumers, whatever its routing key.\<close>

theorem dead_letters_shared:
  assumes "topic_laws matches"
  shows "set (route matches (concat (map declare_topology consumer_configs)) DLX_EXCHANGE key) =
    cc_dlq ` set consumer_configs"
proof -
  have "matches ''#'' key" using assms by (simp add: topic_laws_def)
  then show ?thesis
    by (auto simp: route_member consumer_configs_def declare_topology_def EVENTS_EXCHANGE_def DLX_EXCHANGE_def)
qed

theorem dead_letters_shared_witness:
  "''dlq.analytics.projections'' \<in> set (route topic_match (concat (map declare_topology consumer_configs))
     DLX_EXCHANGE ''iam.user.registered'')"
  using dead_letters_shared [OF topic_match_laws, of "''iam.user.registered''"]
  by (simp add: consumer_configs_def analytics_consumer_def)


end
