(* ===== verification/Analytics.thy ===== *)
theory Analytics
  imports Auth Messaging
begin

text \<open>
  The analytics service (\<open>services/analytics/app\<close>): the consumer that projects logistics events into its
  own tables (\<open>events/consumer.py\<close>, \<open>models/projection.py\<close>) and the two reports of the dashboard
  (\<open>services/reporting.py\<close>, \<open>api/routes_reports.py\<close>). Column lengths and the foreign key of inventory items
  are checked by the writes, which raise DatabaseError.
\<close>

section \<open>State\<close>

record category_projection =
  cj_category_id :: uuid
  cj_tenant_id :: uuid
  cj_name :: string
  cj_description :: "string option"
  cj_unit :: string
  cj_is_active :: bool
  cj_updated_at :: "timestamp option"

record inventory_projection =
  ip_item_id :: uuid
  ip_tenant_id :: uuid
  ip_category_id :: uuid
  ip_name :: string
  ip_quantity_total :: int
  ip_quantity_reserved :: int
  ip_quantity_available :: int
  ip_status :: string
  ip_updated_at :: "timestamp option"

record request_projection =
  rp_request_id :: uuid
  rp_tenant_id :: uuid
  rp_category_id :: uuid
  rp_quantity_needed :: int
  rp_status :: string
  rp_urgency :: string
  rp_updated_at :: "timestamp option"

record analytics_db =
  an_categories :: "category_projection list"
  an_items :: "inventory_projection list"
  an_requests :: "request_projection list"
  an_processed :: "uuid list"

section \<open>Conversions\<close>

text \<open>\<open>int(s)\<close> on a string: blanks around it, a sign, decimal digits with single underscores between.
  The flag says whether the character before was a digit.\<close>

fun parse_digits :: "string \<Rightarrow> int \<Rightarrow> bool \<Rightarrow> int option" where
  "parse_digits [] acc digit = (if digit then Some acc else None)"
| "parse_digits (c # cs) acc digit =
     (if CHR ''0'' \<le> c \<and> c \<le> CHR ''9'' then parse_digits cs (acc * 10 + of_char c - 48) True
      else if c = CHR ''_'' \<and> digit then parse_digits cs acc False
      else None)"

definition int_of_string :: "string \<Rightarrow> int option" where
  "int_of_string s =
     (case strip s of
        [] \<Rightarrow> None
      | c # cs \<Rightarrow>
          if c = CHR ''-'' then map_option uminus (parse_digits cs 0 False)
          else if c = CHR ''+'' then parse_digits cs 0 False
          else parse_digits (c # cs) 0 False)"

text \<open>\<open>int(v)\<close>; a float is truncated towards zero.\<close>

fun int_of_json :: "json \<Rightarrow> py_error + int" where
  "int_of_json (JInt i) = Inr i"
| "int_of_json (JBool b) = Inr (if b then 1 else 0)"
| "int_of_json (JFloat (Fin r)) = Inr (if 0 \<le> r then \<lfloor>r\<rfloor> else \<lceil>r\<rceil>)"
| "int_of_json (JFloat NaN) = Inl ValueError"
| "int_of_json (JFloat _) = Inl OverflowError"
| "int_of_json (JStr s) = (case int_of_string s of None \<Rightarrow> Inl ValueError | Some i \<Rightarrow> Inr i)"
| "int_of_json (JUuid u) = Inl ValueError"
| "int_of_json (JTime t) = Inl ValueError"
| "int_of_json _ = Inl TypeError"

text \<open>A \<open>String(n)\<close> column and an \<open>Integer\<close> column.\<close>

definition varchar :: "nat \<Rightarrow> json \<Rightarrow> py_error + string" where
  "varchar n v = andthen (col_str v) (\<lambda>s. if length s \<le> n then Inr s else Inl DatabaseError)"

definition integer_col :: "json \<Rightarrow> py_error + int" where
  "integer_col v = andthen (int_of_json v) (\<lambda>i. if - (2 ^ 31) \<le> i \<and> i < 2 ^ 31 then Inr i else Inl DatabaseError)"

text \<open>\<open>_parse_dt\<close> swallows every exception.\<close>

definition parse_dt :: "json \<Rightarrow> timestamp option" where
  "parse_dt v =
     (if \<not> truthy v then None else (case fromisoformat v of Inl _ \<Rightarrow> None | Inr t \<Rightarrow> Some t))"

definition is_stale :: "timestamp option \<Rightarrow> timestamp option \<Rightarrow> bool" where
  "is_stale row incoming = (case (row, incoming) of (Some r, Some i) \<Rightarrow> i < r | _ \<Rightarrow> False)"

section \<open>Projections\<close>

definition category_row ::
  "uuid \<Rightarrow> uuid \<Rightarrow> (string \<times> json) list \<Rightarrow> py_error + category_projection" where
  "category_row cid tenant data =
     andthen (andthen (dindex data ''name'') (varchar 150)) (\<lambda>name.
     andthen (col_str_opt (dget_default data ''description'' JNull)) (\<lambda>description.
     andthen (varchar 50 (dget_default data ''unit'' (JStr ''unit''))) (\<lambda>unit.
       Inr \<lparr>cj_category_id = cid, cj_tenant_id = tenant, cj_name = name, cj_description = description, cj_unit = unit,
            cj_is_active = truthy (dget_default data ''is_active'' (JBool True)),
            cj_updated_at = parse_dt (dget_default data ''updated_at'' JNull)\<rparr>)))"

text \<open>An update leaves the tenant of the row.\<close>

definition upsert_category ::
  "(string \<times> json) list \<Rightarrow> uuid \<Rightarrow> analytics_db \<Rightarrow> py_error + analytics_db" where
  "upsert_category data tenant s =
     andthen (andthen (dindex data ''category_id'') uuid_of) (\<lambda>cid.
       case row_get cj_category_id cid (an_categories s) of
         None \<Rightarrow> andthen (category_row cid tenant data) (\<lambda>r. Inr (s\<lparr>an_categories := an_categories s @ [r]\<rparr>))
       | Some row \<Rightarrow>
           if is_stale (cj_updated_at row) (parse_dt (dget_default data ''updated_at'' JNull)) then Inr s
           else andthen (category_row cid (cj_tenant_id row) data) (\<lambda>r.
             Inr (s\<lparr>an_categories := row_upd (\<lambda>x. cj_category_id x = cid) (\<lambda>_. r) (an_categories s)\<rparr>)))"

definition inventory_row ::
  "uuid \<Rightarrow> uuid \<Rightarrow> (string \<times> json) list \<Rightarrow> py_error + inventory_projection" where
  "inventory_row iid tenant data =
     andthen (andthen (dindex data ''category_id'') uuid_of) (\<lambda>cid.
     andthen (andthen (dindex data ''name'') (varchar 200)) (\<lambda>name.
     andthen (integer_col (dget_default data ''quantity_total'' (JInt 0))) (\<lambda>total.
     andthen (integer_col (dget_default data ''quantity_reserved'' (JInt 0))) (\<lambda>reserved.
     andthen (integer_col (dget_default data ''quantity_available'' (JInt 0))) (\<lambda>available.
     andthen (varchar 20 (dget_default data ''status'' (JStr ''available''))) (\<lambda>status.
       Inr \<lparr>ip_item_id = iid, ip_tenant_id = tenant, ip_category_id = cid, ip_name = name,
            ip_quantity_total = total, ip_quantity_reserved = reserved, ip_quantity_available = available,
            ip_status = status, ip_updated_at = parse_dt (dget_default data ''updated_at'' JNull)\<rparr>))))))"

definition upsert_inventory ::
  "(string \<times> json) list \<Rightarrow> uuid \<Rightarrow> analytics_db \<Rightarrow> py_error + analytics_db" where
  "upsert_inventory data tenant s =
     andthen (andthen (dindex data ''item_id'') uuid_of) (\<lambda>iid.
       let row = row_get ip_item_id iid (an_items s)
       in if (case row of None \<Rightarrow> False
              | Some r \<Rightarrow> is_stale (ip_updated_at r) (parse_dt (dget_default data ''updated_at'' JNull))) then Inr s
          else andthen (inventory_row iid tenant data) (\<lambda>r.
            if ip_category_id r \<notin> cj_category_id ` set (an_categories s) then Inl DatabaseError
            else case row of
                None \<Rightarrow> Inr (s\<lparr>an_items := an_items s @ [r]\<rparr>)
              | Some _ \<Rightarrow> Inr (s\<lparr>an_items := row_upd (\<lambda>x. ip_item_id x = iid) (\<lambda>_. r) (an_items s)\<rparr>)))"

definition request_row ::
  "uuid \<Rightarrow> uuid \<Rightarrow> (string \<times> json) list \<Rightarrow> py_error + request_projection" where
  "request_row rid tenant data =
     andthen (andthen (dindex data ''category_id'') uuid_of) (\<lambda>cid.
     andthen (integer_col (dget_default data ''quantity_needed'' (JInt 0))) (\<lambda>needed.
     andthen (varchar 20 (dget_default data ''status'' (JStr ''pending''))) (\<lambda>status.
     andthen (varchar 20 (dget_default data ''urgency'' (JStr ''medium''))) (\<lambda>urgency.
       Inr \<lparr>rp_request_id = rid, rp_tenant_id = tenant, rp_category_id = cid, rp_quantity_needed = needed,
            rp_status = status, rp_urgency = urgency,
            rp_updated_at = parse_dt (dget_default data ''updated_at'' JNull)\<rparr>))))"

definition upsert_request ::
  "(string \<times> json) list \<Rightarrow> uuid \<Rightarrow> analytics_db \<Rightarrow> py_error + analytics_db" where
  "upsert_request data tenant s =
     andthen (andthen (dindex data ''request_id'') uuid_of) (\<lambda>rid.
       let row = row_get rp_request_id rid (an_requests s)
       in if (case row of None \<Rightarrow> False
              | Some r \<Rightarrow> is_stale (rp_updated_at r) (parse_dt (dget_default data ''updated_at'' JNull))) then Inr s
          else andthen (request_row rid tenant data) (\<lambda>r.
            case row of
                None \<Rightarrow> Inr (s\<lparr>an_requests := an_requests s @ [r]\<rparr>)
              | Some _ \<Rightarrow> Inr (s\<lparr>an_requests := row_upd (\<lambda>x. rp_request_id x = rid) (\<lambda>_. r) (an_requests s)\<rparr>)))"

section \<open>The consumer\<close>

text \<open>The upsert an event type selects; a payload that is no dictionary cannot be indexed.\<close>

definition project :: "json \<Rightarrow> json \<Rightarrow> uuid \<Rightarrow> analytics_db \<Rightarrow> py_error + analytics_db" where
  "project event_type data tenant s =
     (let apply_upsert = (\<lambda>upsert. case data of JObj d \<Rightarrow> upsert d tenant s | _ \<Rightarrow> Inl TypeError)
      in if event_type \<in> {JStr ''logistics.resource-category.created'', JStr ''logistics.resource-category.updated''}
         then apply_upsert upsert_category
         else if event_type = JStr ''logistics.inventory.item-updated'' then apply_upsert upsert_inventory
         else if event_type = JStr ''logistics.request.submitted'' then apply_upsert upsert_request
         else if event_type = JStr ''logistics.request.status-changed'' then apply_upsert upsert_request
         else Inr s)"

definition handle_analytics :: "json \<Rightarrow> analytics_db \<Rightarrow> py_error + analytics_db" where
  "handle_analytics envelope s =
     (case envelope of
        JObj env \<Rightarrow>
          andthen (andthen (dindex env ''event_id'') uuid_of) (\<lambda>event_id.
          andthen (dindex env ''event_type'') (\<lambda>event_type.
          andthen (andthen (dindex env ''tenant_id'') uuid_of) (\<lambda>tenant.
          andthen (dindex env ''data'') (\<lambda>data.
            if event_id \<in> set (an_processed s) then Inr s
            else andthen (project event_type data tenant s) (\<lambda>s'.
                 andthen (varchar 200 event_type) (\<lambda>_.
                   Inr (s'\<lparr>an_processed := event_id # an_processed s'\<rparr>)))))))
      | _ \<Rightarrow> Inl TypeError)"

section \<open>Reports\<close>

definition OPEN_STATUSES :: "string list" where
  "OPEN_STATUSES = [''pending'', ''verified'', ''approved'', ''in_progress'']"

record need_row =
  nr_category_id :: uuid
  nr_category :: string
  nr_open_requests :: nat
  nr_fulfilled_requests :: nat
  nr_quantity_needed :: int
  nr_stock_available :: int

text \<open>\<open>_STOCK_SQL\<close>: the stock of every category that has an item of the tenant.\<close>

definition stock_by_category :: "uuid \<Rightarrow> analytics_db \<Rightarrow> (uuid \<times> int) list" where
  "stock_by_category tenant s =
     (let its = filter (\<lambda>i. ip_tenant_id i = tenant) (an_items s)
      in map (\<lambda>cid. (cid, sum_list (map (\<lambda>i. ip_quantity_total i - ip_quantity_reserved i)
                                  (filter (\<lambda>i. ip_category_id i = cid) its))))
           (remdups (map ip_category_id its)))"

definition need_vs_fulfillment :: "uuid \<Rightarrow> analytics_db \<Rightarrow> need_row list" where
  "need_vs_fulfillment tenant s =
     map (\<lambda>c. let joined = filter (\<lambda>r. rp_category_id r = cj_category_id c) (an_requests s)
             in \<lparr>nr_category_id = cj_category_id c, nr_category = cj_name c,
                 nr_open_requests = row_count (\<lambda>r. rp_status r \<in> set OPEN_STATUSES) joined,
                 nr_fulfilled_requests = row_count (\<lambda>r. rp_status r = ''fulfilled'') joined,
                 nr_quantity_needed =
                   sum_list (map rp_quantity_needed (filter (\<lambda>r. rp_status r \<in> set OPEN_STATUSES) joined)),
                 nr_stock_available =
                   (case map_of (stock_by_category tenant s) (cj_category_id c) of None \<Rightarrow> 0 | Some n \<Rightarrow> n)\<rparr>)
       (sort_key cj_name (filter (\<lambda>c. cj_tenant_id c = tenant) (an_categories s)))"

definition request_status_summary :: "uuid \<Rightarrow> analytics_db \<Rightarrow> (string \<times> nat) list" where
  "request_status_summary tenant s =
     group_counts rp_status (filter (\<lambda>r. rp_tenant_id r = tenant) (an_requests s))"

text \<open>The routes; a principal without a tenant makes \<open>tenant_id.hex\<close> raise.\<close>

definition tenant_report :: "(uuid \<Rightarrow> analytics_db \<Rightarrow> 'r) \<Rightarrow> principal \<Rightarrow> analytics_db \<Rightarrow> http_error + 'r" where
  "tenant_report report p s =
     andthen (require_any_role [''tenant_admin'', ''coordinator''] p) (\<lambda>p.
       case p_tenant_id p of
         None \<Rightarrow> Inl (HTTPException 500 ''Internal Server Error'')
       | Some t \<Rightarrow> Inr (report t s))"

definition route_need_vs_fulfillment :: "principal \<Rightarrow> analytics_db \<Rightarrow> http_error + need_row list" where
  "route_need_vs_fulfillment = tenant_report need_vs_fulfillment"

definition route_request_summary :: "principal \<Rightarrow> analytics_db \<Rightarrow> http_error + (string \<times> nat) list" where
  "route_request_summary = tenant_report request_status_summary"

section \<open>The consumer is idempotent\<close>

lemma project_processed: "project ty data tenant s = Inr s' \<Longrightarrow> an_processed s' = an_processed s"
  by (auto simp: project_def upsert_category_def upsert_inventory_def upsert_request_def andthen_Inr Let_def
      split: if_splits json.splits option.splits)

lemma handle_analytics_cases:
  assumes "handle_analytics m s = Inr s'"
  obtains (seen) e where "envelope_id m = Some e" "e \<in> set (an_processed s)" "s' = s"
  | (applied) e s1 where "envelope_id m = Some e" "e \<notin> set (an_processed s)"
      "s' = s1\<lparr>an_processed := e # an_processed s1\<rparr>" "an_processed s1 = an_processed s"
proof (cases m)
  case (JObj env)
  from assms JObj obtain v e where e: "dindex env ''event_id'' = Inr v" "uuid_of v = Inr e"
    by (auto simp: handle_analytics_def andthen_Inr)
  then have id: "envelope_id m = Some e"
    by (auto simp: JObj envelope_id_def dget_def dindex_def split: option.splits)
  show ?thesis
  proof (cases "e \<in> set (an_processed s)")
    case True
    then show ?thesis using assms JObj e seen [OF id True] by (auto simp: handle_analytics_def andthen_Inr)
  next
    case False
    then show ?thesis
      using assms JObj e applied [OF id False] project_processed by (auto simp: handle_analytics_def andthen_Inr)
  qed
qed (use assms in \<open>auto simp: handle_analytics_def\<close>)

interpretation an_consumer: idempotent_consumer handle_analytics "\<lambda>s. set (an_processed s)" envelope_id
  by unfold_locales (auto elim!: handle_analytics_cases)

end
