(* ===== verification/Analytics_Correct.thy ===== *)
theory Analytics_Correct
  imports Analytics Logistics_Inv
begin

text \<open>
  The correctness of the analytics service against its producer: the projection of an inventory item, fed
  with the events the logistics service publishes, is a last-writer-wins register that converges to the
  newest snapshot in any order of delivery, and the two reports agree with each other.
\<close>

section \<open>The projection of an item\<close>

text \<open>What the projection should hold for an item of the logistics service.\<close>

definition projection_of :: "uuid \<Rightarrow> timestamp \<Rightarrow> inventory_item \<Rightarrow> inventory_projection" where
  "projection_of tenant ts i =
     \<lparr>ip_item_id = it_id i, ip_tenant_id = tenant, ip_category_id = it_category_id i, ip_name = it_name i,
      ip_quantity_total = it_quantity_total i, ip_quantity_reserved = it_quantity_reserved i,
      ip_quantity_available = quantity_available i, ip_status = inventory_status_value (it_status i),
      ip_updated_at = Some ts\<rparr>"

text \<open>An event as the row sees it: the producer's time and the snapshot.\<close>

type_synonym item_snapshot = "uuid \<times> timestamp \<times> inventory_item"

definition item_upd :: "item_snapshot \<Rightarrow> inventory_projection option \<Rightarrow> inventory_projection option" where
  "item_upd = (\<lambda>(tenant, ts, i) row.
     if (case row of None \<Rightarrow> False | Some r \<Rightarrow> is_stale (ip_updated_at r) (Some ts)) then row
     else Some (projection_of tenant ts i))"

definition snapshot_time :: "item_snapshot \<Rightarrow> timestamp" where
  "snapshot_time = (\<lambda>(tenant, ts, i). ts)"

definition snapshot_view :: "item_snapshot \<Rightarrow> inventory_projection" where
  "snapshot_view = (\<lambda>(tenant, ts, i). projection_of tenant ts i)"

interpretation item_lww: lww_register item_upd snapshot_time ip_updated_at "\<lambda>r. r" snapshot_view
  by unfold_locales
    (auto simp: item_upd_def snapshot_time_def snapshot_view_def projection_of_def is_stale_def split: prod.splits)

text \<open>The envelope the logistics service publishes for a snapshot.\<close>

definition item_envelope :: "uuid \<Rightarrow> timestamp \<Rightarrow> item_snapshot \<Rightarrow> json" where
  "item_envelope e now = (\<lambda>(tenant, ts, i).
     snd (build_envelope e now ''logistics.inventory.item-updated'' ''logistics-service'' (Some tenant) (item_event ts i) 1 None))"

lemma item_envelope_id [simp]: "envelope_id (item_envelope e now x) = Some e"
  by (cases x) (simp add: item_envelope_def build_envelope_def envelope_id_def)

text \<open>The event is the payload that \<open>lg_emit\<close> writes to the outbox.\<close>

lemma item_envelope_emitted:
  "ob_payload (last (outbox (lg_emit now ''logistics.inventory.item-updated'' (Some tenant) (item_event ts i) s))) =
   item_envelope (next_uuid s) now (tenant, ts, i)"
  by (simp add: lg_emit_def emit_def build_envelope_def item_envelope_def)

definition projectable :: "inventory_item \<Rightarrow> bool" where
  "projectable i \<longleftrightarrow> item_ok i \<and> 0 \<le> it_quantity_reserved i \<and> length (it_name i) \<le> 200"

lemma inventory_row_item:
  assumes "projectable i"
  shows "inventory_row (it_id i) tenant (item_event ts i) = Inr (projection_of tenant ts i)"
proof -
  have "length (inventory_status_value (it_status i)) \<le> 20" by (cases "it_status i") simp_all
  then show ?thesis
    using assms
    by (simp add: projectable_def item_ok_def int4_def quantity_available_def inventory_row_def item_event_def
        varchar_def integer_col_def parse_dt_def projection_of_def)
qed

lemma item_id_projection [simp]: "ip_item_id (projection_of tenant ts i) = it_id i"
  "ip_category_id (projection_of tenant ts i) = it_category_id i"
  by (simp_all add: projection_of_def)

lemma handle_item_event:
  assumes "projectable i" "e \<notin> set (an_processed s)" "it_category_id i \<in> cj_category_id ` set (an_categories s)"
  shows "\<exists>s'. handle_analytics (item_envelope e now (tenant, ts, i)) s = Inr s' \<and>
    an_processed s' = e # an_processed s \<and> an_categories s' = an_categories s \<and>
    row_get ip_item_id (it_id i) (an_items s') = item_upd (tenant, ts, i) (row_get ip_item_id (it_id i) (an_items s))"
proof -
  have ty: "varchar 200 (JStr ''logistics.inventory.item-updated'') = Inr ''logistics.inventory.item-updated''"
    by (simp add: varchar_def)
  have h: "handle_analytics (item_envelope e now (tenant, ts, i)) s =
      andthen (upsert_inventory (item_event ts i) tenant s) (\<lambda>s'. Inr (s'\<lparr>an_processed := e # an_processed s'\<rparr>))"
    using assms(2) by (simp add: handle_analytics_def item_envelope_def build_envelope_def project_def ty)
  have id: "dindex (item_event ts i) ''item_id'' = Inr (JUuid (it_id i))"
    and dt: "parse_dt (dget_default (item_event ts i) ''updated_at'' JNull) = Some ts"
    by (simp_all add: item_event_def parse_dt_def)
  show ?thesis
  proof (cases "row_get ip_item_id (it_id i) (an_items s)")
    case None
    then show ?thesis
      unfolding h upsert_inventory_def id dt using assms inventory_row_item [OF assms(1), of tenant ts]
      by (simp add: item_upd_def row_get_append)
  next
    case (Some r)
    show ?thesis
    proof (cases "is_stale (ip_updated_at r) (Some ts)")
      case True
      then show ?thesis unfolding h upsert_inventory_def id dt using Some by (simp add: item_upd_def dt)
    next
      case False
      then show ?thesis
        unfolding h upsert_inventory_def id dt
        using Some assms inventory_row_item [OF assms(1), of tenant ts]
          row_get_put [of ip_item_id "it_id i" "projection_of tenant ts i" "an_items s"]
        by (simp add: item_upd_def dt)
    qed
  qed
qed

lemma deliver_item_events:
  assumes "\<forall>(e, now, tenant, ts, i) \<in> set evs. it_id i = iid \<and> projectable i \<and>
      it_category_id i \<in> cj_category_id ` set (an_categories s)"
    and "distinct (map fst evs)" "\<forall>x \<in> set evs. fst x \<notin> set (an_processed s)"
  shows "row_get ip_item_id iid (an_items (deliver_all handle_analytics (map (\<lambda>(e, now, x). item_envelope e now x) evs) s)) =
    fold item_upd (map (\<lambda>(e, now, x). x) evs) (row_get ip_item_id iid (an_items s))"
  using assms
proof (induction evs arbitrary: s)
  case Nil
  then show ?case by (simp add: deliver_all_def)
next
  case (Cons ev evs)
  obtain e now tenant ts i where ev: "ev = (e, now, tenant, ts, i)" by (cases ev)
  with Cons.prems have i: "it_id i = iid" "projectable i" "it_category_id i \<in> cj_category_id ` set (an_categories s)"
    "e \<notin> set (an_processed s)" by auto
  from handle_item_event [OF i(2,4,3), of now tenant ts] obtain s' where s':
    "handle_analytics (item_envelope e now (tenant, ts, i)) s = Inr s'" "an_processed s' = e # an_processed s"
    "an_categories s' = an_categories s"
    "row_get ip_item_id iid (an_items s') = item_upd (tenant, ts, i) (row_get ip_item_id iid (an_items s))"
    unfolding i(1) by blast
  have "\<forall>x \<in> set evs. fst x \<notin> set (an_processed s')" using Cons.prems(2,3) s'(2) ev by auto
  moreover have "\<forall>(e, now, tenant, ts, i) \<in> set evs. it_id i = iid \<and> projectable i \<and>
      it_category_id i \<in> cj_category_id ` set (an_categories s')"
    using Cons.prems(1) s'(3) by simp
  ultimately show ?case
    using Cons.IH [of s'] Cons.prems(2) s' by (simp add: ev deliver_all_def deliver_def)
qed

section \<open>Reports\<close>

lemma row_count_filter: "row_count p (filter q rows) = row_count (\<lambda>r. p r \<and> q r) rows"
  by (simp add: row_count_def conj_commute)

lemma sum_counts_by_key:
  "distinct ks \<Longrightarrow> sum_list (map (\<lambda>k. row_count p (filter (\<lambda>r. f r = k) rows)) ks) =
   row_count (\<lambda>r. p r \<and> f r \<in> set ks) rows"
  using sum_row_counts [of ks f "filter p rows"]
  by (simp add: row_count_filter conj_commute)

section \<open>Properties\<close>


definition an_demo_item :: "int \<Rightarrow> inventory_item" where
  "an_demo_item reserved =
     \<lparr>it_id = 5, it_tenant_id = 7, it_category_id = 3, it_name = ''rice'', it_quantity_total = 10,
      it_quantity_reserved = reserved, it_status = AVAILABLE, it_expiry_date = None, it_storage_location = None,
      it_donor_name = None, it_created_at = 20, it_updated_at = 20\<rparr>"

definition an_demo_db :: analytics_db where
  "an_demo_db =
     \<lparr>an_categories = [\<lparr>cj_category_id = 3, cj_tenant_id = 7, cj_name = ''food'', cj_description = None,
        cj_unit = ''kg'', cj_is_active = True, cj_updated_at = Some 10\<rparr>],
      an_items = [],
      an_requests = [\<lparr>rp_request_id = 8, rp_tenant_id = 7, rp_category_id = 3, rp_quantity_needed = 4,
        rp_status = ''approved'', rp_urgency = ''high'', rp_updated_at = None\<rparr>],
      an_processed = []\<rparr>"


text \<open>The two reports agree: when every request of the tenant is about one of its categories and no other
  request is, the open requests of the need report add up to the open ones of the status summary.\<close>

theorem reports_agree:
  assumes "distinct (map cj_category_id (an_categories s))"
    and "\<forall>r \<in> set (an_requests s). rp_tenant_id r = tenant \<longleftrightarrow>
      (\<exists>c \<in> set (an_categories s). cj_tenant_id c = tenant \<and> cj_category_id c = rp_category_id r)"
  shows "sum_list (map nr_open_requests (need_vs_fulfillment tenant s)) =
    sum_list (map (count_of (request_status_summary tenant s)) OPEN_STATUSES)"
proof -
  let ?cs = "sort_key cj_name (filter (\<lambda>c. cj_tenant_id c = tenant) (an_categories s))"
  have "distinct ?cs" using assms(1) by (simp add: distinct_map)
  then have "distinct (map cj_category_id ?cs)" using assms(1) by (auto simp: distinct_map inj_on_def)
  then have "sum_list (map nr_open_requests (need_vs_fulfillment tenant s)) =
      row_count (\<lambda>r. rp_status r \<in> set OPEN_STATUSES \<and> rp_category_id r \<in> set (map cj_category_id ?cs)) (an_requests s)"
    by (subst sum_counts_by_key [symmetric]) (simp_all add: need_vs_fulfillment_def Let_def comp_def)
  also have "\<dots> = row_count (\<lambda>r. rp_status r \<in> set OPEN_STATUSES \<and> rp_tenant_id r = tenant) (an_requests s)"
    using assms(2) by (intro row_count_cong) (force simp: image_iff)
  also have "\<dots> = sum_list (map (count_of (request_status_summary tenant s)) OPEN_STATUSES)"
    unfolding request_status_summary_def count_of_group_counts
    by (subst sum_row_counts) (auto simp: OPEN_STATUSES_def row_count_filter)
  finally show ?thesis .
qed

theorem reports_agree_witness:
  "sum_list (map nr_open_requests (need_vs_fulfillment 7 an_demo_db)) = 1 \<and>
   sum_list (map (count_of (request_status_summary 7 an_demo_db)) OPEN_STATUSES) = 1"
proof -
  have "sum_list (map nr_open_requests (need_vs_fulfillment 7 an_demo_db)) = 1" by code_simp
  then show ?thesis using reports_agree [of an_demo_db 7] by (simp add: an_demo_db_def)
qed

end
