(* ===== verification/Platform.thy ===== *)
theory Platform
  imports Emissions Workers Analytics_Correct
begin

text \<open>
  The platform as one transition system: the four services with their databases, the queues of the
  broker, the relays that publish the outboxes into the queues, and the consumers that read them. A
  step is one committed transaction of one service together with what the broker does for it. The
  queues and bindings are those of \<open>declare_topology\<close>; the matching of routing keys is a parameter.
\<close>

section \<open>State\<close>

type_synonym message = "string \<times> json"

record platform =
  pf_iam :: iam_db
  pf_logistics :: logistics_db
  pf_volunteer :: volunteer_db
  pf_analytics :: analytics_db
  pf_queues :: "string \<Rightarrow> message list"

definition platform_topology :: "channel_op list" where
  "platform_topology = concat (map declare_topology consumer_configs)"

text \<open>The broker appends a message to every queue bound to the exchange for its key.\<close>

definition enqueue ::
  "(string \<Rightarrow> string \<Rightarrow> bool) \<Rightarrow> string \<Rightarrow> message \<Rightarrow> (string \<Rightarrow> message list) \<Rightarrow> string \<Rightarrow> message list" where
  "enqueue matches exchange m Q =
     (\<lambda>q. if q \<in> set (route matches platform_topology exchange (fst m)) then Q q @ [m] else Q q)"

definition message_of :: "outbox_row \<Rightarrow> message" where
  "message_of r = (ob_routing_key r, ob_payload r)"

definition publish ::
  "(string \<Rightarrow> string \<Rightarrow> bool) \<Rightarrow> outbox_row list \<Rightarrow> (string \<Rightarrow> message list) \<Rightarrow> string \<Rightarrow> message list" where
  "publish matches sent Q = fold (\<lambda>r. enqueue matches EVENTS_EXCHANGE (message_of r)) sent Q"

text \<open>A consumer takes a message of its queue, not always the first one, since several may be in flight
  at once. It acknowledges after the commit, or rejects, and the broker dead-letters the message under
  its key; or the connection is lost between commit and acknowledgement, and the message stays.\<close>

inductive consume ::
  "(string \<Rightarrow> string \<Rightarrow> bool) \<Rightarrow> consumer_config \<Rightarrow> (json \<Rightarrow> 's \<Rightarrow> 'e + 's) \<Rightarrow>
   's \<times> (string \<Rightarrow> message list) \<Rightarrow> 's \<times> (string \<Rightarrow> message list) \<Rightarrow> bool" for matches cfg handle where
  consume_ack: "Q (cc_queue cfg) = xs @ (k, b) # ys \<Longrightarrow> on_message Some handle b s = (s', Ack) \<Longrightarrow>
    consume matches cfg handle (s, Q) (s', Q(cc_queue cfg := xs @ ys))"
| consume_nack: "Q (cc_queue cfg) = xs @ (k, b) # ys \<Longrightarrow> on_message Some handle b s = (s', Nack) \<Longrightarrow>
    consume matches cfg handle (s, Q) (s', enqueue matches DLX_EXCHANGE (k, b) (Q(cc_queue cfg := xs @ ys)))"
| consume_lost: "(k, b) \<in> set (Q (cc_queue cfg)) \<Longrightarrow> on_message Some handle b s = (s', Ack) \<Longrightarrow>
    consume matches cfg handle (s, Q) (s', Q)"

inductive pf_step ::
  "(string \<Rightarrow> string \<Rightarrow> bool) \<Rightarrow> crypto \<Rightarrow> (json \<Rightarrow> json option) \<Rightarrow> platform \<Rightarrow> platform \<Rightarrow> bool"
  for matches cr iso_date where
  pf_iam_call: "iam_call cr (pf_iam p) s \<Longrightarrow> pf_step matches cr iso_date p (p\<lparr>pf_iam := s\<rparr>)"
| pf_lg_call: "lg_call iso_date pr (pf_logistics p) l \<Longrightarrow> pf_step matches cr iso_date p (p\<lparr>pf_logistics := l\<rparr>)"
| pf_vol_call: "vol_call (pf_volunteer p) v \<Longrightarrow> pf_step matches cr iso_date p (p\<lparr>pf_volunteer := v\<rparr>)"
| pf_iam_relay: "confirms broker \<Longrightarrow> drain_once locked broker now (outbox (pf_iam p)) = (ob, sent, n) \<Longrightarrow>
    pf_step matches cr iso_date p
      (p\<lparr>pf_iam := (pf_iam p)\<lparr>outbox := ob\<rparr>, pf_queues := publish matches sent (pf_queues p)\<rparr>)"
| pf_lg_relay: "confirms broker \<Longrightarrow> drain_once locked broker now (outbox (pf_logistics p)) = (ob, sent, n) \<Longrightarrow>
    pf_step matches cr iso_date p
      (p\<lparr>pf_logistics := (pf_logistics p)\<lparr>outbox := ob\<rparr>, pf_queues := publish matches sent (pf_queues p)\<rparr>)"
| pf_vol_relay: "confirms broker \<Longrightarrow> drain_once locked broker now (outbox (pf_volunteer p)) = (ob, sent, n) \<Longrightarrow>
    pf_step matches cr iso_date p
      (p\<lparr>pf_volunteer := (pf_volunteer p)\<lparr>outbox := ob\<rparr>, pf_queues := publish matches sent (pf_queues p)\<rparr>)"
| pf_lg_iam: "consume matches logistics_iam_consumer handle_user_event (pf_logistics p, pf_queues p) (l, Q) \<Longrightarrow>
    pf_step matches cr iso_date p (p\<lparr>pf_logistics := l, pf_queues := Q\<rparr>)"
| pf_vol_iam: "consume matches volunteer_iam_consumer (\<lambda>m. handle_iam (now, m)) (pf_volunteer p, pf_queues p) (v, Q) \<Longrightarrow>
    pf_step matches cr iso_date p (p\<lparr>pf_volunteer := v, pf_queues := Q\<rparr>)"
| pf_vol_disaster:
    "consume matches volunteer_disaster_consumer (\<lambda>m. handle_disaster (now, m)) (pf_volunteer p, pf_queues p) (v, Q) \<Longrightarrow>
    pf_step matches cr iso_date p (p\<lparr>pf_volunteer := v, pf_queues := Q\<rparr>)"
| pf_analytics_projections:
    "consume matches analytics_consumer handle_analytics (pf_analytics p, pf_queues p) (a, Q) \<Longrightarrow>
    pf_step matches cr iso_date p (p\<lparr>pf_analytics := a, pf_queues := Q\<rparr>)"

definition empty_platform :: platform where
  "empty_platform =
     \<lparr>pf_iam = empty_iam_db, pf_logistics = empty_logistics_db, pf_volunteer = empty_volunteer_db,
      pf_analytics = \<lparr>an_categories = [], an_items = [], an_requests = [], an_processed = []\<rparr>, pf_queues = (\<lambda>_. [])\<rparr>"

section \<open>Outboxes\<close>

definition outbox_ok :: "(outbox_row \<Rightarrow> bool) \<Rightarrow> 'a service_scheme \<Rightarrow> bool" where
  "outbox_ok good s \<longleftrightarrow>
     distinct (map ob_id (outbox s)) \<and> distinct (map ob_event_id (outbox s)) \<and>
     (\<forall>r \<in> set (outbox s). ob_id r < outbox_seq s \<and> ob_event_id r < next_uuid s \<and> good r)"

text \<open>What a drain changes: only the publication mark of rows whose message was sent.\<close>

lemma drained_row:
  assumes "drain_once locked broker now rows = (rows', sent, n)" "confirms broker" "distinct (map ob_id rows)"
    and "r \<in> set rows'"
  shows "\<exists>r0 \<in> set rows. r = r0 \<or> r = r0\<lparr>ob_published_at := Some now\<rparr> \<and> r0 \<in> set sent"
  using assms(1,2)
proof (cases rule: drain_once_cases)
  case drained
  have b: "set (drain_batch locked rows) \<subseteq> set rows" using set_drain_batch by blast
  from drained assms(4) obtain r0 where r0: "r0 \<in> set rows"
    "r = (if ob_id r0 \<in> ob_id ` set (drain_batch locked rows) then r0\<lparr>ob_published_at := Some now\<rparr> else r0)"
    by (auto simp: row_upd_def)
  moreover have "r0 \<in> set (drain_batch locked rows)" if "ob_id r0 \<in> ob_id ` set (drain_batch locked rows)"
    using that r0(1) b assms(3) by (auto simp: distinct_map inj_on_def)
  ultimately show ?thesis using drained(2) by (auto split: if_splits)
qed (use assms(4) in auto)

lemma drained_maps:
  assumes "drain_once locked broker now rows = (rows', sent, n)" "\<And>r v. f (r\<lparr>ob_published_at := v\<rparr>) = f r"
  shows "map f rows' = map f rows"
  using assms map_key_row_upd [of f]
  by (auto simp: drain_once_def Let_def split: prod.splits bool.splits)

lemma drain_ok:
  assumes "drain_once locked broker now (outbox s) = (ob, sent, n)" "confirms broker" "outbox_ok good s"
    and "\<And>r v. good (r\<lparr>ob_published_at := v\<rparr>) = good r"
  shows "outbox_ok good (s\<lparr>outbox := ob\<rparr>)"
proof -
  have "map ob_id ob = map ob_id (outbox s)" "map ob_event_id ob = map ob_event_id (outbox s)"
    by (rule drained_maps [OF assms(1)]; simp)+
  moreover have "ob_id r < outbox_seq s \<and> ob_event_id r < next_uuid s \<and> good r" if "r \<in> set ob" for r
    using drained_row [OF assms(1,2) _ that] assms(3,4) by (auto simp: outbox_ok_def)
  ultimately show ?thesis using assms(3) by (simp add: outbox_ok_def)
qed

lemma emits_ok:
  assumes "emits good s s'" "outbox_ok good0 s" "\<And>r. good0 r \<Longrightarrow> good r"
  shows "outbox_ok good s'"
proof -
  from assms(1) obtain new where new: "outbox s' = outbox s @ new" "map ob_id new = [outbox_seq s..<outbox_seq s']"
    "outbox_seq s \<le> outbox_seq s'" "next_uuid s \<le> next_uuid s'" "distinct (map ob_event_id new)"
    "\<And>r. r \<in> set new \<Longrightarrow> next_uuid s \<le> ob_event_id r \<and> ob_event_id r < next_uuid s' \<and> good r"
    by (auto simp: emits_def list_all_iff)
  have ids: "ob_id ` set new = {outbox_seq s..<outbox_seq s'}" using new(2) by (metis set_map set_upt)
  have old: "\<And>r. r \<in> set (outbox s) \<Longrightarrow> ob_id r < outbox_seq s \<and> ob_event_id r < next_uuid s \<and> good r"
    using assms(2,3) by (auto simp: outbox_ok_def)
  have new_id: "outbox_seq s \<le> ob_id r \<and> ob_id r < outbox_seq s'" if "r \<in> set new" for r
    using that ids by (metis atLeastLessThan_iff image_eqI)
  have "distinct (map ob_id new)" using new(2) by simp
  moreover have "ob_id ` set (outbox s) \<inter> ob_id ` set new = {}" using old new_id by fastforce
  moreover have "ob_event_id ` set (outbox s) \<inter> ob_event_id ` set new = {}" using old new(6) by fastforce
  ultimately show ?thesis
    using assms(2) new(1,3,4,5,6) old new_id by (fastforce simp: outbox_ok_def)
qed

lemma outbox_ok_frame:
  "outbox s' = outbox s \<Longrightarrow> outbox_seq s' = outbox_seq s \<Longrightarrow> next_uuid s \<le> next_uuid s' \<Longrightarrow>
   outbox_ok good s \<Longrightarrow> outbox_ok good s'"
  by (auto simp: outbox_ok_def intro: less_le_trans)

lemma published_kept:
  assumes "emits good s s'" "r \<in> set (outbox s')" "ob_published_at r \<noteq> None"
  shows "r \<in> set (outbox s)"
  using assms by (auto simp: emits_def list_all_iff)

section \<open>Queues\<close>

lemma publish_mono: "set (Q q) \<subseteq> set (publish matches sent Q q)"
  unfolding publish_def by (induction sent arbitrary: Q) (fastforce simp: enqueue_def)+

lemma publish_sources:
  "m \<in> set (publish matches sent Q q) \<Longrightarrow> m \<in> set (Q q) \<or>
     (\<exists>r \<in> set sent. m = message_of r \<and> q \<in> set (route matches platform_topology EVENTS_EXCHANGE (ob_routing_key r)))"
  unfolding publish_def
  by (induction sent arbitrary: Q) (fastforce simp: enqueue_def message_of_def split: if_splits)+

lemma publish_reaches:
  assumes "r \<in> set sent" "q \<in> set (route matches platform_topology EVENTS_EXCHANGE (ob_routing_key r))"
  shows "message_of r \<in> set (publish matches sent Q q)"
  using assms(1)
proof (induction sent arbitrary: Q)
  case (Cons x sent)
  let ?Q = "enqueue matches EVENTS_EXCHANGE (message_of x) Q"
  show ?case
  proof (cases "r = x")
    case True
    then have "message_of r \<in> set (?Q q)" using assms(2) by (simp add: enqueue_def message_of_def)
    then show ?thesis using publish_mono [of ?Q q matches sent] by (auto simp: publish_def)
  next
    case False
    then show ?thesis using Cons by (simp add: publish_def)
  qed
qed simp


section \<open>Messages in flight\<close>

text \<open>A published row that is routed to a consumer waits in its queue, or rests in one of the dead-letter
  queues \<open>dead\<close>, or its event id is among the processed ones.\<close>

definition tracked ::
  "(string \<Rightarrow> string \<Rightarrow> bool) \<Rightarrow> consumer_config \<Rightarrow> string set \<Rightarrow> outbox_row list \<Rightarrow> (string \<Rightarrow> message list) \<Rightarrow>
   uuid set \<Rightarrow> bool" where
  "tracked matches cfg dead rows Q P \<longleftrightarrow>
     (\<forall>r \<in> set rows. ob_published_at r \<noteq> None \<longrightarrow>
        cc_queue cfg \<in> set (route matches platform_topology EVENTS_EXCHANGE (ob_routing_key r)) \<longrightarrow>
        message_of r \<in> set (Q (cc_queue cfg)) \<or> (\<exists>d \<in> dead. message_of r \<in> set (Q d)) \<or> ob_event_id r \<in> P)"

lemma tracked_mono:
  assumes "tracked matches cfg dead rows Q P" "\<And>r. r \<in> set rows' \<Longrightarrow> ob_published_at r \<noteq> None \<Longrightarrow> r \<in> set rows"
    and "\<And>q. q \<in> insert (cc_queue cfg) dead \<Longrightarrow> set (Q q) \<subseteq> set (Q' q)" "P \<subseteq> P'"
  shows "tracked matches cfg dead rows' Q' P'"
  using assms unfolding tracked_def by (meson insertI1 insertI2 subsetD)

lemma tracked_drain:
  assumes "tracked matches cfg dead rows Q P" "drain_once locked broker now rows = (rows', sent, n)" "confirms broker"
    and "distinct (map ob_id rows)"
  shows "tracked matches cfg dead rows' (publish matches sent Q) P"
  unfolding tracked_def
proof (intro ballI impI)
  fix r assume r: "r \<in> set rows'" "ob_published_at r \<noteq> None"
    and q: "cc_queue cfg \<in> set (route matches platform_topology EVENTS_EXCHANGE (ob_routing_key r))"
  from drained_row [OF assms(2-4) r(1)] obtain r0 where
    "r0 \<in> set rows" "r = r0 \<or> r = r0\<lparr>ob_published_at := Some now\<rparr> \<and> r0 \<in> set sent" by blast
  then consider (old) "r \<in> set rows" | (new) "r0 \<in> set sent" "message_of r = message_of r0" "ob_routing_key r = ob_routing_key r0"
    by (auto simp: message_of_def)
  then show "message_of r \<in> set (publish matches sent Q (cc_queue cfg)) \<or>
    (\<exists>d \<in> dead. message_of r \<in> set (publish matches sent Q d)) \<or> ob_event_id r \<in> P"
  proof cases
    case old
    then show ?thesis using assms(1) r(2) q publish_mono unfolding tracked_def by (meson subsetD)
  next
    case new
    then show ?thesis using publish_reaches [OF new(1), of "cc_queue cfg"] q by simp
  qed
qed

lemma enqueue_mono: "set (Q q) \<subseteq> set (enqueue matches exchange m Q q)"
  by (auto simp: enqueue_def)

lemma dead_letter_queues:
  assumes "topic_laws matches"
  shows "q \<in> set (route matches platform_topology DLX_EXCHANGE key) \<longleftrightarrow> q \<in> cc_dlq ` set consumer_configs"
proof -
  have "matches ''#'' key" using assms by (simp add: topic_laws_def)
  then show ?thesis
    by (auto simp: platform_topology_def route_member consumer_configs_def declare_topology_def
        EVENTS_EXCHANGE_def DLX_EXCHANGE_def)
qed

text \<open>A consumer of JSON messages on a queue of the platform.\<close>

locale queue_consumer = idempotent_consumer handle processed msg_id
  for handle :: "json \<Rightarrow> 's \<Rightarrow> 'e + 's" and processed :: "'s \<Rightarrow> uuid set" and msg_id :: "json \<Rightarrow> uuid option"
begin

lemma on_message_Ack: "on_message Some handle b s = (s', Ack) \<Longrightarrow> handle b s = Inr s'"
  by (auto simp: on_message_def split: sum.splits)

lemma on_message_Nack: "on_message Some handle b s = (s', Nack) \<Longrightarrow> s' = s \<and> (\<exists>e. handle b s = Inl e)"
  by (auto simp: on_message_def split: sum.splits)

text \<open>Where the messages of the consumer's own queue are after a step.\<close>

lemma consume_fate:
  assumes "consume matches cfg handle (s, Q) (s', Q')" "topic_laws matches" "cfg \<in> set consumer_configs"
    and "m \<in> set (Q (cc_queue cfg))"
  shows "m \<in> set (Q' (cc_queue cfg)) \<or> m \<in> set (Q' (cc_dlq cfg)) \<or> msg_id (snd m) \<in> Some ` processed s'"
  using assms(1)
proof (cases rule: consume.cases)
  case (consume_ack xs k b ys)
  then have "msg_id b \<in> Some ` processed s'" using marks [OF on_message_Ack] by fastforce
  then show ?thesis using assms(4) consume_ack by auto
next
  case (consume_nack xs k b ys)
  have "(k, b) \<in> set (Q' (cc_dlq cfg))"
    using consume_nack(1) dead_letter_queues [OF assms(2), of "cc_dlq cfg" k] assms(3) by (simp add: enqueue_def)
  then show ?thesis using assms(4) consume_nack enqueue_mono [of "Q(cc_queue cfg := xs @ ys)" "cc_queue cfg" matches DLX_EXCHANGE "(k, b)"] by auto
next
  case (consume_lost k b)
  then show ?thesis using assms(4) by simp
qed

lemma consume_others:
  assumes "consume matches cfg handle (s, Q) (s', Q')" "q \<noteq> cc_queue cfg"
  shows "set (Q q) \<subseteq> set (Q' q)"
  using assms(1)
proof (cases rule: consume.cases)
  case (consume_nack xs k b ys)
  then show ?thesis
    using assms(2) enqueue_mono [of "Q(cc_queue cfg := xs @ ys)" q matches DLX_EXCHANGE "(k, b)"] by simp
qed (use assms(2) in auto)

lemma consume_adds:
  assumes "consume matches cfg handle (s, Q) (s', Q')" "topic_laws matches" "q \<notin> cc_dlq ` set consumer_configs"
  shows "set (Q' q) \<subseteq> set (Q q)"
  using assms(1)
proof (cases rule: consume.cases)
  case (consume_nack xs k b ys)
  then show ?thesis
    using assms(3) dead_letter_queues [OF assms(2), of q k] by (auto simp: enqueue_def)
qed auto

lemma consume_processed: "consume matches cfg handle (s, Q) (s', Q') \<Longrightarrow> processed s \<subseteq> processed s'"
  by (erule consume.cases) (use marks on_message_Ack on_message_Nack in fastforce)+

lemma consume_handled:
  assumes "consume matches cfg handle (s, Q) (s', Q')"
  shows "s' = s \<or> (\<exists>m \<in> set (Q (cc_queue cfg)). handle (snd m) s = Inr s')"
  using assms
proof (cases rule: consume.cases)
  case (consume_ack xs k b ys)
  then show ?thesis using on_message_Ack [of b s s'] by (intro disjI2 bexI [of _ "(k, b)"]) auto
next
  case (consume_nack xs k b ys)
  then show ?thesis using on_message_Nack [of b s s'] by simp
next
  case (consume_lost k b)
  then show ?thesis using on_message_Ack [of b s s'] by (intro disjI2 bexI [of _ "(k, b)"]) auto
qed

lemma consume_accepted:
  assumes "consume matches cfg handle (s, Q) (s', Q')" "m \<in> set (Q (cc_queue cfg))"
    and "\<And>x. x \<in> set (Q (cc_queue cfg)) \<Longrightarrow> \<exists>y. handle (snd x) s = Inr y"
  shows "m \<in> set (Q' (cc_queue cfg)) \<or> msg_id (snd m) \<in> Some ` processed s'"
  using assms(1)
proof (cases rule: consume.cases)
  case (consume_ack xs k b ys)
  then have "msg_id b \<in> Some ` processed s'" using marks [OF on_message_Ack] by fastforce
  then show ?thesis using assms(2) consume_ack by auto
next
  case (consume_nack xs k b ys)
  then show ?thesis using assms(3) [of "(k, b)"] on_message_Nack [of b s s'] by auto
qed (use assms(2) in simp)

text \<open>A step of the consumer keeps track of the rows routed to it; a consumer that accepts what is in its
  queue needs no dead-letter queue.\<close>

lemma consume_tracked:
  assumes "consume matches cfg handle (s, Q) (s', Q')" "topic_laws matches" "cfg \<in> set consumer_configs"
    and "\<And>r. r \<in> set rows \<Longrightarrow> msg_id (ob_payload r) = Some (ob_event_id r)"
    and "tracked matches cfg dead rows Q (processed s)" "cc_queue cfg \<notin> dead"
    and "cc_dlq cfg \<in> dead \<or> (\<forall>x \<in> set (Q (cc_queue cfg)). \<exists>y. handle (snd x) s = Inr y)"
  shows "tracked matches cfg dead rows Q' (processed s')"
  unfolding tracked_def
proof (intro ballI impI)
  fix r assume r: "r \<in> set rows" "ob_published_at r \<noteq> None"
    "cc_queue cfg \<in> set (route matches platform_topology EVENTS_EXCHANGE (ob_routing_key r))"
  have id: "msg_id (snd (message_of r)) = Some (ob_event_id r)" using assms(4) r(1) by (simp add: message_of_def)
  show "message_of r \<in> set (Q' (cc_queue cfg)) \<or> (\<exists>d \<in> dead. message_of r \<in> set (Q' d)) \<or> ob_event_id r \<in> processed s'"
  proof (cases "message_of r \<in> set (Q (cc_queue cfg))")
    case True
    from assms(7) show ?thesis
    proof
      assume "cc_dlq cfg \<in> dead"
      then show ?thesis using consume_fate [OF assms(1-3) True] id by auto
    next
      assume "\<forall>x \<in> set (Q (cc_queue cfg)). \<exists>y. handle (snd x) s = Inr y"
      then show ?thesis using consume_accepted [OF assms(1) True] id by auto
    qed
  next
    case False
    with assms(5) r have "(\<exists>d \<in> dead. message_of r \<in> set (Q d)) \<or> ob_event_id r \<in> processed s"
      by (auto simp: tracked_def)
    moreover have "set (Q d) \<subseteq> set (Q' d)" if "d \<in> dead" for d
      using consume_others [OF assms(1), of d] that assms(6) by auto
    ultimately show ?thesis using consume_processed [OF assms(1)] by blast
  qed
qed

lemma consume_other_tracked:
  assumes "consume matches cfg handle (s, Q) (s', Q')" "tracked matches cfg' dead rows Q P"
    and "\<And>r. r \<in> set rows' \<Longrightarrow> ob_published_at r \<noteq> None \<Longrightarrow> r \<in> set rows" "P \<subseteq> P'"
    and "cc_queue cfg \<notin> insert (cc_queue cfg') dead"
  shows "tracked matches cfg' dead rows' Q' P'"
proof (rule tracked_mono [OF assms(2,3) _ assms(4)])
  show "set (Q q) \<subseteq> set (Q' q)" if "q \<in> insert (cc_queue cfg') dead" for q
    using consume_others [OF assms(1), of q] that assms(5) by auto
qed

end

interpretation lg_queue: queue_consumer handle_user_event "\<lambda>s. set (lg_processed s)" envelope_id
  by unfold_locales

interpretation an_queue: queue_consumer handle_analytics "\<lambda>s. set (an_processed s)" envelope_id
  by unfold_locales

interpretation vol_queue: queue_consumer "\<lambda>m. handle_iam (now, m)" "\<lambda>s. set (processed_events s)" envelope_id for now
  using vol_iam.marks [of "(now, _)"] vol_iam.skips [of "(now, _)"] by unfold_locales auto

interpretation disaster_queue: queue_consumer "\<lambda>m. handle_disaster (now, m)" "\<lambda>s. set (processed_events s)" envelope_id for now
  using vol_disaster.marks [of "(now, _)"] vol_disaster.skips [of "(now, _)"] by unfold_locales auto


section \<open>Account messages at their consumers\<close>

lemma account_row_unpublish [simp]: "account_row A (r\<lparr>ob_published_at := v\<rparr>) = account_row A r"
  by (simp add: account_row_def)

lemma service_row_unpublish [simp]: "service_row svc (r\<lparr>ob_published_at := v\<rparr>) = service_row svc r"
  by (simp add: service_row_def)

lemma account_row_id: "account_row A r \<Longrightarrow> envelope_id (ob_payload r) = Some (ob_event_id r)"
  by (auto simp: account_row_def)

text \<open>The data of an account, in both payloads.\<close>

lemma account_data_fields:
  assumes "data = user_registered_payload u \<or> (\<exists>t. data = status_payload t u)"
  shows "dindex data ''user_id'' = Inr (JUuid (us_id u))"
    "\<exists>src. dindex data ''updated_at'' = Inr (JTime src)"
    "replica_fields_of data = Inr (us_full_name u, us_phone u, roles u, is_active u)"
    "identity_fields data = Inr (us_full_name u, us_phone u, is_active u)"
    "dget data ''user_type'' = Some (JStr (user_type_value (us_user_type u)))"
  using assms
  by (auto simp: user_registered_payload_def status_payload_def replica_fields_of_def identity_fields_def
      col_str_opt_json_opt col_strs_def collect_JStr)

lemma dindex_dget: "dget d k = Some v \<Longrightarrow> dindex d k = Inr v"
  by (simp add: dindex_def dget_def split: option.splits)

definition replica_keys :: "logistics_db \<Rightarrow> (uuid \<times> uuid option) set" where
  "replica_keys l = (\<lambda>x. (ur_user_id x, ur_tenant_id x)) ` set (replicas l)"

definition profile_keys :: "volunteer_db \<Rightarrow> uuid set" where
  "profile_keys v = vp_user_id ` set (profiles v)"

lemma replica_keys_processed [simp]: "replica_keys (l\<lparr>lg_processed := es\<rparr>) = replica_keys l"
  by (simp add: replica_keys_def)

lemma replica_keys_upd:
  assumes "\<And>x. ur_user_id (f x) = ur_user_id x \<and> ur_tenant_id (f x) = ur_tenant_id x"
  shows "replica_keys (l\<lparr>replicas := row_upd p f (replicas l)\<rparr>) = replica_keys l"
proof -
  have "map (\<lambda>x. (ur_user_id x, ur_tenant_id x)) (row_upd p f (replicas l)) = map (\<lambda>x. (ur_user_id x, ur_tenant_id x)) (replicas l)"
    by (rule map_key_row_upd) (simp add: assms)
  from arg_cong [OF this, of set] show ?thesis by (simp add: replica_keys_def)
qed

lemma upsert_account:
  assumes "data = user_registered_payload u \<or> (\<exists>t. data = status_payload t u)"
  shows "\<exists>rs. upsert_replica tenant data l = Inr (l\<lparr>replicas := rs\<rparr>) \<and>
    replica_keys (l\<lparr>replicas := rs\<rparr>) =
      (if us_id u \<in> fst ` replica_keys l then replica_keys l else insert (us_id u, tenant) (replica_keys l))"
proof -
  obtain src where d: "dindex data ''user_id'' = Inr (JUuid (us_id u))" "dindex data ''updated_at'' = Inr (JTime src)"
    "replica_fields_of data = Inr (us_full_name u, us_phone u, roles u, is_active u)"
    using account_data_fields [OF assms] by blast
  have upd: "replica_keys (l\<lparr>replicas := row_upd p (set_replica src f) (replicas l)\<rparr>) = replica_keys l" for p f
    by (rule replica_keys_upd) (cases f, simp add: set_replica_def)
  show ?thesis
  proof (cases "row_get ur_user_id (us_id u) (replicas l)")
    case None
    then have "us_id u \<notin> fst ` replica_keys l" by (auto simp: row_get_None_iff replica_keys_def)
    with None d show ?thesis
      by (intro exI [of _ "replicas l @ [new_replica (us_id u) tenant src (us_full_name u, us_phone u, roles u, is_active u)]"])
        (simp add: upsert_replica_def, auto simp: replica_keys_def new_replica_def)
  next
    case (Some r)
    then have k: "us_id u \<in> fst ` replica_keys l" by (force simp: replica_keys_def dest: row_get_Some)
    show ?thesis
    proof (cases "ur_source_updated_at r \<le> src")
      case True
      let ?f = "set_replica src (us_full_name u, us_phone u, roles u, is_active u)"
      show ?thesis
        using True Some d k upd
        by (intro exI [of _ "row_upd (\<lambda>x. ur_user_id x = us_id u) ?f (replicas l)"]) (simp add: upsert_replica_def)
    next
      case False
      then show ?thesis using Some d k by (intro exI [of _ "replicas l"]) (simp add: upsert_replica_def)
    qed
  qed
qed

text \<open>Neither consumer ever rejects a row of the identity service.\<close>

lemma account_row_cases:
  assumes "account_row A r"
  obtains (user) now u data where
      "ob_payload r = account_envelope (ob_event_id r) now (ob_routing_key r) (us_tenant_id u) data"
      "ob_routing_key r = ''iam.user.registered'' \<or> ob_routing_key r = ''iam.user.updated''"
      "account_of u \<in> A" "data = user_registered_payload u \<or> (\<exists>t. data = status_payload t u)"
      "\<And>a. registration a r \<Longrightarrow> fst a = us_id u"
  | (deactivated) now tenant u data where
      "ob_payload r = account_envelope (ob_event_id r) now ''iam.user.deactivated'' tenant data"
      "ob_routing_key r = ''iam.user.deactivated''" "dindex data ''user_id'' = Inr (JUuid u)"
  | (tenant) now key tenant data where
      "ob_payload r = account_envelope (ob_event_id r) now key tenant data" "ob_routing_key r = key"
      "key \<notin> {''iam.user.registered'', ''iam.user.updated'', ''iam.user.deactivated''}"
proof -
  from assms obtain now tenant data where p: "ob_payload r = account_envelope (ob_event_id r) now (ob_routing_key r) tenant data"
    and k: "ob_routing_key r \<in> {''iam.user.registered'', ''iam.user.updated''} \<and> about_account A tenant data \<or>
      ob_routing_key r = ''iam.user.deactivated'' \<and> names_account A data \<or> tenant_key (ob_routing_key r)"
    unfolding account_row_def by metis
  show thesis
  proof (rule disjE [OF k])
    assume c: "ob_routing_key r \<in> {''iam.user.registered'', ''iam.user.updated''} \<and> about_account A tenant data"
    then obtain u where u: "account_of u \<in> A" "tenant = us_tenant_id u"
      "data = user_registered_payload u \<or> (\<exists>t. data = status_payload t u)" by (auto simp: about_account_def)
    have "fst a = us_id u" if "registration a r" for a
    proof -
      from that obtain u' where u': "account_of u' = a" "data = user_registered_payload u'"
        by (auto simp: registration_def p account_envelope_def build_envelope_def)
      then have "us_id u' = us_id u" using account_data_fields(1) [OF u(3)] by (simp add: user_registered_payload_def)
      with u' show ?thesis by (auto simp: account_of_def)
    qed
    then show thesis using user [OF _ _ u(1,3)] p u(2) c by simp
  next
    assume "ob_routing_key r = ''iam.user.deactivated'' \<and> names_account A data \<or> tenant_key (ob_routing_key r)"
    then show thesis
    proof
      assume "ob_routing_key r = ''iam.user.deactivated'' \<and> names_account A data"
      then show thesis using deactivated p by (auto simp: names_account_def dindex_dget)
    next
      assume "tenant_key (ob_routing_key r)"
      moreover have "\<not> tenant_key key" if "key \<in> {''iam.user.registered'', ''iam.user.updated'', ''iam.user.deactivated''}" for key
        using that by (auto simp: tenant_key_def)
      ultimately show thesis using tenant [OF p refl] by blast
    qed
  qed
qed

lemmas account_message_simps =
  account_envelope_def build_envelope_def tenant_of_json_opt

lemma replica_of_account_row:
  assumes "account_row A r"
  shows "\<exists>l'. handle_user_event (ob_payload r) l = Inr l' \<and> outbox l' = outbox l \<and> outbox_seq l' = outbox_seq l \<and>
    next_uuid l' = next_uuid l \<and> replica_keys l \<subseteq> replica_keys l' \<and>
    (\<forall>(u, t) \<in> replica_keys l' - replica_keys l. \<exists>ty. (u, t, ty) \<in> A) \<and>
    (ob_event_id r \<notin> set (lg_processed l) \<longrightarrow> (\<forall>a. registration a r \<longrightarrow> fst a \<in> fst ` replica_keys l'))"
proof (cases "ob_event_id r \<in> set (lg_processed l)")
  case True
  then have "handle_user_event (ob_payload r) l = Inr l"
    by - (rule account_row_cases [OF assms]; simp add: handle_user_event_def account_message_simps)
  then show ?thesis using True by auto
next
  case False
  let ?done = "\<lambda>s :: logistics_db. s\<lparr>lg_processed := ob_event_id r # lg_processed s\<rparr>"
  from assms show ?thesis
  proof (cases rule: account_row_cases)
    case (user now u data)
    obtain rs where rs: "upsert_replica (us_tenant_id u) data l = Inr (l\<lparr>replicas := rs\<rparr>)"
      "replica_keys (l\<lparr>replicas := rs\<rparr>) =
        (if us_id u \<in> fst ` replica_keys l then replica_keys l else insert (us_id u, us_tenant_id u) (replica_keys l))"
      using upsert_account [OF user(4)] by blast
    have "handle_user_event (ob_payload r) l = Inr (?done (l\<lparr>replicas := rs\<rparr>))"
      using user(2) False by (auto simp: user(1) handle_user_event_def account_message_simps rs(1))
    moreover have "us_id u \<in> fst ` replica_keys (?done (l\<lparr>replicas := rs\<rparr>))" unfolding replica_keys_processed rs(2) by auto
    ultimately show ?thesis using user(3,5) by (auto simp: account_of_def rs(2) split: if_splits)
  next
    case (deactivated now tenant u data)
    let ?l = "l\<lparr>replicas := row_upd (\<lambda>x. ur_user_id x = u) (\<lambda>x. x\<lparr>ur_is_active := False\<rparr>) (replicas l)\<rparr>"
    have "handle_user_event (ob_payload r) l = Inr (?done ?l)"
      using False by (simp add: deactivated(1) handle_user_event_def account_message_simps deactivate_replica_def deactivated(3))
    moreover have "replica_keys (?done ?l) = replica_keys l" unfolding replica_keys_processed by (rule replica_keys_upd) simp
    ultimately show ?thesis using deactivated(2) by (auto simp: registration_def)
  next
    case (tenant now key tnt data)
    have "handle_user_event (ob_payload r) l = Inr (?done l)"
      using False tenant(3) by (simp add: tenant(1) handle_user_event_def account_message_simps)
    then show ?thesis using tenant(2,3) by (auto simp: registration_def)
  qed
qed

lemma profile_keys_processed [simp]: "profile_keys (v\<lparr>processed_events := es\<rparr>) = profile_keys v"
  by (simp add: profile_keys_def)

lemma profile_keys_upd:
  assumes "\<And>x. vp_user_id (f x) = vp_user_id x"
  shows "vp_user_id ` set (row_upd p f (profiles v)) = profile_keys v"
  using arg_cong [OF map_key_row_upd [of vp_user_id f p "profiles v", OF assms], of set] by (simp add: profile_keys_def)

lemma upsert_profile_account:
  assumes "data = user_registered_payload u \<or> (\<exists>t. data = status_payload t u)"
  shows "\<exists>v'. upsert_profile now data v = Inr v' \<and> outbox v' = outbox v \<and> outbox_seq v' = outbox_seq v \<and>
    next_uuid v \<le> next_uuid v' \<and>
    profile_keys v' = (if us_user_type u = VOLUNTEER then insert (us_id u) (profile_keys v) else profile_keys v)"
proof -
  obtain src where d: "dindex data ''user_id'' = Inr (JUuid (us_id u))" "dindex data ''updated_at'' = Inr (JTime src)"
    "identity_fields data = Inr (us_full_name u, us_phone u, is_active u)"
    "dget data ''user_type'' = Some (JStr (user_type_value (us_user_type u)))"
    using account_data_fields [OF assms] by blast
  have ty: "user_type_value (us_user_type u) = ''VOLUNTEER'' \<longleftrightarrow> us_user_type u = VOLUNTEER"
    by (cases "us_user_type u") simp_all
  show ?thesis
  proof (cases "us_user_type u = VOLUNTEER")
    case False
    then show ?thesis using d(4) ty by (simp add: upsert_profile_def)
  next
    case vol: True
    show ?thesis
    proof (cases "row_get vp_user_id (us_id u) (profiles v)")
      case None
      then show ?thesis
        using vol d ty by (auto simp: upsert_profile_def profile_keys_def new_profile_def)
    next
      case (Some x)
      then have k: "us_id u \<in> profile_keys v" by (force simp: profile_keys_def dest: row_get_Some)
      have "vp_user_id ` set (row_upd p (set_identity src f) (profiles v)) = profile_keys v" for p f
        by (rule profile_keys_upd) simp
      then show ?thesis
        using Some vol d ty k by (cases "accepts_update src x") (simp_all add: upsert_profile_def profile_keys_def insert_absorb)
    qed
  qed
qed

lemma profile_of_account_row:
  assumes "account_row A r"
  shows "\<exists>v'. handle_iam (now, ob_payload r) v = Inr v' \<and> outbox v' = outbox v \<and> outbox_seq v' = outbox_seq v \<and>
    next_uuid v \<le> next_uuid v' \<and>
    profile_keys v' \<subseteq> profile_keys v \<union> {u. \<exists>t. (u, t, VOLUNTEER) \<in> A}"
proof (cases "ob_event_id r \<in> set (processed_events v)")
  case True
  then have "handle_iam (now, ob_payload r) v = Inr v"
    by - (rule account_row_cases [OF assms]; simp add: handle_iam_def account_message_simps)
  then show ?thesis by auto
next
  case False
  from assms show ?thesis
  proof (cases rule: account_row_cases)
    case (user t u data)
    obtain v' where v': "upsert_profile now data v = Inr v'" "outbox v' = outbox v" "outbox_seq v' = outbox_seq v"
      "next_uuid v \<le> next_uuid v'"
      "profile_keys v' = (if us_user_type u = VOLUNTEER then insert (us_id u) (profile_keys v) else profile_keys v)"
      using upsert_profile_account [OF user(4)] by blast
    have "handle_iam (now, ob_payload r) v = Inr (mark_processed (ob_event_id r) v')"
      using user(2) False by (auto simp: user(1) handle_iam_def account_message_simps v'(1))
    then show ?thesis
      using v' user(3) by (auto simp: account_of_def mark_processed_def split: if_splits)
  next
    case (deactivated t tenant u data)
    let ?v = "v\<lparr>profiles := row_upd (\<lambda>x. vp_user_id x = u) (\<lambda>x. x\<lparr>vp_is_active := False, vp_available_status := False\<rparr>) (profiles v)\<rparr>"
    have "handle_iam (now, ob_payload r) v = Inr (mark_processed (ob_event_id r) ?v)"
      using False by (simp add: deactivated(1) handle_iam_def account_message_simps deactivate_profile_def deactivated(3))
    moreover have "profile_keys ?v = profile_keys v"
      using profile_keys_upd [of "\<lambda>x. x\<lparr>vp_is_active := False, vp_available_status := False\<rparr>"] by (simp add: profile_keys_def)
    ultimately show ?thesis by (simp add: mark_processed_def)
  next
    case (tenant t key tnt data)
    have "handle_iam (now, ob_payload r) v = Inr (mark_processed (ob_event_id r) v)"
      using False tenant(3) by (simp add: tenant(1) handle_iam_def account_message_simps)
    then show ?thesis by (simp add: mark_processed_def)
  qed
qed

end
