(* ===== verification/Platform_Inv.thy ===== *)
theory Platform_Inv
  imports Platform
begin

text \<open>
  The invariants of the platform: the outboxes are well formed, every published event is accounted for
  at each of its consumers, and the replicas of the accounts in the logistics and the volunteer service
  are replicas of accounts that exist.
\<close>

section \<open>Outboxes\<close>

definition pf_outboxes :: "platform \<Rightarrow> bool" where
  "pf_outboxes p \<longleftrightarrow>
     iam_inv (pf_iam p) \<and> outbox_ok (account_row (accounts (pf_iam p))) (pf_iam p) \<and>
     outbox_ok (service_row ''logistics.'') (pf_logistics p) \<and> outbox_ok (service_row ''volunteer.'') (pf_volunteer p)"

text \<open>The effect of a consumer on the outbox of its service: none, or the rows the matching emits.\<close>

lemma lg_handled_frame:
  assumes "handle_user_event m l = Inr l'"
  shows "outbox l' = outbox l \<and> outbox_seq l' = outbox_seq l \<and> next_uuid l' = next_uuid l"
  using assms
  by (auto simp: handle_user_event_def upsert_replica_def deactivate_replica_def andthen_Inr Let_def
      split: json.splits if_splits option.splits)

lemma lg_consume_frame:
  "consume matches cfg handle_user_event (l, Q) (l', Q') \<Longrightarrow>
   outbox l' = outbox l \<and> outbox_seq l' = outbox_seq l \<and> next_uuid l' = next_uuid l"
  using lg_queue.consume_handled [of matches cfg l Q l' Q'] lg_handled_frame by blast

lemma vol_handled_frame:
  assumes "handle_iam (now, m) v = Inr v'"
  shows "outbox v' = outbox v \<and> outbox_seq v' = outbox_seq v \<and> next_uuid v \<le> next_uuid v'"
  using assms
proof (cases rule: handle_iam_cases)
  case (applied e s1)
  have "outbox s1 = outbox v \<and> outbox_seq s1 = outbox_seq v \<and> next_uuid v \<le> next_uuid s1"
    using applied(4) by (auto elim!: upsert_cases simp: deactivate_profile_def andthen_Inr)
  then show ?thesis using applied(3) by (simp add: mark_processed_def)
qed simp

lemma vol_consume_frame:
  "consume matches cfg (\<lambda>m. handle_iam (now, m)) (v, Q) (v', Q') \<Longrightarrow>
   outbox v' = outbox v \<and> outbox_seq v' = outbox_seq v \<and> next_uuid v \<le> next_uuid v'"
  using vol_queue.consume_handled [of matches cfg now v Q v' Q'] vol_handled_frame by blast

lemma disaster_consume_quiet:
  "consume matches cfg (\<lambda>m. handle_disaster (now, m)) (v, Q) (v', Q') \<Longrightarrow> vol_quiet v v'"
  using disaster_queue.consume_handled [of matches cfg now v Q v' Q'] disaster_quiet vol_quiet_refl by blast

lemma iam_inv_outbox: "iam_inv s \<Longrightarrow> iam_inv (s\<lparr>outbox := ob\<rparr>)"
  by (auto intro: iam_inv_cong [of _ "_\<lparr>outbox := _\<rparr>"])

lemma accounts_outbox [simp]: "accounts (s\<lparr>outbox := ob\<rparr>) = accounts s"
  by (simp add: accounts_def)

lemma iam_call_ok:
  assumes "iam_call cr s s'" "iam_inv s" "outbox_ok (account_row (accounts s)) s"
  shows "iam_inv s' \<and> outbox_ok (account_row (accounts s')) s' \<and> accounts s \<subseteq> accounts s'"
proof -
  have e: "emits (account_row (accounts s')) s s'" "accounts s \<subseteq> accounts s'"
    using iam_call_effect [OF assms(1,2)] by (simp_all add: iam_effect_def)
  then show ?thesis
    using emits_ok [OF e(1) assms(3)] account_row_mono [OF _ e(2)] iam_step_inv [OF iam_call_step [OF assms(1)] assms(2)]
    by blast
qed

lemma pf_step_outboxes: "pf_step matches cr iso_date p p' \<Longrightarrow> pf_outboxes p \<Longrightarrow> pf_outboxes p'"
proof (induction rule: pf_step.induct)
  case (pf_iam_call p s)
  then show ?case using iam_call_ok [OF pf_iam_call(1)] by (simp add: pf_outboxes_def)
next
  case (pf_lg_call pr p l)
  then have "emits (service_row ''logistics.'') (pf_logistics p) l" using lg_call_quiet by (auto simp: lg_quiet_def)
  with pf_lg_call(2) show ?case by (auto simp: pf_outboxes_def intro: emits_ok)
next
  case (pf_vol_call p v)
  then have "emits (service_row ''volunteer.'') (pf_volunteer p) v" using vol_call_quiet by (auto simp: vol_quiet_def)
  with pf_vol_call(2) show ?case by (auto simp: pf_outboxes_def intro: emits_ok)
next
  case (pf_iam_relay broker locked now p ob sent n)
  then show ?case
    using drain_ok [OF pf_iam_relay(2,1), of "account_row (accounts (pf_iam p))"]
    by (simp add: pf_outboxes_def iam_inv_outbox)
next
  case (pf_lg_relay broker locked now p ob sent n)
  then show ?case
    using drain_ok [OF pf_lg_relay(2,1), of "service_row ''logistics.''"] by (simp add: pf_outboxes_def)
next
  case (pf_vol_relay broker locked now p ob sent n)
  then show ?case
    using drain_ok [OF pf_vol_relay(2,1), of "service_row ''volunteer.''"] by (simp add: pf_outboxes_def)
next
  case (pf_lg_iam p l Q)
  then show ?case
    using outbox_ok_frame [of l "pf_logistics p"] lg_consume_frame by (auto simp: pf_outboxes_def)
next
  case (pf_vol_iam now p v Q)
  then show ?case
    using outbox_ok_frame [of v "pf_volunteer p"] vol_consume_frame by (auto simp: pf_outboxes_def)
next
  case (pf_vol_disaster now p v Q)
  then have "emits (service_row ''volunteer.'') (pf_volunteer p) v"
    using disaster_consume_quiet by (auto simp: vol_quiet_def)
  with pf_vol_disaster(2) show ?case by (auto simp: pf_outboxes_def intro: emits_ok)
next
  case (pf_analytics_projections p a Q)
  then show ?case by (simp add: pf_outboxes_def)
qed

section \<open>Every published event is accounted for\<close>

definition pf_flow :: "(string \<Rightarrow> string \<Rightarrow> bool) \<Rightarrow> platform \<Rightarrow> bool" where
  "pf_flow matches p \<longleftrightarrow>
     tracked matches logistics_iam_consumer {} (outbox (pf_iam p)) (pf_queues p) (set (lg_processed (pf_logistics p))) \<and>
     tracked matches volunteer_iam_consumer {} (outbox (pf_iam p)) (pf_queues p) (set (processed_events (pf_volunteer p))) \<and>
     tracked matches volunteer_disaster_consumer {''dlq.volunteer.disaster-events''} (outbox (pf_volunteer p)) (pf_queues p)
       (set (processed_events (pf_volunteer p))) \<and>
     tracked matches analytics_consumer {''dlq.analytics.projections''} (outbox (pf_logistics p)) (pf_queues p)
       (set (an_processed (pf_analytics p)))"

definition account_queues :: "string set" where
  "account_queues = {cc_queue logistics_iam_consumer, cc_queue volunteer_iam_consumer}"

text \<open>The queues of account events hold messages of the identity service only.\<close>

definition pf_sources :: "platform \<Rightarrow> bool" where
  "pf_sources p \<longleftrightarrow> (\<forall>q \<in> account_queues. set (pf_queues p q) \<subseteq> message_of ` set (outbox (pf_iam p)))"

lemmas config_defs = logistics_iam_consumer_def volunteer_iam_consumer_def volunteer_disaster_consumer_def analytics_consumer_def

lemma literal_iam: "literal ''iam.user''" "literal ''iam.tenant''" "literal ''volunteer.disaster.declared''"
  "literal ''logistics.request''" "literal ''logistics.inventory''" "literal ''logistics.resource-category''"
  by (simp_all add: literal_def)

lemma iam_patterns:
  assumes "topic_laws matches"
  shows "matches ''iam.user.*'' key = (\<exists>w. CHR ''.'' \<notin> set w \<and> key = ''iam.user.'' @ w)"
    "matches ''iam.tenant.*'' key = (\<exists>w. CHR ''.'' \<notin> set w \<and> key = ''iam.tenant.'' @ w)"
proof -
  have star: "matches (p @ ''.*'') key = (\<exists>w. CHR ''.'' \<notin> set w \<and> key = p @ ''.'' @ w)" if "literal p" for p
    using assms that by (simp add: topic_laws_def)
  show "matches ''iam.user.*'' key = (\<exists>w. CHR ''.'' \<notin> set w \<and> key = ''iam.user.'' @ w)"
    using star [OF literal_iam(1)] by simp
  show "matches ''iam.tenant.*'' key = (\<exists>w. CHR ''.'' \<notin> set w \<and> key = ''iam.tenant.'' @ w)"
    using star [OF literal_iam(2)] by simp
qed

lemma platform_bindings:
  "Queue_bind q EVENTS_EXCHANGE pat \<in> set platform_topology \<longleftrightarrow>
     (\<exists>cfg \<in> set consumer_configs. q = cc_queue cfg \<and> pat \<in> set (cc_bindings cfg))"
proof -
  have "EVENTS_EXCHANGE \<noteq> DLX_EXCHANGE" by (simp add: EVENTS_EXCHANGE_def DLX_EXCHANGE_def)
  then have "Queue_bind q EVENTS_EXCHANGE pat \<in> set (declare_topology cfg) \<longleftrightarrow> q = cc_queue cfg \<and> pat \<in> set (cc_bindings cfg)" for cfg
    unfolding declare_topology_def by (simp add: image_iff conj_commute)
  then show ?thesis unfolding platform_topology_def set_concat set_map by simp
qed

lemma account_queue_keys:
  assumes "topic_laws matches" "q \<in> account_queues" "q \<in> set (route matches platform_topology EVENTS_EXCHANGE key)"
  shows "take (length ''iam.'') key = ''iam.''"
proof -
  from assms(3) obtain cfg pat where "cfg \<in> set consumer_configs" "q = cc_queue cfg" "pat \<in> set (cc_bindings cfg)" "matches pat key"
    by (auto simp: route_member platform_bindings)
  then have "matches ''iam.user.*'' key \<or> matches ''iam.tenant.*'' key"
    using assms(2) by (auto simp: account_queues_def consumer_configs_def config_defs)
  then obtain w where "key = ''iam.user.'' @ w \<or> key = ''iam.tenant.'' @ w"
    unfolding iam_patterns [OF assms(1), of key] by metis
  then show ?thesis by (elim disjE) simp_all
qed

lemma account_routes:
  assumes "topic_laws matches"
  shows "cc_queue logistics_iam_consumer \<in> set (route matches platform_topology EVENTS_EXCHANGE ''iam.user.registered'')"
    "cc_queue volunteer_iam_consumer \<in> set (route matches platform_topology EVENTS_EXCHANGE ''iam.user.registered'')"
proof -
  have "matches ''iam.user.*'' ''iam.user.registered''"
    unfolding iam_patterns [OF assms] by (intro exI [of _ "''registered''"]) simp
  then show "cc_queue logistics_iam_consumer \<in> set (route matches platform_topology EVENTS_EXCHANGE ''iam.user.registered'')"
    "cc_queue volunteer_iam_consumer \<in> set (route matches platform_topology EVENTS_EXCHANGE ''iam.user.registered'')"
    unfolding route_member platform_bindings
    by (intro exI [of _ "''iam.user.*''"] conjI bexI [of _ logistics_iam_consumer] bexI [of _ volunteer_iam_consumer];
        simp add: consumer_configs_def config_defs)+
qed

lemma account_queues_live: "q \<in> account_queues \<Longrightarrow> q \<notin> cc_dlq ` set consumer_configs"
  by (auto simp: account_queues_def consumer_configs_def config_defs)

lemma drained_sent: "drain_once locked broker now rows = (rows', sent, n) \<Longrightarrow> confirms broker \<Longrightarrow> set sent \<subseteq> set rows"
  by (erule drain_once_cases) (use set_drain_batch [of locked rows] in \<open>auto dest: in_set_takeD\<close>)

lemma drained_messages:
  "drain_once locked broker now rows = (rows', sent, n) \<Longrightarrow> message_of ` set rows' = message_of ` set rows"
  using drained_maps [of locked broker now rows rows' sent n message_of] by (metis list.set_map message_of_def outbox_row.select_convs(3,4) outbox_row.surjective outbox_row.update_convs(5))

lemma foreign_publish:
  assumes "topic_laws matches" "q \<in> account_queues" "\<And>r. r \<in> set sent \<Longrightarrow> take (length ''iam.'') (ob_routing_key r) \<noteq> ''iam.''"
  shows "set (publish matches sent Q q) \<subseteq> set (Q q)"
  using publish_sources [of _ matches sent Q q] account_queue_keys [OF assms(1,2)] assms(3) by blast

lemma service_keys:
  "service_row ''logistics.'' r \<Longrightarrow> take (length ''iam.'') (ob_routing_key r) \<noteq> ''iam.''"
  "service_row ''volunteer.'' r \<Longrightarrow> take (length ''iam.'') (ob_routing_key r) \<noteq> ''iam.''"
  by (cases "ob_routing_key r"; auto simp: service_row_def)+

lemma pf_step_sources:
  assumes "pf_step matches cr iso_date p p'" "topic_laws matches" "pf_outboxes p" "pf_sources p"
  shows "pf_sources p'"
  using assms(1,3,4)
proof (induction rule: pf_step.induct)
  case (pf_iam_call p s)
  then have "emits (account_row (accounts s)) (pf_iam p) s"
    using iam_call_effect by (auto simp: pf_outboxes_def iam_effect_def)
  then have "set (outbox (pf_iam p)) \<subseteq> set (outbox s)" by (auto simp: emits_def)
  then show ?case using pf_iam_call(3) by (fastforce simp: pf_sources_def)
next
  case (pf_iam_relay broker locked now p ob sent n)
  have "set (publish matches sent (pf_queues p) q) \<subseteq> message_of ` set (outbox (pf_iam p))" if "q \<in> account_queues" for q
    using publish_sources [of _ matches sent "pf_queues p" q] drained_sent [OF pf_iam_relay(2,1)] pf_iam_relay(4) that
    by (fastforce simp: pf_sources_def)
  then show ?case using drained_messages [OF pf_iam_relay(2)] by (simp add: pf_sources_def)
next
  case (pf_lg_relay broker locked now p ob sent n)
  have "service_row ''logistics.'' r" if "r \<in> set sent" for r
    using drained_sent [OF pf_lg_relay(2,1)] pf_lg_relay(3) that by (auto simp: pf_outboxes_def outbox_ok_def)
  then show ?case
    using foreign_publish [OF assms(2) _ service_keys(1), of _ sent "pf_queues p"] pf_lg_relay(4) by (fastforce simp: pf_sources_def)
next
  case (pf_vol_relay broker locked now p ob sent n)
  have "service_row ''volunteer.'' r" if "r \<in> set sent" for r
    using drained_sent [OF pf_vol_relay(2,1)] pf_vol_relay(3) that by (auto simp: pf_outboxes_def outbox_ok_def)
  then show ?case
    using foreign_publish [OF assms(2) _ service_keys(2), of _ sent "pf_queues p"] pf_vol_relay(4) by (fastforce simp: pf_sources_def)
next
  case (pf_lg_iam p l Q)
  then show ?case
    using lg_queue.consume_adds [OF pf_lg_iam(1) assms(2) account_queues_live] by (fastforce simp: pf_sources_def)
next
  case (pf_vol_iam now p v Q)
  then show ?case
    using vol_queue.consume_adds [OF pf_vol_iam(1) assms(2) account_queues_live] by (fastforce simp: pf_sources_def)
next
  case (pf_vol_disaster now p v Q)
  then show ?case
    using disaster_queue.consume_adds [OF pf_vol_disaster(1) assms(2) account_queues_live] by (fastforce simp: pf_sources_def)
next
  case (pf_analytics_projections p a Q)
  then show ?case
    using an_queue.consume_adds [OF pf_analytics_projections(1) assms(2) account_queues_live] by (fastforce simp: pf_sources_def)
qed (simp_all add: pf_sources_def)


text \<open>What a step of a service means for the events in flight: rows that were not published before stay
  unpublished, and processed ids stay processed.\<close>

lemma iam_call_published:
  "iam_call cr s s' \<Longrightarrow> iam_inv s \<Longrightarrow> r \<in> set (outbox s') \<Longrightarrow> ob_published_at r \<noteq> None \<Longrightarrow> r \<in> set (outbox s)"
  using iam_call_effect published_kept by (fastforce simp: iam_effect_def)

lemma lg_quiet_published:
  "lg_quiet l l' \<Longrightarrow> r \<in> set (outbox l') \<Longrightarrow> ob_published_at r \<noteq> None \<Longrightarrow> r \<in> set (outbox l)"
  using published_kept by (fastforce simp: lg_quiet_def)

lemma vol_quiet_published:
  "vol_quiet v v' \<Longrightarrow> r \<in> set (outbox v') \<Longrightarrow> ob_published_at r \<noteq> None \<Longrightarrow> r \<in> set (outbox v)"
  using published_kept by (fastforce simp: vol_quiet_def)

lemma account_messages_accepted:
  assumes "pf_outboxes p" "pf_sources p" "q \<in> account_queues" "m \<in> set (pf_queues p q)"
  shows "\<exists>l'. handle_user_event (snd m) l = Inr l'" "\<exists>v'. handle_iam (now, snd m) v = Inr v'"
proof -
  from assms(2-4) obtain r where "r \<in> set (outbox (pf_iam p))" "m = message_of r" by (auto simp: pf_sources_def)
  with assms(1) have "account_row (accounts (pf_iam p)) r" "snd m = ob_payload r"
    by (auto simp: pf_outboxes_def outbox_ok_def message_of_def)
  then show "\<exists>l'. handle_user_event (snd m) l = Inr l'" "\<exists>v'. handle_iam (now, snd m) v = Inr v'"
    using replica_of_account_row [of "accounts (pf_iam p)" r l] profile_of_account_row [of "accounts (pf_iam p)" r now v]
    by auto
qed

lemma outbox_envelopes:
  assumes "pf_outboxes p"
  shows "r \<in> set (outbox (pf_iam p)) \<Longrightarrow> envelope_id (ob_payload r) = Some (ob_event_id r)"
    "r \<in> set (outbox (pf_logistics p)) \<Longrightarrow> envelope_id (ob_payload r) = Some (ob_event_id r)"
    "r \<in> set (outbox (pf_volunteer p)) \<Longrightarrow> envelope_id (ob_payload r) = Some (ob_event_id r)"
  using assms account_row_id by (auto simp: pf_outboxes_def outbox_ok_def service_row_def)

lemma queue_names:
  "distinct (map cc_queue consumer_configs @ map cc_dlq consumer_configs)"
  by (simp add: consumer_configs_def config_defs)

lemma configs_member [simp]:
  "logistics_iam_consumer \<in> set consumer_configs" "volunteer_iam_consumer \<in> set consumer_configs"
  "volunteer_disaster_consumer \<in> set consumer_configs" "analytics_consumer \<in> set consumer_configs"
  by (simp_all add: consumer_configs_def)

lemma pf_flow_calls:
  assumes "pf_flow matches p" "pf_outboxes p"
  shows "iam_call cr (pf_iam p) s \<Longrightarrow> pf_flow matches (p\<lparr>pf_iam := s\<rparr>)"
    "lg_quiet (pf_logistics p) l \<Longrightarrow> pf_flow matches (p\<lparr>pf_logistics := l\<rparr>)"
    "vol_quiet (pf_volunteer p) v \<Longrightarrow> pf_flow matches (p\<lparr>pf_volunteer := v\<rparr>)"
proof -
  show "pf_flow matches (p\<lparr>pf_iam := s\<rparr>)" if "iam_call cr (pf_iam p) s"
    using assms iam_call_published [OF that] unfolding pf_flow_def pf_outboxes_def
    by (auto elim!: tracked_mono)
  show "pf_flow matches (p\<lparr>pf_logistics := l\<rparr>)" if "lg_quiet (pf_logistics p) l"
    using assms lg_quiet_published [OF that] that unfolding pf_flow_def
    by (auto elim!: tracked_mono simp: lg_quiet_def)
  show "pf_flow matches (p\<lparr>pf_volunteer := v\<rparr>)" if "vol_quiet (pf_volunteer p) v"
    using assms vol_quiet_published [OF that] that unfolding pf_flow_def
    by (auto elim!: tracked_mono simp: vol_quiet_def)
qed


text \<open>A relay publishes its own rows and adds to the queues of the others.\<close>

lemma tracked_publish:
  "tracked matches cfg dead rows Q P \<Longrightarrow> tracked matches cfg dead rows (publish matches sent Q) P"
  by (erule tracked_mono) (simp_all add: publish_mono)

lemma pf_flow_relays:
  assumes "pf_flow matches p" "pf_outboxes p" "confirms broker"
  shows "drain_once locked broker now (outbox (pf_iam p)) = (ob, sent, n) \<Longrightarrow>
      pf_flow matches (p\<lparr>pf_iam := (pf_iam p)\<lparr>outbox := ob\<rparr>, pf_queues := publish matches sent (pf_queues p)\<rparr>)"
    "drain_once locked broker now (outbox (pf_logistics p)) = (ob, sent, n) \<Longrightarrow>
      pf_flow matches (p\<lparr>pf_logistics := (pf_logistics p)\<lparr>outbox := ob\<rparr>, pf_queues := publish matches sent (pf_queues p)\<rparr>)"
    "drain_once locked broker now (outbox (pf_volunteer p)) = (ob, sent, n) \<Longrightarrow>
      pf_flow matches (p\<lparr>pf_volunteer := (pf_volunteer p)\<lparr>outbox := ob\<rparr>, pf_queues := publish matches sent (pf_queues p)\<rparr>)"
  using assms(1,2)
  by (auto simp: pf_flow_def pf_outboxes_def outbox_ok_def intro: tracked_drain [OF _ _ assms(3)] tracked_publish)

lemma pf_flow_consumers:
  assumes "pf_flow matches p" "pf_outboxes p" "pf_sources p" "topic_laws matches"
  shows "consume matches logistics_iam_consumer handle_user_event (pf_logistics p, pf_queues p) (l, Q) \<Longrightarrow>
      pf_flow matches (p\<lparr>pf_logistics := l, pf_queues := Q\<rparr>)"
    "consume matches volunteer_iam_consumer (\<lambda>m. handle_iam (now, m)) (pf_volunteer p, pf_queues p) (v, Q) \<Longrightarrow>
      pf_flow matches (p\<lparr>pf_volunteer := v, pf_queues := Q\<rparr>)"
    "consume matches volunteer_disaster_consumer (\<lambda>m. handle_disaster (now, m)) (pf_volunteer p, pf_queues p) (v, Q) \<Longrightarrow>
      pf_flow matches (p\<lparr>pf_volunteer := v, pf_queues := Q\<rparr>)"
    "consume matches analytics_consumer handle_analytics (pf_analytics p, pf_queues p) (a, Q) \<Longrightarrow>
      pf_flow matches (p\<lparr>pf_analytics := a, pf_queues := Q\<rparr>)"
proof -
  note flow = assms(1) [unfolded pf_flow_def]
  note t1 = flow [THEN conjunct1] and t2 = flow [THEN conjunct2, THEN conjunct1]
    and t3 = flow [THEN conjunct2, THEN conjunct2, THEN conjunct1]
    and t4 = flow [THEN conjunct2, THEN conjunct2, THEN conjunct2]
  note env = outbox_envelopes [OF assms(2)]
  have q1: "cc_queue logistics_iam_consumer \<in> account_queues" and q2: "cc_queue volunteer_iam_consumer \<in> account_queues"
    by (simp_all add: account_queues_def)
  note ok = account_messages_accepted [OF assms(2,3)]
  show "pf_flow matches (p\<lparr>pf_logistics := l, pf_queues := Q\<rparr>)"
    if c: "consume matches logistics_iam_consumer handle_user_event (pf_logistics p, pf_queues p) (l, Q)"
    using lg_queue.consume_tracked [OF c assms(4) configs_member(1) env(1) t1] ok(1) [OF q1]
      lg_queue.consume_other_tracked [OF c t2] lg_queue.consume_other_tracked [OF c t3]
      lg_queue.consume_other_tracked [OF c t4] lg_consume_frame [OF c]
    by (simp add: pf_flow_def config_defs)
  show "pf_flow matches (p\<lparr>pf_volunteer := v, pf_queues := Q\<rparr>)"
    if c: "consume matches volunteer_iam_consumer (\<lambda>m. handle_iam (now, m)) (pf_volunteer p, pf_queues p) (v, Q)"
    using vol_queue.consume_tracked [OF c assms(4) configs_member(2) env(1) t2] ok(2) [OF q2]
      vol_queue.consume_other_tracked [OF c t1] vol_queue.consume_other_tracked [OF c t3]
      vol_queue.consume_other_tracked [OF c t4] vol_consume_frame [OF c] vol_queue.consume_processed [OF c]
    by (simp add: pf_flow_def config_defs)
  show "pf_flow matches (p\<lparr>pf_analytics := a, pf_queues := Q\<rparr>)"
    if c: "consume matches analytics_consumer handle_analytics (pf_analytics p, pf_queues p) (a, Q)"
    using an_queue.consume_tracked [OF c assms(4) configs_member(4) env(2) t4]
      an_queue.consume_other_tracked [OF c t1] an_queue.consume_other_tracked [OF c t2]
      an_queue.consume_other_tracked [OF c t3]
    by (simp add: pf_flow_def config_defs)
  show "pf_flow matches (p\<lparr>pf_volunteer := v, pf_queues := Q\<rparr>)"
    if c: "consume matches volunteer_disaster_consumer (\<lambda>m. handle_disaster (now, m)) (pf_volunteer p, pf_queues p) (v, Q)"
  proof -
    have "tracked matches volunteer_disaster_consumer {''dlq.volunteer.disaster-events''} (outbox (pf_volunteer p)) Q
        (set (processed_events v))"
      by (rule disaster_queue.consume_tracked [OF c assms(4) configs_member(3) env(3) t3]) (simp_all add: config_defs)
    then have "tracked matches volunteer_disaster_consumer {''dlq.volunteer.disaster-events''} (outbox v) Q
        (set (processed_events v))"
      by (rule tracked_mono) (use vol_quiet_published [OF disaster_consume_quiet [OF c]] in auto)
    then show ?thesis
      using disaster_queue.consume_other_tracked [OF c t1] disaster_queue.consume_other_tracked [OF c t2]
        disaster_queue.consume_other_tracked [OF c t4] disaster_queue.consume_processed [OF c]
      by (simp add: pf_flow_def config_defs)
  qed
qed

lemma pf_step_flow:
  assumes "pf_step matches cr iso_date p p'" "topic_laws matches" "pf_outboxes p" "pf_sources p" "pf_flow matches p"
  shows "pf_flow matches p'"
  using assms(1,3-5)
  by (induction rule: pf_step.induct)
    (blast intro: pf_flow_calls pf_flow_relays pf_flow_consumers [OF _ _ _ assms(2)] lg_call_quiet vol_call_quiet)+


section \<open>Replicas of accounts\<close>

definition replicas_ok :: "iam_db \<Rightarrow> logistics_db \<Rightarrow> volunteer_db \<Rightarrow> bool" where
  "replicas_ok s l v \<longleftrightarrow>
     (\<forall>u t. (u, t) \<in> replica_keys l \<longrightarrow> (\<exists>ty. (u, t, ty) \<in> accounts s)) \<and>
     (\<forall>u \<in> profile_keys v. \<exists>t. (u, t, VOLUNTEER) \<in> accounts s) \<and>
     (\<forall>e \<in> set (lg_processed l). \<exists>r \<in> set (outbox s). ob_event_id r = e) \<and>
     (\<forall>r \<in> set (outbox s). \<forall>a. ob_event_id r \<in> set (lg_processed l) \<longrightarrow>
        registration a r \<longrightarrow> fst a \<in> fst ` replica_keys l) \<and>
     (\<forall>a \<in> accounts s. snd (snd a) = SUPER_ADMIN \<or> (\<exists>r \<in> set (outbox s). registration a r))"

abbreviation pf_replicas :: "platform \<Rightarrow> bool" where
  "pf_replicas p \<equiv> replicas_ok (pf_iam p) (pf_logistics p) (pf_volunteer p)"

lemma replicas_okI:
  assumes "\<And>u t. (u, t) \<in> replica_keys l \<Longrightarrow> \<exists>ty. (u, t, ty) \<in> accounts s"
    and "\<And>u. u \<in> profile_keys v \<Longrightarrow> \<exists>t. (u, t, VOLUNTEER) \<in> accounts s"
    and "\<And>e. e \<in> set (lg_processed l) \<Longrightarrow> \<exists>r \<in> set (outbox s). ob_event_id r = e"
    and "\<And>r a. r \<in> set (outbox s) \<Longrightarrow> ob_event_id r \<in> set (lg_processed l) \<Longrightarrow>
        registration a r \<Longrightarrow> fst a \<in> fst ` replica_keys l"
    and "\<And>a. a \<in> accounts s \<Longrightarrow> snd (snd a) = SUPER_ADMIN \<or> (\<exists>r \<in> set (outbox s). registration a r)"
  shows "replicas_ok s l v"
  unfolding replicas_ok_def using assms by blast

lemma replicas_okD:
  assumes "replicas_ok s l v"
  shows "(u, t) \<in> replica_keys l \<Longrightarrow> \<exists>ty. (u, t, ty) \<in> accounts s"
    and "u \<in> profile_keys v \<Longrightarrow> \<exists>t. (u, t, VOLUNTEER) \<in> accounts s"
    and "e \<in> set (lg_processed l) \<Longrightarrow> \<exists>r \<in> set (outbox s). ob_event_id r = e"
    and "r \<in> set (outbox s) \<Longrightarrow> ob_event_id r \<in> set (lg_processed l) \<Longrightarrow>
        registration a r \<Longrightarrow> fst a \<in> fst ` replica_keys l"
    and "a \<in> accounts s \<Longrightarrow> snd (snd a) = SUPER_ADMIN \<or> (\<exists>r \<in> set (outbox s). registration a r)"
  using assms unfolding replicas_ok_def by blast+

lemma registration_unpublish [simp]: "registration a (r\<lparr>ob_published_at := v\<rparr>) = registration a r"
  by (simp add: registration_def)

lemma replicas_iam_call:
  assumes "iam_call cr (pf_iam p) s" "pf_outboxes p" "pf_replicas p"
  shows "pf_replicas (p\<lparr>pf_iam := s\<rparr>)"
proof -
  note old = replicas_okD [OF assms(3)]
  have e: "iam_effect (pf_iam p) s" using iam_call_effect [OF assms(1)] assms(2) by (simp add: pf_outboxes_def)
  then obtain new where new: "outbox s = outbox (pf_iam p) @ new" "\<And>r. r \<in> set new \<Longrightarrow> next_uuid (pf_iam p) \<le> ob_event_id r"
    by (auto simp: iam_effect_def emits_def)
  have acc: "accounts (pf_iam p) \<subseteq> accounts s" using e by (simp add: iam_effect_def)
  have low: "ob_event_id r < next_uuid (pf_iam p)" if "r \<in> set (outbox (pf_iam p))" for r
    using that assms(2) by (simp add: pf_outboxes_def outbox_ok_def)
  have seen: "r \<in> set (outbox (pf_iam p))"
    if r: "r \<in> set (outbox s)" "ob_event_id r \<in> set (lg_processed (pf_logistics p))" for r
  proof -
    from old(3) [OF r(2)] have "ob_event_id r < next_uuid (pf_iam p)" using low by metis
    then show ?thesis using r(1) new by fastforce
  qed
  have announced: "snd (snd a) = SUPER_ADMIN \<or> (\<exists>r \<in> set (outbox s). registration a r)" if "a \<in> accounts s" for a
  proof (cases "a \<in> accounts (pf_iam p)")
    case True
    then show ?thesis using old(5) [OF True] new(1) by auto
  next
    case False
    then show ?thesis using e that unfolding iam_effect_def by blast
  qed
  have "replicas_ok s (pf_logistics p) (pf_volunteer p)"
  proof (rule replicas_okI)
    show "\<exists>r \<in> set (outbox s). ob_event_id r = e" if "e \<in> set (lg_processed (pf_logistics p))" for e
      using old(3) [OF that] new(1) by auto
  qed (use old acc seen announced in blast)+
  then show ?thesis by simp
qed

lemma replicas_iam_relay:
  assumes "drain_once locked broker now (outbox (pf_iam p)) = (ob, sent, n)" "confirms broker" "pf_outboxes p" "pf_replicas p"
  shows "pf_replicas (p\<lparr>pf_iam := (pf_iam p)\<lparr>outbox := ob\<rparr>, pf_queues := Q\<rparr>)"
proof -
  note old = replicas_okD [OF assms(4)]
  have d: "distinct (map ob_id (outbox (pf_iam p)))" using assms(3) by (simp add: pf_outboxes_def outbox_ok_def)
  let ?f = "\<lambda>r. (ob_event_id r, \<lambda>a. registration a r)"
  have img: "?f ` set ob = ?f ` set (outbox (pf_iam p))"
    using arg_cong [OF drained_maps [OF assms(1), of ?f], of set] by simp
  have prev: "\<exists>r0 \<in> set (outbox (pf_iam p)). ob_event_id r0 = ob_event_id r \<and> (\<forall>a. registration a r0 = registration a r)"
    if "r \<in> set ob" for r
    using drained_row [OF assms(1,2) d that] by auto
  have nxt: "\<exists>r \<in> set ob. ob_event_id r = ob_event_id r0 \<and> (\<forall>a. registration a r = registration a r0)"
    if "r0 \<in> set (outbox (pf_iam p))" for r0
  proof -
    have "?f r0 \<in> ?f ` set ob" using that unfolding img by blast
    then show ?thesis by (auto dest: fun_cong)
  qed
  have rows: "outbox ((pf_iam p)\<lparr>outbox := ob\<rparr>) = ob" by simp
  have "replicas_ok ((pf_iam p)\<lparr>outbox := ob\<rparr>) (pf_logistics p) (pf_volunteer p)"
  proof (rule replicas_okI, unfold rows accounts_outbox)
    show "\<exists>r \<in> set ob. ob_event_id r = e" if "e \<in> set (lg_processed (pf_logistics p))" for e
      using old(3) [OF that] nxt by metis
    show "fst a \<in> fst ` replica_keys (pf_logistics p)"
      if "r \<in> set ob" "ob_event_id r \<in> set (lg_processed (pf_logistics p))" "registration a r" for r a
      using prev [OF that(1)] old(4) that(2,3) by metis
    show "snd (snd a) = SUPER_ADMIN \<or> (\<exists>r \<in> set ob. registration a r)" if "a \<in> accounts (pf_iam p)" for a
      using old(5) [OF that] nxt by metis
  qed (use old(1,2) in blast)+
  then show ?thesis by simp
qed

lemma replicas_lg_consume:
  assumes "consume matches logistics_iam_consumer handle_user_event (pf_logistics p, pf_queues p) (l, Q)"
    and "pf_outboxes p" "pf_sources p" "pf_replicas p"
  shows "pf_replicas (p\<lparr>pf_logistics := l, pf_queues := Q\<rparr>)"
proof (cases "l = pf_logistics p")
  case True
  then show ?thesis using assms(4) by simp
next
  case False
  note old = replicas_okD [OF assms(4)]
  let ?A = "accounts (pf_iam p)" and ?l = "pf_logistics p"
  from False lg_queue.consume_handled [OF assms(1)] obtain m where
    m: "m \<in> set (pf_queues p (cc_queue logistics_iam_consumer))" "handle_user_event (snd m) ?l = Inr l" by auto
  then obtain r where r: "r \<in> set (outbox (pf_iam p))" "snd m = ob_payload r"
    using assms(3) by (auto simp: pf_sources_def account_queues_def message_of_def)
  have row: "account_row ?A r" using assms(2) r(1) by (auto simp: pf_outboxes_def outbox_ok_def)
  obtain l' where eff: "handle_user_event (ob_payload r) ?l = Inr l'" "replica_keys ?l \<subseteq> replica_keys l'"
    "\<forall>(u, t) \<in> replica_keys l' - replica_keys ?l. \<exists>ty. (u, t, ty) \<in> ?A"
    "ob_event_id r \<notin> set (lg_processed ?l) \<longrightarrow> (\<forall>a. registration a r \<longrightarrow> fst a \<in> fst ` replica_keys l')"
    using replica_of_account_row [OF row, of ?l] by blast
  have l': "l' = l" using eff(1) m(2) r(2) by simp
  have proc: "set (lg_processed l) = insert (ob_event_id r) (set (lg_processed ?l))"
    using lg_iam.marks [OF m(2)] account_row_id [OF row] r(2) by auto
  have uniq: "r' = r" if "r' \<in> set (outbox (pf_iam p))" "ob_event_id r' = ob_event_id r" for r'
    using that r(1) assms(2) by (auto simp: pf_outboxes_def outbox_ok_def distinct_map inj_on_def)
  have "replicas_ok (pf_iam p) l (pf_volunteer p)"
  proof (rule replicas_okI)
    show "\<exists>ty. (u, t, ty) \<in> ?A" if "(u, t) \<in> replica_keys l" for u t
      using that old(1) [of u t] eff(3) l' by (cases "(u, t) \<in> replica_keys ?l") (auto dest: bspec [of _ _ "(u, t)"])
    show "\<exists>r \<in> set (outbox (pf_iam p)). ob_event_id r = e" if "e \<in> set (lg_processed l)" for e
      using that old(3) [of e] r(1) unfolding proc by blast
    show "fst a \<in> fst ` replica_keys l"
      if r': "r' \<in> set (outbox (pf_iam p))" "ob_event_id r' \<in> set (lg_processed l)" "registration a r'" for r' a
    proof (cases "ob_event_id r' \<in> set (lg_processed ?l)")
      case True
      then show ?thesis using old(4) [OF r'(1) _ r'(3)] eff(2) l' by blast
    next
      case False
      then have "r' = r" using r' proc uniq by blast
      then show ?thesis using False r'(3) eff(4) l' by blast
    qed
  qed (use old(2,5) in blast)+
  then show ?thesis by simp
qed

lemma replicas_volunteer:
  assumes "profile_keys v' \<subseteq> profile_keys v \<union> {u. \<exists>t. (u, t, VOLUNTEER) \<in> accounts s}" "replicas_ok s l v"
  shows "replicas_ok s l v'"
  using assms unfolding replicas_ok_def by blast

lemma quiet_profiles: "vol_quiet v v' \<Longrightarrow> profile_keys v' = profile_keys v"
  unfolding vol_quiet_def profile_keys_def by (metis list.set_map)

lemma replicas_vol_consume:
  assumes "consume matches volunteer_iam_consumer (\<lambda>m. handle_iam (now, m)) (pf_volunteer p, pf_queues p) (v, Q)"
    and "pf_outboxes p" "pf_sources p" "pf_replicas p"
  shows "replicas_ok (pf_iam p) (pf_logistics p) v"
proof (cases "v = pf_volunteer p")
  case False
  from False vol_queue.consume_handled [OF assms(1)] obtain m where
    m: "m \<in> set (pf_queues p (cc_queue volunteer_iam_consumer))" "handle_iam (now, snd m) (pf_volunteer p) = Inr v" by auto
  then obtain r where r: "r \<in> set (outbox (pf_iam p))" "snd m = ob_payload r"
    using assms(3) by (auto simp: pf_sources_def account_queues_def message_of_def)
  have "account_row (accounts (pf_iam p)) r" using assms(2) r(1) by (auto simp: pf_outboxes_def outbox_ok_def)
  from profile_of_account_row [OF this, of now "pf_volunteer p"] m(2) r(2)
  have "profile_keys v \<subseteq> profile_keys (pf_volunteer p) \<union> {u. \<exists>t. (u, t, VOLUNTEER) \<in> accounts (pf_iam p)}" by simp
  then show ?thesis using assms(4) by (rule replicas_volunteer)
qed (use assms(4) in simp)

lemma pf_step_replicas:
  assumes "pf_step matches cr iso_date p p'" "pf_outboxes p" "pf_sources p" "pf_replicas p"
  shows "pf_replicas p'"
  using assms
proof (induction rule: pf_step.induct)
  case (pf_iam_call p s)
  then show ?case using replicas_iam_call by blast
next
  case (pf_lg_call pr p l)
  then show ?case
    using lg_call_quiet [OF pf_lg_call(1)] by (simp add: lg_quiet_def replicas_ok_def replica_keys_def)
next
  case (pf_vol_call p v)
  then show ?case using quiet_profiles [OF vol_call_quiet [OF pf_vol_call(1)]] by (auto intro: replicas_volunteer)
next
  case (pf_iam_relay broker locked now p ob sent n)
  then show ?case using replicas_iam_relay by blast
next
  case (pf_lg_relay broker locked now p ob sent n)
  then show ?case by (simp add: replicas_ok_def replica_keys_def)
next
  case (pf_vol_relay broker locked now p ob sent n)
  then show ?case by (simp add: replicas_ok_def profile_keys_def)
next
  case (pf_lg_iam p l Q)
  then show ?case using replicas_lg_consume by blast
next
  case (pf_vol_iam now p v Q)
  then show ?case using replicas_vol_consume [OF pf_vol_iam] by simp
next
  case (pf_vol_disaster now p v Q)
  then show ?case using quiet_profiles [OF disaster_consume_quiet [OF pf_vol_disaster(1)]] by (auto intro: replicas_volunteer)
qed simp

section \<open>Reachable states\<close>

definition pf_inv :: "(string \<Rightarrow> string \<Rightarrow> bool) \<Rightarrow> platform \<Rightarrow> bool" where
  "pf_inv matches p \<longleftrightarrow> pf_outboxes p \<and> pf_sources p \<and> pf_flow matches p \<and> pf_replicas p"

lemma empty_pf_inv: "pf_inv matches empty_platform"
  by (simp add: pf_inv_def pf_outboxes_def pf_sources_def pf_flow_def replicas_ok_def empty_platform_def outbox_ok_def
      empty_iam_inv tracked_def replica_keys_def profile_keys_def accounts_def)
    (simp add: empty_iam_db_def empty_logistics_db_def empty_volunteer_db_def)

lemma pf_step_inv: "pf_step matches cr iso_date p p' \<Longrightarrow> topic_laws matches \<Longrightarrow> pf_inv matches p \<Longrightarrow> pf_inv matches p'"
  unfolding pf_inv_def using pf_step_outboxes pf_step_sources pf_step_flow pf_step_replicas by blast

lemma pf_reachable_inv:
  assumes "(pf_step matches cr iso_date)\<^sup>*\<^sup>* empty_platform p" "topic_laws matches"
  shows "pf_inv matches p"
  using assms(1) by (induction rule: rtranclp_induct) (auto intro: empty_pf_inv pf_step_inv [OF _ assms(2)])

end
