(* ===== verification/Keys.thy ===== *)
theory Keys
  imports IAM_Correct "HOL-Library.Word"
begin

text \<open>
  The signing keys of the identity service (\<open>services/iam/app/core/keys.py\<close>), the key document it serves
  (\<open>api/routes_jwks.py\<close>) and the tokens it signs with them (\<open>core/security.py\<close>). The \<open>cryptography\<close>
  library, SHA-256 and the JOSE library are parameters; base64 and the conversion of integers to bytes
  are written out.
\<close>

section \<open>Bytes and base64\<close>

type_synonym byte = "8 word"

text \<open>\<open>int.bit_length\<close> and \<open>int.to_bytes(length, "big")\<close> of a non-negative number.\<close>

fun bit_length :: "nat \<Rightarrow> nat" where
  "bit_length n = (if n = 0 then 0 else Suc (bit_length (n div 2)))"

declare bit_length.simps [simp del]

primrec to_bytes :: "nat \<Rightarrow> nat \<Rightarrow> byte list" where
  "to_bytes 0 v = []"
| "to_bytes (Suc n) v = to_bytes n (v div 256) @ [word_of_nat (v mod 256)]"

definition b64_alphabet :: string where
  "b64_alphabet = ''ABCDEFGHIJKLMNOPQRSTUVWXYZabcdefghijklmnopqrstuvwxyz0123456789-_''"

definition b64_char :: "nat \<Rightarrow> char" where
  "b64_char i = b64_alphabet ! i"

text \<open>\<open>base64.urlsafe_b64encode\<close>: three bytes give four characters, a shorter last group is padded.\<close>

fun urlsafe_b64encode :: "byte list \<Rightarrow> string" where
  "urlsafe_b64encode [] = []"
| "urlsafe_b64encode [a] =
     (let n = unat a * 16 in [b64_char (n div 64), b64_char (n mod 64), CHR ''='', CHR ''=''])"
| "urlsafe_b64encode [a, b] =
     (let n = (unat a * 256 + unat b) * 4
      in [b64_char (n div 4096), b64_char (n div 64 mod 64), b64_char (n mod 64), CHR ''=''])"
| "urlsafe_b64encode (a # b # c # bs) =
     (let n = unat a * 65536 + unat b * 256 + unat c
      in [b64_char (n div 262144), b64_char (n div 4096 mod 64), b64_char (n div 64 mod 64), b64_char (n mod 64)]
         @ urlsafe_b64encode bs)"

definition b64url :: "byte list \<Rightarrow> string" where
  "b64url data = rstrip_char (CHR ''='') (urlsafe_b64encode data)"

definition int_to_b64url :: "nat \<Rightarrow> string" where
  "int_to_b64url v = (let len = (bit_length v + 7) div 8 in b64url (to_bytes len v))"

section \<open>The key manager\<close>

text \<open>What the code uses of the \<open>cryptography\<close> library and of \<open>hashlib\<close>, for keys of type \<open>'k\<close>.\<close>

record 'k key_library =
  load_pem_private_key :: "byte list \<Rightarrow> 'k option"
  public_der :: "'k \<Rightarrow> byte list"
  sha256_digest :: "byte list \<Rightarrow> byte list"
  private_pkcs8 :: "'k \<Rightarrow> string"
  public_n :: "'k \<Rightarrow> nat"
  public_e :: "'k \<Rightarrow> nat"

record key_manager =
  km_kid :: string
  km_private_pem :: string
  km_jwk :: "(string \<times> json) list"

text \<open>\<open>str.encode("utf-8")\<close> for the characters of the model.\<close>

definition encode_utf8 :: "string \<Rightarrow> byte list" where
  "encode_utf8 s =
     concat (map (\<lambda>c. let n = of_char c :: nat in
       if n < 128 then [word_of_nat n] else [word_of_nat (192 + n div 64), word_of_nat (128 + n mod 64)]) s)"

definition key_manager_of :: "'k key_library \<Rightarrow> 'k \<Rightarrow> key_manager" where
  "key_manager_of lib key =
     (let kid = take 16 (b64url (sha256_digest lib (public_der lib key)))
      in \<lparr>km_kid = kid, km_private_pem = private_pkcs8 lib key,
          km_jwk = [(''kty'', JStr ''RSA''), (''use'', JStr ''sig''), (''alg'', JStr ''RS256''), (''kid'', JStr kid),
                    (''n'', JStr (int_to_b64url (public_n lib key))), (''e'', JStr (int_to_b64url (public_e lib key)))]\<rparr>)"

text \<open>\<open>KeyManager.__init__\<close>: the key comes from the environment variable \<open>JWT_PRIVATE_KEY\<close> when it is set
  and not empty, from the file otherwise (\<open>None\<close> is a file that cannot be read).\<close>

datatype key_error = KeyFileUnreadable | KeyNotLoaded

definition new_key_manager ::
  "'k key_library \<Rightarrow> string option \<Rightarrow> byte list option \<Rightarrow> key_error + key_manager" where
  "new_key_manager lib pem_content file =
     (case (case pem_content of
              Some pem \<Rightarrow> if pem \<noteq> [] then Some (encode_utf8 pem) else file
            | None \<Rightarrow> file) of
        None \<Rightarrow> Inl KeyFileUnreadable
      | Some key_bytes \<Rightarrow>
          (case load_pem_private_key lib key_bytes of
             None \<Rightarrow> Inl KeyNotLoaded
           | Some key \<Rightarrow> Inr (key_manager_of lib key)))"

definition jwks :: "key_manager \<Rightarrow> json" where
  "jwks km = JObj [(''keys'', JArr [JObj (km_jwk km)])]"

definition route_jwks :: "key_manager \<Rightarrow> json" where
  "route_jwks km = jwks km"

text \<open>The last line of \<open>create_access_token\<close> and \<open>decode_access_token\<close>; \<open>encode\<close> and \<open>decode\<close> are
  \<open>jwt.encode\<close> and \<open>jwt.decode\<close>.\<close>

definition sign_access_token ::
  "((string \<times> json) list \<Rightarrow> string \<Rightarrow> (string \<times> json) list \<Rightarrow> string) \<Rightarrow> key_manager \<Rightarrow> (string \<times> json) list \<Rightarrow> string" where
  "sign_access_token encode km claims = encode claims (km_private_pem km) [(''kid'', JStr (km_kid km))]"

definition decode_access_token ::
  "(string \<Rightarrow> json \<Rightarrow> string \<Rightarrow> string \<Rightarrow> (string \<times> json) list option) \<Rightarrow> key_manager \<Rightarrow> string \<Rightarrow>
   (string \<times> json) list option" where
  "decode_access_token decode km token = decode token (jwks km) ''rcp-iam'' ''rcp-services''"

section \<open>Reading base64 back\<close>

text \<open>The inverse conversions, as RFC 4648 and RFC 7518 define them for the consumer of a key.\<close>

fun index_from :: "nat \<Rightarrow> char \<Rightarrow> string \<Rightarrow> nat option" where
  "index_from i c [] = None"
| "index_from i c (x # xs) = (if x = c then Some i else index_from (Suc i) c xs)"

definition b64_value :: "char \<Rightarrow> nat option" where
  "b64_value c = index_from 0 c b64_alphabet"

fun b64url_bytes :: "nat list \<Rightarrow> byte list option" where
  "b64url_bytes [] = Some []"
| "b64url_bytes [i] = None"
| "b64url_bytes [i, j] = Some [word_of_nat ((i * 64 + j) div 16)]"
| "b64url_bytes [i, j, k] =
     (let n = (i * 4096 + j * 64 + k) div 4 in Some [word_of_nat (n div 256), word_of_nat (n mod 256)])"
| "b64url_bytes (i # j # k # l # is) =
     (let n = i * 262144 + j * 4096 + k * 64 + l
      in map_option (\<lambda>bs. word_of_nat (n div 65536) # word_of_nat (n div 256 mod 256) # word_of_nat (n mod 256) # bs)
           (b64url_bytes is))"

definition b64url_decode :: "string \<Rightarrow> byte list option" where
  "b64url_decode s = (if list_all (\<lambda>c. b64_value c \<noteq> None) s then b64url_bytes (map (the \<circ> b64_value) s) else None)"

definition from_bytes :: "byte list \<Rightarrow> nat" where
  "from_bytes bs = foldl (\<lambda>n b. n * 256 + unat b) 0 bs"

definition b64url_to_int :: "string \<Rightarrow> nat option" where
  "b64url_to_int s = map_option from_bytes (b64url_decode s)"

lemma from_bytes_snoc [simp]: "from_bytes (bs @ [b]) = from_bytes bs * 256 + unat b"
  by (simp add: from_bytes_def)

lemma unat_byte: "unat (word_of_nat (n mod 256) :: byte) = n mod 256"
  by (simp add: unat_of_nat)

lemma from_to_bytes: "from_bytes (to_bytes n v) = v mod 256 ^ n"
proof (induction n arbitrary: v)
  case 0
  then show ?case by (simp add: from_bytes_def)
next
  case (Suc n)
  then show ?case by (simp add: unat_byte mod_mult2_eq)
qed

lemma bit_length_bound: "v < 2 ^ bit_length v"
proof (induction v rule: bit_length.induct)
  case (1 n)
  then show ?case by (cases "n = 0") (subst bit_length.simps, auto simp: bit_length.simps)
qed

lemma to_bytes_int: "from_bytes (to_bytes ((bit_length v + 7) div 8) v) = v"
proof -
  have "2 ^ bit_length v \<le> (2 :: nat) ^ (8 * ((bit_length v + 7) div 8))"
    by (rule power_increasing) auto
  then have "v < 256 ^ ((bit_length v + 7) div 8)" using bit_length_bound [of v] by (simp add: power_mult)
  then show ?thesis by (simp add: from_to_bytes)
qed

text \<open>The six-bit groups of a byte string.\<close>

fun sextets :: "byte list \<Rightarrow> nat list" where
  "sextets [] = []"
| "sextets [a] = (let n = unat a * 16 in [n div 64, n mod 64])"
| "sextets [a, b] = (let n = (unat a * 256 + unat b) * 4 in [n div 4096, n div 64 mod 64, n mod 64])"
| "sextets (a # b # c # bs) =
     (let n = unat a * 65536 + unat b * 256 + unat c
      in [n div 262144, n div 4096 mod 64, n div 64 mod 64, n mod 64] @ sextets bs)"

lemma byte_bound: "unat (b :: byte) < 256"
proof -
  have "unat b < 2 ^ LENGTH(8)" by (rule unsigned_less)
  then show ?thesis by simp
qed

lemma sextets_bound: "list_all (\<lambda>i. i < 64) (sextets bs)"
proof (induction bs rule: sextets.induct)
  case (2 a)
  then show ?case using byte_bound [of a] by (simp add: Let_def)
next
  case (3 a b)
  then show ?case using byte_bound [of a] byte_bound [of b] by (simp add: Let_def less_mult_imp_div_less)
next
  case (4 a b c bs)
  then show ?case
    using byte_bound [of a] byte_bound [of b] byte_bound [of c] by (simp add: Let_def less_mult_imp_div_less)
qed simp

lemma b64_table: "list_all (\<lambda>i. b64_value (b64_char i) = Some i \<and> b64_char i \<noteq> CHR ''='') [0..<64]"
  by code_simp

lemma b64_char_inv: "i < 64 \<Longrightarrow> b64_value (b64_char i) = Some i \<and> b64_char i \<noteq> CHR ''=''"
  using b64_table by (simp add: list_all_iff)

lemma encode_sextets: "\<exists>p. urlsafe_b64encode bs = map b64_char (sextets bs) @ replicate p (CHR ''='')"
proof (induction bs rule: sextets.induct)
  case (2 a)
  then show ?case by (intro exI [of _ 2]) (simp add: Let_def numeral_2_eq_2)
next
  case (3 a b)
  then show ?case by (intro exI [of _ 1]) (simp add: Let_def)
next
  case (4 a b c bs)
  then show ?case by (auto simp: Let_def)
qed simp

lemma b64url_sextets: "b64url bs = map b64_char (sextets bs)"
proof -
  obtain p where "urlsafe_b64encode bs = map b64_char (sextets bs) @ replicate p (CHR ''='')"
    using encode_sextets by blast
  moreover have "list_all (\<lambda>c. c \<noteq> CHR ''='') (map b64_char (sextets bs))"
    using sextets_bound [of bs] b64_char_inv by (auto simp: list_all_iff)
  ultimately show ?thesis using rstrip_padding by (simp add: b64url_def)
qed

text \<open>Regrouping 24 bits in sextets and in bytes.\<close>

lemma nested_div:
  "(n :: nat) div 262144 = n div 64 div 64 div 64" "n div 4096 = n div 64 div 64" "n div 65536 = n div 256 div 256"
  by (simp_all add: div_mult2_eq [symmetric])

lemma join_sextets: "(n :: nat) div 64 div 64 div 64 * 262144 + n div 64 div 64 mod 64 * 4096 + n div 64 mod 64 * 64 + n mod 64 = n"
proof -
  have "n div 64 div 64 div 64 * 262144 + n div 64 div 64 mod 64 * 4096 = n div 64 div 64 * 4096"
    using div_mult_mod_eq [of "n div 64 div 64" 64] by linarith
  moreover have "n div 64 div 64 * 4096 + n div 64 mod 64 * 64 = n div 64 * 64"
    using div_mult_mod_eq [of "n div 64" 64] by linarith
  ultimately show ?thesis using div_mult_mod_eq [of n 64] by linarith
qed

lemma split_bytes:
  assumes "n = unat (a :: byte) * 65536 + unat (b :: byte) * 256 + unat (c :: byte)"
  shows "n div 256 div 256 = unat a" "n div 256 mod 256 = unat b" "n mod 256 = unat c"
proof -
  have low: "(k * 256 + r) div 256 = k" "(k * 256 + r) mod 256 = r" if "r < 256" for k r :: nat
    using that by simp_all
  have n: "n = (unat a * 256 + unat b) * 256 + unat c" using assms by simp
  have "n div 256 = unat a * 256 + unat b" unfolding n by (rule low(1) [OF byte_bound])
  then show "n div 256 div 256 = unat a" "n div 256 mod 256 = unat b"
    using low [OF byte_bound [of b], of "unat a"] by simp_all
  show "n mod 256 = unat c" unfolding n by (rule low(2) [OF byte_bound])
qed

lemma sextets_inverse: "b64url_bytes (sextets bs) = Some bs"
proof (induction bs rule: sextets.induct)
  case (2 a)
  have "unat a * 16 div 64 * 64 + unat a * 16 mod 64 = unat a * 16" by (rule div_mult_mod_eq)
  then show ?case by (simp add: Let_def)
next
  case (3 a b)
  let ?n = "(unat a * 256 + unat b) * 4"
  have "?n div 64 div 64 * 4096 + ?n div 64 mod 64 * 64 + ?n mod 64 = ?n"
    using div_mult_mod_eq [of "?n div 64" 64] div_mult_mod_eq [of ?n 64] by linarith
  then have "(?n div 4096 * 4096 + ?n div 64 mod 64 * 64 + ?n mod 64) div 4 = unat a * 256 + unat b"
    by (simp add: nested_div)
  then show ?case using byte_bound [of b] by (simp add: Let_def)
next
  case (4 a b c bs)
  define n where "n = unat a * 65536 + unat b * 256 + unat c"
  have "n div 262144 * 262144 + n div 4096 mod 64 * 4096 + n div 64 mod 64 * 64 + n mod 64 = n"
    using join_sextets [of n] by (simp add: nested_div)
  then show ?case
    using 4 [OF n_def] split_bytes [OF n_def] by (simp add: Let_def n_def [symmetric] nested_div)
qed simp

lemma b64url_roundtrip: "b64url_decode (b64url bs) = Some bs"
proof -
  have "map (the \<circ> b64_value) (b64url bs) = sextets bs" "list_all (\<lambda>c. b64_value c \<noteq> None) (b64url bs)"
    using sextets_bound [of bs] b64_char_inv by (auto simp: b64url_sextets list_all_iff intro: map_idI)
  then show ?thesis by (simp add: b64url_decode_def sextets_inverse)
qed

lemma int_b64url_roundtrip: "b64url_to_int (int_to_b64url v) = Some v"
  by (simp add: b64url_to_int_def int_to_b64url_def Let_def b64url_roundtrip to_bytes_int)

section \<open>What the JOSE library does\<close>

text \<open>The documented behaviour the services rely on, at time \<open>t\<close> in seconds: the header of a signed token
  can be read, with the algorithm and the extra headers, and a token signed with a private key is
  accepted, and its claims returned, by anyone who has the public key in a key document, when issuer and
  audience are the expected ones and the token has not expired.\<close>

definition jwk_of :: "'k key_library \<Rightarrow> 'k \<Rightarrow> (string \<times> json) list \<Rightarrow> bool" where
  "jwk_of lib key d \<longleftrightarrow>
     dget d ''kty'' = Some (JStr ''RSA'') \<and>
     (\<exists>n e. dget d ''n'' = Some (JStr n) \<and> b64url_to_int n = Some (public_n lib key) \<and>
        dget d ''e'' = Some (JStr e) \<and> b64url_to_int e = Some (public_e lib key))"

definition jose_laws ::
  "'k key_library \<Rightarrow> ((string \<times> json) list \<Rightarrow> string \<Rightarrow> (string \<times> json) list \<Rightarrow> string) \<Rightarrow>
   (string \<Rightarrow> (string \<times> json) list option) \<Rightarrow>
   (string \<Rightarrow> json \<Rightarrow> string \<Rightarrow> string \<Rightarrow> (string \<times> json) list option) \<Rightarrow> int \<Rightarrow> bool" where
  "jose_laws lib encode get_header decode t \<longleftrightarrow>
     (\<forall>claims pem hs. get_header (encode claims pem hs) =
        Some ([(''alg'', JStr ''RS256''), (''typ'', JStr ''JWT'')] @ hs)) \<and>
     (\<forall>claims key hs d iss aud x. jwk_of lib key d \<longrightarrow>
        dget claims ''iss'' = Some (JStr iss) \<longrightarrow> dget claims ''aud'' = Some (JStr aud) \<longrightarrow>
        dget claims ''exp'' = Some (JInt x) \<longrightarrow> t < x \<longrightarrow>
        decode (encode claims (private_pkcs8 lib key) hs) (JObj d) iss aud = Some claims)"

lemma key_manager_jwk: "jwk_of lib key (km_jwk (key_manager_of lib key))"
  by (simp add: jwk_of_def key_manager_of_def Let_def int_b64url_roundtrip)

lemma key_manager_kid [simp]: "dget (km_jwk (key_manager_of lib key)) ''kid'' = Some (JStr (km_kid (key_manager_of lib key)))"
  by (simp add: key_manager_of_def Let_def)

lemma fetch_jwks:
  "fetch_keys (Body (route_jwks (key_manager_of lib key))) t2 c =
     Inr (c\<lparr>cache_keys := [(JStr (km_kid (key_manager_of lib key)), JObj (km_jwk (key_manager_of lib key)))], fetched_at := t2\<rparr>)"
  by (simp add: fetch_keys_def route_jwks_def jwks_def key_entry_def key_manager_of_def Let_def)

text \<open>The services find the key under its kid, fetched now or cached before.\<close>

lemma get_key_jwks:
  assumes "km = key_manager_of lib key"
    and "needs_fetch t1 (JStr (km_kid km)) c \<or>
      map_of (cache_keys c) (JStr (km_kid km)) = Some (JObj (km_jwk km)) \<and> t1 - fetched_at c \<le> cache_ttl c"
  shows "\<exists>c'. get_key (Body (route_jwks km)) t1 t2 (JStr (km_kid km)) c = (c', Inr (Some (JObj (km_jwk km))))"
proof (cases "needs_fetch t1 (JStr (km_kid km)) c")
  case True
  then show ?thesis using fetch_jwks [of lib key t2 c] assms(1) by (simp add: get_key_def)
next
  case False
  then show ?thesis using assms(2) by (simp add: get_key_def)
qed

lemma sextets_length: "length (sextets bs) = (4 * length bs + 2) div 3"
  by (induction bs rule: sextets.induct) (simp_all add: Let_def)


section \<open>Properties\<close>

text \<open>C35. The key document is faithful: the modulus and the exponent of the published key decode to the
  numbers of the private key's public half, whatever their size, and the key id is the first 16
  characters of a SHA-256 thumbprint of 32 bytes, all of them safe in a URL.\<close>

theorem key_document_roundtrip:
  assumes "new_key_manager lib pem_content file = Inr km"
    and "\<And>der. length (sha256_digest lib der) = 32"
  shows "\<exists>key. km = key_manager_of lib key \<and> jwk_of lib key (km_jwk km) \<and>
    dget (km_jwk km) ''kid'' = Some (JStr (km_kid km)) \<and> length (km_kid km) = 16 \<and>
    set (km_kid km) \<subseteq> set b64_alphabet"
proof -
  obtain key where key: "km = key_manager_of lib key"
    using assms(1) by (auto simp: new_key_manager_def split: option.splits)
  let ?s = "sextets (sha256_digest lib (public_der lib key))"
  have kid: "km_kid km = map b64_char (take 16 ?s)" by (simp add: key key_manager_of_def Let_def b64url_sextets take_map)
  have "length ?s = 43" using assms(2) by (simp add: sextets_length)
  then have "length (km_kid km) = 16" by (simp add: kid)
  moreover have "length b64_alphabet = 64" by (simp add: b64_alphabet_def)
  then have "b64_char i \<in> set b64_alphabet" if "i < 64" for i
    unfolding b64_char_def using that by (intro nth_mem) simp
  then have "set (km_kid km) \<subseteq> set b64_alphabet"
    using sextets_bound [of "sha256_digest lib (public_der lib key)"] by (auto simp: kid list_all_iff dest: in_set_takeD)
  ultimately show ?thesis using key key_manager_jwk [of lib key] by auto
qed

definition demo_key_library :: "nat key_library" where
  "demo_key_library =
     \<lparr>load_pem_private_key = (\<lambda>bs. Some (length bs)), public_der = (\<lambda>k. [word_of_nat k]),
      sha256_digest = (\<lambda>bs. replicate 32 7), private_pkcs8 = (\<lambda>k. replicate k (CHR ''k'')),
      public_n = (\<lambda>k. k), public_e = (\<lambda>k. 65537)\<rparr>"

theorem key_document_roundtrip_witness:
  "\<exists>km. new_key_manager demo_key_library (Some ''pem'') None = Inr km \<and> length (km_kid km) = 16"
proof -
  obtain km where km: "new_key_manager demo_key_library (Some ''pem'') None = Inr km"
    by (simp add: new_key_manager_def demo_key_library_def)
  have "\<And>der. length (sha256_digest demo_key_library der) = 32" by (simp add: demo_key_library_def)
  from key_document_roundtrip [OF km this] km show ?thesis by auto
qed

text \<open>C34. What the identity service signs at login, every service verifies: with the JOSE library behaving as
  documented, a service that fetches the key document now, or has the key in a fresh cache, accepts the
  access token until it expires and obtains the principal of the account that logged in, with its tenant
  and roles.\<close>

theorem signed_token_verifies:
  assumes "jose_laws lib encode get_header decode t"
    and "km = key_manager_of lib key"
    and "login cr now raw d s = (s', Inr (Some pair))"
    and "t < (now + 900000000) div 1000000"
    and "needs_fetch t1 (JStr (km_kid km)) c \<or>
      map_of (cache_keys c) (JStr (km_kid km)) = Some (JObj (km_jwk km)) \<and> t1 - fetched_at c \<le> cache_ttl c"
  shows "\<exists>u \<in> set (users s). us_email u = lr_email d \<and>
    (\<exists>c'. verify get_header decode ''rcp-iam'' ''rcp-services'' (Body (route_jwks km)) t1 t2
        (sign_access_token encode km (tp_access_token pair)) c =
      (c', Inr \<lparr>p_user_id = us_id u,
                p_tenant_id = (case us_assigned_tenant_id u of Some x \<Rightarrow> Some x | None \<Rightarrow> us_tenant_id u),
                p_user_type = JStr (user_type_value (us_user_type u)), p_roles = map JStr (roles u)\<rparr>))"
proof -
  obtain u where u: "u \<in> set (users s)" "us_email u = lr_email d" "issue_pair cr now raw u None s = (s', Inr (Some pair))"
    using assms(3) by (cases rule: login_cases) auto
  have claims: "dget (tp_access_token pair) ''iss'' = Some (JStr ''rcp-iam'')"
    "dget (tp_access_token pair) ''aud'' = Some (JStr ''rcp-services'')"
    "dget (tp_access_token pair) ''exp'' = Some (JInt ((now + 900000000) div 1000000))"
    using u(3) by (cases rule: issue_pair_cases; simp add: create_access_token_def ACCESS_TOKEN_TTL_MINUTES_def)+
  let ?token = "sign_access_token encode km (tp_access_token pair)"
  have "get_header ?token = Some [(''alg'', JStr ''RS256''), (''typ'', JStr ''JWT''), (''kid'', JStr (km_kid km))]"
    using assms(1) by (simp add: jose_laws_def sign_access_token_def)
  moreover have "km_private_pem km = private_pkcs8 lib key" by (simp add: assms(2) key_manager_of_def Let_def)
  then have "decode ?token (JObj (km_jwk km)) ''rcp-iam'' ''rcp-services'' = Some (tp_access_token pair)"
    using assms(1) key_manager_jwk [of lib key] claims assms(4) by (simp add: jose_laws_def sign_access_token_def assms(2))
  moreover obtain c' where "get_key (Body (route_jwks km)) t1 t2 (JStr (km_kid km)) c = (c', Inr (Some (JObj (km_jwk km))))"
    using get_key_jwks [OF assms(2,5)] by blast
  ultimately have "verify get_header decode ''rcp-iam'' ''rcp-services'' (Body (route_jwks km)) t1 t2 ?token c =
      (c', principal_of (tp_access_token pair))"
    by (simp add: verify_def dget_default_def)
  then show ?thesis using u pair_principal(2) [OF u(3)] by auto
qed

text \<open>A JOSE library for the witness: the token is a number that codes claims, key and headers.\<close>

type_synonym demo_token = "(string \<times> json) list \<times> string \<times> (string \<times> json) list"

definition demo_encode :: "(string \<times> json) list \<Rightarrow> string \<Rightarrow> (string \<times> json) list \<Rightarrow> string" where
  "demo_encode claims pem hs = replicate (to_nat (claims, pem, hs)) (CHR ''x'')"

definition demo_parts :: "string \<Rightarrow> demo_token" where
  "demo_parts token = from_nat (length token)"

definition demo_header :: "string \<Rightarrow> (string \<times> json) list option" where
  "demo_header token = Some ([(''alg'', JStr ''RS256''), (''typ'', JStr ''JWT'')] @ snd (snd (demo_parts token)))"

definition demo_decode :: "string \<Rightarrow> json \<Rightarrow> string \<Rightarrow> string \<Rightarrow> (string \<times> json) list option" where
  "demo_decode token key iss aud =
     (case (demo_parts token, key) of
        ((claims, pem, hs), JObj d) \<Rightarrow>
          (case dget d ''n'' of
             Some (JStr n) \<Rightarrow> if b64url_to_int n = Some (length pem) then Some claims else None
           | _ \<Rightarrow> None)
      | _ \<Rightarrow> None)"

lemma demo_jose: "jose_laws demo_key_library demo_encode demo_header demo_decode t"
  by (auto simp: jose_laws_def jwk_of_def demo_encode_def demo_header_def demo_decode_def demo_parts_def demo_key_library_def)

theorem signed_token_verifies_witness:
  "\<exists>s' pair c' p. login iam_demo_crypto 20 ''raw0'' iam_demo_login iam_demo_db = (s', Inr (Some pair)) \<and>
     verify demo_header demo_decode ''rcp-iam'' ''rcp-services'' (Body (route_jwks (key_manager_of demo_key_library 8)))
       700000000 700000000 (sign_access_token demo_encode (key_manager_of demo_key_library 8) (tp_access_token pair))
       (new_cache 600000000) = (c', Inr p)"
proof -
  have "(case login iam_demo_crypto 20 ''raw0'' iam_demo_login iam_demo_db of (s', Inr (Some pair)) \<Rightarrow> True | _ \<Rightarrow> False)"
    by code_simp
  then obtain s' pair where l: "login iam_demo_crypto 20 ''raw0'' iam_demo_login iam_demo_db = (s', Inr (Some pair))"
    by (auto split: prod.splits sum.splits option.splits)
  have "0 < (20 + 900000000) div (1000000 :: int)" by simp
  moreover have "needs_fetch 700000000 (JStr (km_kid (key_manager_of demo_key_library 8))) (new_cache 600000000)"
    by (simp add: needs_fetch_def new_cache_def)
  ultimately show ?thesis
    using signed_token_verifies [OF demo_jose refl l, where t = 0 and key = 8 and ?t1.0 = 700000000 and
      c = "new_cache 600000000" and ?t2.0 = 700000000] l by blast
qed

end
