(* ===== verification/Legacy_Volunteers.thy ===== *)
theory Legacy_Volunteers
  imports Logistics_Api Profiles
begin

text \<open>
  The volunteers of the logistics service (\<open>models/volunteer.py\<close>, \<open>find_available_volunteers\<close> of
  \<open>services/dispatch.py\<close>, the deprecated route of \<open>api/routes_volunteers.py\<close>). The tables have no writer:
  they are an argument of the query beside the database, and the lemmas hold whatever they contain.
\<close>

datatype availability_status = VOL_AVAILABLE | VOL_BUSY | VOL_OFFLINE

record lg_volunteer_profile =
  lv_id :: uuid
  lv_tenant_id :: uuid
  lv_user_id :: uuid
  lv_availability :: availability_status
  lv_area :: "string option"
  lv_latitude :: "pyfloat option"
  lv_longitude :: "pyfloat option"

record lg_volunteer_skill =
  vs_id :: uuid
  vs_volunteer_id :: uuid
  vs_skill :: string

definition skill_names :: "lg_volunteer_skill list \<Rightarrow> lg_volunteer_profile \<Rightarrow> string list" where
  "skill_names sk v = map vs_skill (filter (\<lambda>k. vs_volunteer_id k = lv_id v) sk)"

record found_volunteer =
  fv_profile_id :: uuid
  fv_user_id :: uuid
  fv_full_name :: "string option"
  fv_area :: "string option"
  fv_skills :: "string list"

text \<open>The statement of the query, clause by clause. The join with the skills gives a profile once per matching
  skill, which \<open>unique()\<close> reduces to its first occurrence; a comparison with a missing tenant is
  \<open>tenant_id IS NULL\<close>, which no row satisfies.\<close>

fun unique_by :: "('a \<Rightarrow> 'k) \<Rightarrow> 'k list \<Rightarrow> 'a list \<Rightarrow> 'a list" where
  "unique_by key seen [] = []"
| "unique_by key seen (x # xs) =
     (if key x \<in> set seen then unique_by key seen xs else x # unique_by key (key x # seen) xs)"

definition find_available_volunteers ::
  "lg_volunteer_profile list \<Rightarrow> lg_volunteer_skill list \<Rightarrow> uuid option \<Rightarrow> string option \<Rightarrow> string option \<Rightarrow>
   logistics_db \<Rightarrow> found_volunteer list" where
  "find_available_volunteers vs sk tenant_id skill area s =
     (let stmt = filter (\<lambda>v. Some (lv_tenant_id v) = tenant_id \<and> lv_availability v = VOL_AVAILABLE) vs;
          stmt = (if given skill then
                    concat (map (\<lambda>v. map (\<lambda>_. v) (filter (\<lambda>n. n = the skill) (skill_names sk v))) stmt)
                  else stmt);
          stmt = (if given area then
                    filter (\<lambda>v. case lv_area v of None \<Rightarrow> False | Some a \<Rightarrow> ilike a (contains_pattern (the area))) stmt
                  else stmt);
          found = unique_by lv_id [] stmt
      in map (\<lambda>v. \<lparr>fv_profile_id = lv_id v, fv_user_id = lv_user_id v,
                   fv_full_name = map_option ur_full_name (row_get ur_user_id (lv_user_id v) (replicas s)),
                   fv_area = lv_area v, fv_skills = skill_names sk v\<rparr>) found)"

definition route_find_volunteers ::
  "lg_volunteer_profile list \<Rightarrow> lg_volunteer_skill list \<Rightarrow> principal \<Rightarrow> string option \<Rightarrow> string option \<Rightarrow>
   logistics_db \<Rightarrow> http_error + found_volunteer list" where
  "route_find_volunteers vs sk p skill area s =
     andthen (require_any_role [''tenant_admin'', ''coordinator''] p)
       (\<lambda>p. Inr (find_available_volunteers vs sk (p_tenant_id p) skill area s))"

section \<open>What the query returns\<close>

text \<open>The reference reading of the parameters: the condition a listed profile meets.\<close>

definition wanted :: "lg_volunteer_skill list \<Rightarrow> uuid option \<Rightarrow> string option \<Rightarrow> string option \<Rightarrow> lg_volunteer_profile \<Rightarrow> bool" where
  "wanted sk tenant_id skill area v \<longleftrightarrow>
     Some (lv_tenant_id v) = tenant_id \<and> lv_availability v = VOL_AVAILABLE \<and>
     (given skill \<longrightarrow> the skill \<in> set (skill_names sk v)) \<and>
     (given area \<longrightarrow> (\<exists>a. lv_area v = Some a \<and> ilike a (contains_pattern (the area))))"

lemma unique_by_seen: "key ` set xs \<subseteq> set seen \<Longrightarrow> unique_by key seen (xs @ ys) = unique_by key seen ys"
  by (induction xs) auto

lemma unique_by_fresh:
  "distinct (map key xs) \<Longrightarrow> key ` set xs \<inter> set seen = {} \<Longrightarrow> unique_by key seen xs = xs"
  by (induction xs arbitrary: seen) auto

text \<open>Copies of one row next to each other count once: a join followed by \<open>unique()\<close> is a semijoin.\<close>

lemma unique_by_join:
  assumes "distinct (map key vs)" "key ` set vs \<inter> set seen = {}"
  shows "unique_by key seen (concat (map (\<lambda>v. map (\<lambda>_. v) (f v)) vs)) = filter (\<lambda>v. f v \<noteq> []) vs"
  using assms
proof (induction vs arbitrary: seen)
  case (Cons v vs)
  show ?case
  proof (cases "f v")
    case (Cons a as)
    have "unique_by key (key v # seen) (map (\<lambda>_. v) as @ concat (map (\<lambda>v. map (\<lambda>_. v) (f v)) vs)) =
        unique_by key (key v # seen) (concat (map (\<lambda>v. map (\<lambda>_. v) (f v)) vs))"
      by (rule unique_by_seen) auto
    with Cons Cons.IH [of "key v # seen"] Cons.prems show ?thesis by auto
  qed (use Cons in auto)
qed simp

lemma filter_join:
  "filter P (concat (map (\<lambda>v. map (\<lambda>_. v) (f v)) vs)) = concat (map (\<lambda>v. map (\<lambda>_. v) (f v)) (filter P vs))"
  by (induction vs) (auto simp: filter_map comp_def)

lemma distinct_key_filter: "distinct (map key xs) \<Longrightarrow> distinct (map key (filter P xs))"
  by (induction xs) auto

text \<open>The query lists exactly the wanted profiles, each once and in the order of the table, with the name of the
  replica.\<close>

lemma find_available_volunteers_eq:
  assumes "distinct (map lv_id vs)"
  shows "find_available_volunteers vs sk tenant_id skill area s =
    map (\<lambda>v. \<lparr>fv_profile_id = lv_id v, fv_user_id = lv_user_id v,
              fv_full_name = map_option ur_full_name (row_get ur_user_id (lv_user_id v) (replicas s)),
              fv_area = lv_area v, fv_skills = skill_names sk v\<rparr>) (filter (wanted sk tenant_id skill area) vs)"
proof -
  note dist = distinct_key_filter [OF assms]
  have "filter (\<lambda>n. n = k) ns \<noteq> [] \<longleftrightarrow> k \<in> set ns" for k and ns :: "string list"
    by (auto simp: filter_empty_conv)
  moreover have "(case x of None \<Rightarrow> False | Some a \<Rightarrow> P a) \<longleftrightarrow> (\<exists>a. x = Some a \<and> P a)" for x and P :: "string \<Rightarrow> bool"
    by (cases x) auto
  ultimately show ?thesis
    unfolding find_available_volunteers_def Let_def wanted_def
    by (auto simp: filter_join unique_by_join unique_by_fresh dist conj_ac intro!: filter_cong)
qed

text \<open>No volunteer of another tenant is listed, to whomever the route answers, and on the tables as the code
  leaves them, empty, the route answers every coordinator with the empty list.\<close>

theorem find_volunteers_of_own_tenant:
  assumes "distinct (map lv_id vs)" "route_find_volunteers vs sk p skill area s = Inr fs" "f \<in> set fs"
  shows "\<exists>v \<in> set vs. lv_id v = fv_profile_id f \<and> Some (lv_tenant_id v) = p_tenant_id p \<and> lv_availability v = VOL_AVAILABLE"
proof -
  from assms(2) have "fs = find_available_volunteers vs sk (p_tenant_id p) skill area s"
    by (auto simp: route_find_volunteers_def andthen_def require_any_role_def split: sum.splits if_splits)
  with assms(1,3) obtain v where "v \<in> set vs" "wanted sk (p_tenant_id p) skill area v" "lv_id v = fv_profile_id f"
    by (auto simp: find_available_volunteers_eq)
  then show ?thesis by (auto simp: wanted_def)
qed

theorem find_volunteers_unwritten:
  assumes "require_any_role [''tenant_admin'', ''coordinator''] p = Inr q"
  shows "route_find_volunteers [] [] p skill area s = Inr []"
  using assms by (simp add: route_find_volunteers_def find_available_volunteers_def andthen_def)

end
