(* ===== verification/Gateway.thy ===== *)
theory Gateway
  imports Py_Value
begin

text \<open>
  The API gateway (\<open>gateway/app\<close>): the routing table with longest-prefix resolution
  (\<open>core/config.py\<close>, \<open>proxy.py\<close>), forwarding without the hop-by-hop headers, and the token bucket that
  limits the requests of every client, in memory or in Redis (\<open>ratelimit.py\<close>).

  The HTTP client is a parameter: \<open>send\<close> gives the upstream's answer to a request, or \<open>None\<close> where httpx
  raises an \<open>HTTPError\<close>. Clock readings and token counts are exact rational numbers of seconds and
  tokens, where the code has floats; rounding is not modelled.
\<close>

section \<open>Settings and routing\<close>

record gateway_settings =
  IAM_URL :: string
  LOGISTICS_URL :: string
  ANALYTICS_URL :: string
  VOLUNTEER_URL :: string
  RTO_URL :: string
  RATE_LIMIT_RPS :: rat
  RATE_LIMIT_BURST :: int
  RATE_LIMIT_TRUST_FORWARDED :: bool

definition gateway_defaults :: gateway_settings where
  "gateway_defaults =
     \<lparr>IAM_URL = ''http://localhost:8001'', LOGISTICS_URL = ''http://localhost:8002'',
      ANALYTICS_URL = ''http://localhost:8003'', VOLUNTEER_URL = ''http://localhost:8004'',
      RTO_URL = ''http://localhost:8080'', RATE_LIMIT_RPS = 20, RATE_LIMIT_BURST = 60, RATE_LIMIT_TRUST_FORWARDED = False\<rparr>"

definition ROUTE_TABLE :: "gateway_settings \<Rightarrow> (string \<times> string) list" where
  "ROUTE_TABLE st =
     [(''/api/auth'', IAM_URL st), (''/api/admin'', IAM_URL st), (''/.well-known'', IAM_URL st),
      (''/api/requests'', LOGISTICS_URL st), (''/api/inventory'', LOGISTICS_URL st),
      (''/api/volunteers'', LOGISTICS_URL st), (''/api/reports'', ANALYTICS_URL st),
      (''/api/volunteer'', VOLUNTEER_URL st), (''/api/alerts'', LOGISTICS_URL st)]"

text \<open>\<open>max(matches, key=len)\<close>: the first of the longest.\<close>

fun longest :: "string \<Rightarrow> string list \<Rightarrow> string" where
  "longest best [] = best"
| "longest best (p # ps) = longest (if length best < length p then p else best) ps"

definition resolve_upstream :: "gateway_settings \<Rightarrow> string \<Rightarrow> string option" where
  "resolve_upstream st path =
     (case filter (\<lambda>prefix. path = prefix \<or> startswith path (prefix @ ''/'')) (map fst (ROUTE_TABLE st)) of
        [] \<Rightarrow> None
      | m # ms \<Rightarrow> dget (ROUTE_TABLE st) (longest m ms))"

section \<open>Forwarding\<close>

definition HOP_BY_HOP :: "string list" where
  "HOP_BY_HOP = [''connection'', ''keep-alive'', ''proxy-authenticate'', ''proxy-authorization'', ''te'',
     ''trailers'', ''transfer-encoding'', ''upgrade'', ''host'', ''content-length'']"

text \<open>\<open>d[k] = v\<close> on a dictionary kept in insertion order, and the dictionary a comprehension builds.\<close>

fun dict_set :: "'k \<Rightarrow> 'v \<Rightarrow> ('k \<times> 'v) list \<Rightarrow> ('k \<times> 'v) list" where
  "dict_set k v [] = [(k, v)]"
| "dict_set k v ((k', v') # d) = (if k' = k then (k, v) # d else (k', v') # dict_set k v d)"

definition dict_of :: "(string \<times> 'v) list \<Rightarrow> (string \<times> 'v) list" where
  "dict_of kvs = fold (\<lambda>(k, v) d. dict_set k v d) kvs []"

definition end_to_end :: "(string \<times> string) list \<Rightarrow> (string \<times> string) list" where
  "end_to_end headers = dict_of (filter (\<lambda>(k, v). lower k \<notin> set HOP_BY_HOP) headers)"

record gateway_request =
  rq_method :: string
  rq_path :: string
  rq_query :: string
  rq_headers :: "(string \<times> string) list"
  rq_body :: string
  rq_client_host :: "string option"
  rq_traceparent :: "string option"

record upstream_request =
  up_method :: string
  up_url :: string
  up_params :: "string option"
  up_headers :: "(string \<times> string) list"
  up_content :: string

record gateway_response =
  rs_status :: nat
  rs_headers :: "(string \<times> string) list"
  rs_content :: string
  rs_media_type :: "string option"

definition error_response :: "nat \<Rightarrow> string \<Rightarrow> gateway_response" where
  "error_response code message =
     \<lparr>rs_status = code, rs_headers = [], rs_content = message, rs_media_type = Some ''application/json''\<rparr>"

definition forward_headers :: "gateway_request \<Rightarrow> (string \<times> string) list" where
  "forward_headers rq =
     (let h = end_to_end (rq_headers rq);
          h1 = (case rq_traceparent rq of None \<Rightarrow> h | Some t \<Rightarrow> if t = [] then h else dict_set ''traceparent'' t h)
      in case rq_client_host rq of None \<Rightarrow> h1 | Some c \<Rightarrow> dict_set ''X-Forwarded-For'' c h1)"

definition upstream_request_of :: "string \<Rightarrow> gateway_request \<Rightarrow> upstream_request" where
  "upstream_request_of upstream rq =
     \<lparr>up_method = rq_method rq, up_url = upstream @ rq_path rq,
      up_params = (if rq_query rq = [] then None else Some (rq_query rq)),
      up_headers = forward_headers rq, up_content = rq_body rq\<rparr>"

definition forward ::
  "gateway_settings \<Rightarrow> (upstream_request \<Rightarrow> gateway_response option) \<Rightarrow> gateway_request \<Rightarrow> gateway_response" where
  "forward st send rq =
     (case resolve_upstream st (rq_path rq) of
        None \<Rightarrow> error_response 404 ''No route for path''
      | Some upstream \<Rightarrow>
          (case send (upstream_request_of upstream rq) of
             None \<Rightarrow> error_response 502 ''Upstream service unavailable''
           | Some r \<Rightarrow>
               \<lparr>rs_status = rs_status r, rs_headers = end_to_end (rs_headers r), rs_content = rs_content r,
                rs_media_type = dget (rs_headers r) ''content-type''\<rparr>))"

section \<open>Rate limiting\<close>

record bucket =
  bk_tokens :: rat
  bk_updated_at :: rat

text \<open>\<open>_allow\<close>: the clock is read before the lock is taken (\<open>now\<close>), and again by the constructor of a new
  bucket (\<open>now'\<close>).\<close>

definition allow ::
  "gateway_settings \<Rightarrow> rat \<Rightarrow> rat \<Rightarrow> string \<Rightarrow> (string \<rightharpoonup> bucket) \<Rightarrow> (string \<rightharpoonup> bucket) \<times> bool" where
  "allow st now now' client buckets =
     (let burst = of_int (RATE_LIMIT_BURST st);
          b = (case buckets client of None \<Rightarrow> \<lparr>bk_tokens = burst, bk_updated_at = now'\<rparr> | Some b \<Rightarrow> b);
          filled = min burst (bk_tokens b + (now - bk_updated_at b) * RATE_LIMIT_RPS st)
      in if filled < 1 then (buckets(client \<mapsto> \<lparr>bk_tokens = filled, bk_updated_at = now\<rparr>), False)
         else (buckets(client \<mapsto> \<lparr>bk_tokens = filled - 1, bk_updated_at = now\<rparr>), True))"

text \<open>The Lua script of \<open>_allow_redis\<close> on the hash of the client, \<open>None\<close> when the key does not exist;
  \<open>EXPIRE\<close> sets the time to live anew on every call.\<close>

definition EXPIRE_SECONDS :: rat where "EXPIRE_SECONDS = 120"

definition allow_redis :: "gateway_settings \<Rightarrow> rat \<Rightarrow> bucket option \<Rightarrow> bucket \<times> bool" where
  "allow_redis st now data =
     (let burst = of_int (RATE_LIMIT_BURST st);
          toks = (case data of None \<Rightarrow> burst | Some b \<Rightarrow> bk_tokens b);
          upd = (case data of None \<Rightarrow> now | Some b \<Rightarrow> bk_updated_at b);
          filled = min burst (toks + (now - upd) * RATE_LIMIT_RPS st)
      in if filled < 1 then (\<lparr>bk_tokens = filled, bk_updated_at = now\<rparr>, False)
         else (\<lparr>bk_tokens = filled - 1, bk_updated_at = now\<rparr>, True))"

definition client_key :: "gateway_settings \<Rightarrow> gateway_request \<Rightarrow> string" where
  "client_key st rq =
     (let forwarded = (if RATE_LIMIT_TRUST_FORWARDED st then dget_default (rq_headers rq) ''x-forwarded-for'' [] else [])
      in if forwarded \<noteq> [] then strip (takeWhile (\<lambda>c. c \<noteq> CHR '','') forwarded)
         else case rq_client_host rq of Some h \<Rightarrow> h | None \<Rightarrow> ''unknown'')"

text \<open>\<open>dispatch\<close> with the in-memory buckets, around the rest of the application, whose state \<open>call_next\<close>
  threads.\<close>

definition gw_dispatch ::
  "gateway_settings \<Rightarrow> rat \<Rightarrow> rat \<Rightarrow> (gateway_request \<Rightarrow> 's \<Rightarrow> 's \<times> gateway_response option) \<Rightarrow> gateway_request \<Rightarrow>
   (string \<rightharpoonup> bucket) \<times> 's \<Rightarrow> ((string \<rightharpoonup> bucket) \<times> 's) \<times> gateway_response option" where
  "gw_dispatch st now now' call_next rq bs_s =
     (case bs_s of (buckets, s) \<Rightarrow>
        if rq_path rq = ''/health'' then (case call_next rq s of (s', r) \<Rightarrow> ((buckets, s'), r))
        else (case allow st now now' (client_key st rq) buckets of
            (bs, False) \<Rightarrow> ((bs, s), Some (error_response 429 ''Too many requests''))
          | (bs, True) \<Rightarrow> (case call_next rq s of (s', r) \<Rightarrow> ((bs, s'), r))))"

end
