(* ===== verification/Gateway_Correct.thy ===== *)
theory Gateway_Correct
  imports Gateway
begin

text \<open>
  The correctness of the gateway: the routing table resolves to the longest matching prefix, forwarding
  drops the hop-by-hop headers and nothing else, the token bucket bounds what a client gets through in any
  window and never refuses a client below the rate, and the Redis script decides as the bucket in memory.
\<close>

section \<open>Routing\<close>

lemma longest_in: "longest best ps \<in> insert best (set ps)"
proof (induction best ps rule: longest.induct)
  case (2 best p ps)
  then show ?case by (cases "length best < length p") auto
qed simp

lemma longest_max: "q \<in> insert best (set ps) \<Longrightarrow> length q \<le> length (longest best ps)"
proof (induction best ps arbitrary: q rule: longest.induct)
  case (2 best p ps)
  show ?case
  proof (cases "q \<in> set ps")
    case True
    then show ?thesis using 2 by simp
  next
    case False
    then have "length q \<le> length (if length best < length p then p else best)" using 2(2) by auto
    also have "\<dots> \<le> length (longest best (p # ps))" using "2.IH" by simp
    finally show ?thesis .
  qed
qed simp

text \<open>A path lies under a prefix when it is the prefix or continues it at a slash.\<close>

definition under :: "string \<Rightarrow> string \<Rightarrow> bool" where
  "under path prefix \<longleftrightarrow> path = prefix \<or> (\<exists>rest. path = prefix @ ''/'' @ rest)"

lemma startswith_iff: "startswith s p \<longleftrightarrow> (\<exists>rest. s = p @ rest)"
  by (auto simp: startswith_def) (metis append_take_drop_id)

lemma under_iff: "under path prefix \<longleftrightarrow> path = prefix \<or> startswith path (prefix @ ''/'')"
  by (auto simp: under_def startswith_iff)

lemma under_prefix: "under path p \<Longrightarrow> under path q \<Longrightarrow> length p = length q \<Longrightarrow> p = q"
  by (auto simp: under_def)

text \<open>The upstream of a path is that of the longest prefix it lies under, if there is one.\<close>

lemma resolve_longest:
  "case resolve_upstream st path of
     None \<Rightarrow> \<forall>q \<in> fst ` set (ROUTE_TABLE st). \<not> under path q
   | Some u \<Rightarrow> \<exists>p. dget (ROUTE_TABLE st) p = Some u \<and> under path p \<and>
       (\<forall>q \<in> fst ` set (ROUTE_TABLE st). under path q \<longrightarrow> length q \<le> length p)"
proof -
  let ?ms = "filter (under path) (map fst (ROUTE_TABLE st))"
  have u: "(\<lambda>prefix. path = prefix \<or> startswith path (prefix @ ''/'')) = under path" by (auto simp: under_iff)
  have ms: "q \<in> set ?ms \<longleftrightarrow> q \<in> fst ` set (ROUTE_TABLE st) \<and> under path q" for q by auto
  show ?thesis
  proof (cases ?ms)
    case Nil
    then have "resolve_upstream st path = None" unfolding resolve_upstream_def u by simp
    moreover have "\<forall>q \<in> fst ` set (ROUTE_TABLE st). \<not> under path q" using ms unfolding Nil by simp
    ultimately show ?thesis by simp
  next
    case (Cons m ms')
    let ?p = "longest m ms'"
    have in_p: "?p \<in> fst ` set (ROUTE_TABLE st)" "under path ?p"
      using longest_in [of m ms'] ms [of ?p] unfolding Cons by auto
    have max: "\<forall>q \<in> fst ` set (ROUTE_TABLE st). under path q \<longrightarrow> length q \<le> length ?p"
      using longest_max [of _ m ms'] ms unfolding Cons by simp
    obtain up where "dget (ROUTE_TABLE st) ?p = Some up"
      using in_p(1) unfolding dget_def by (cases "map_of (ROUTE_TABLE st) ?p") (auto simp: map_of_eq_None_iff)
    moreover have "resolve_upstream st path = dget (ROUTE_TABLE st) ?p" unfolding resolve_upstream_def u Cons by simp
    ultimately show ?thesis using in_p(2) max by auto
  qed
qed

section \<open>Headers\<close>

lemma dict_set_get: "dget (dict_set k v d) k' = (if k' = k then Some v else dget d k')"
  by (induction k v d rule: dict_set.induct) auto

lemma dict_of_get: "dget (dict_of kvs) k = dget (rev kvs) k"
proof -
  have "dget (fold (\<lambda>(k, v) d. dict_set k v d) kvs d) k = (case dget (rev kvs) k of None \<Rightarrow> dget d k | Some v \<Rightarrow> Some v)" for d
  proof (induction kvs arbitrary: d)
    case Nil
    then show ?case by (simp add: dget_def)
  next
    case (Cons kv kvs)
    then show ?case by (cases kv) (auto simp: dict_set_get dget_append split: option.splits)
  qed
  from this [of "[]"] show ?thesis by (simp add: dict_of_def split: option.splits)
qed

lemma dget_filter_key: "dget (filter (\<lambda>(k, v). P k) kvs) k = (if P k then dget kvs k else None)"
  by (induction kvs) (auto simp: dget_def)

lemma end_to_end_get:
  "dget (end_to_end headers) k = (if lower k \<in> set HOP_BY_HOP then None else dget (rev headers) k)"
  by (simp add: end_to_end_def dict_of_get rev_filter dget_filter_key)

lemma forward_headers_get:
  "dget (forward_headers rq) k =
     (if k = ''X-Forwarded-For'' \<and> rq_client_host rq \<noteq> None then rq_client_host rq
      else if k = ''traceparent'' \<and> rq_traceparent rq \<notin> {None, Some []} then rq_traceparent rq
      else dget (end_to_end (rq_headers rq)) k)"
  by (auto simp: forward_headers_def Let_def dict_set_get split: option.splits)

section \<open>The token bucket\<close>

text \<open>A sequence of requests, each with its client and its clock readings; the decisions.\<close>

fun allow_all ::
  "gateway_settings \<Rightarrow> (string \<times> rat \<times> rat) list \<Rightarrow> (string \<rightharpoonup> bucket) \<Rightarrow> (string \<rightharpoonup> bucket) \<times> bool list" where
  "allow_all st [] bs = (bs, [])"
| "allow_all st ((client, now, now') # calls) bs =
     (case allow st now now' client bs of
        (bs1, ok) \<Rightarrow> (case allow_all st calls bs1 of (bs2, oks) \<Rightarrow> (bs2, ok # oks)))"

text \<open>How often a client was let through.\<close>

definition admitted :: "string \<Rightarrow> (string \<times> rat \<times> rat) list \<Rightarrow> bool list \<Rightarrow> nat" where
  "admitted client calls oks = length (filter (\<lambda>((c, _), ok). c = client \<and> ok) (zip calls oks))"

lemma admitted_simps [simp]:
  "admitted client [] oks = 0"
  "admitted client ((c, t) # calls) (ok # oks) = (if c = client \<and> ok then 1 else 0) + admitted client calls oks"
  by (auto simp: admitted_def)

text \<open>The clock never runs backwards.\<close>

fun in_order :: "rat \<Rightarrow> (string \<times> rat \<times> rat) list \<Rightarrow> bool" where
  "in_order t [] = True"
| "in_order t ((c, now, now') # calls) = (t \<le> now \<and> now \<le> now' \<and> in_order now calls)"

definition window_end :: "rat \<Rightarrow> (string \<times> rat \<times> rat) list \<Rightarrow> rat" where
  "window_end t calls = (if calls = [] then t else fst (snd (last calls)))"

lemma window_end_simps [simp]: "window_end t [] = t" "window_end t ((c, now, now') # calls) = window_end now calls"
  by (simp_all add: window_end_def)

lemma window_end_ge: "in_order t calls \<Longrightarrow> t \<le> window_end t calls"
proof (induction calls arbitrary: t)
  case (Cons call calls)
  obtain c now now' where "call = (c, now, now')" by (cases call)
  then show ?case using Cons.IH [of now] Cons.prems by auto
qed simp

text \<open>What the bucket of a client holds after the refill of a call.\<close>

definition refilled :: "gateway_settings \<Rightarrow> rat \<Rightarrow> rat \<Rightarrow> bucket option \<Rightarrow> rat" where
  "refilled st now now' ob = min (of_int (RATE_LIMIT_BURST st))
     (case ob of
        None \<Rightarrow> of_int (RATE_LIMIT_BURST st) + (now - now') * RATE_LIMIT_RPS st
      | Some b \<Rightarrow> bk_tokens b + (now - bk_updated_at b) * RATE_LIMIT_RPS st)"

lemma allow_eq:
  "allow st now now' client bs =
     (let filled = refilled st now now' (bs client); ok = (1 \<le> filled)
      in (bs(client \<mapsto> \<lparr>bk_tokens = (if ok then filled - 1 else filled), bk_updated_at = now\<rparr>), ok))"
  by (cases "bs client") (auto simp: allow_def refilled_def Let_def)

lemma refilled_le: "refilled st now now' ob \<le> of_int (RATE_LIMIT_BURST st)"
  by (simp add: refilled_def)

lemma refilled_flow: "refilled st now now' (Some b) \<le> bk_tokens b + (now - bk_updated_at b) * RATE_LIMIT_RPS st"
  by (simp add: refilled_def)

text \<open>From a bucket with \<open>x\<close> tokens at time \<open>t\<close>, a client gets at most \<open>x\<close> plus the rate times the elapsed
  time through: every admission takes one token out of what flows in.\<close>

lemma admitted_from_bucket:
  assumes "bs client = Some b" "in_order t calls" "0 \<le> RATE_LIMIT_RPS st" "bk_updated_at b \<le> t"
  shows "of_nat (admitted client calls (snd (allow_all st calls bs))) \<le>
    max 0 (bk_tokens b + (window_end t calls - bk_updated_at b) * RATE_LIMIT_RPS st)"
  using assms
proof (induction calls arbitrary: bs b t)
  case Nil
  then show ?case by simp
next
  case (Cons call calls)
  obtain c now now' where call: "call = (c, now, now')" by (cases call)
  let ?rate = "RATE_LIMIT_RPS st" and ?fin = "window_end now calls"
  let ?f = "refilled st now now' (bs c)"
  let ?b = "\<lparr>bk_tokens = (if 1 \<le> ?f then ?f - 1 else ?f), bk_updated_at = now\<rparr>"
  have o: "t \<le> now" "in_order now calls" using Cons.prems(2) by (auto simp: call)
  define bs1 where "bs1 = bs(c \<mapsto> ?b)"
  have adm: "admitted client (call # calls) (snd (allow_all st (call # calls) bs)) =
      (if c = client \<and> 1 \<le> ?f then 1 else 0) + admitted client calls (snd (allow_all st calls bs1))"
    by (simp add: call bs1_def allow_eq Let_def split: prod.splits)
  show ?case
  proof (cases "c = client")
    case False
    then have "bs1 client = Some b" using Cons.prems(1) by (simp add: bs1_def)
    from Cons.IH [of bs1 b now, OF this o(2) Cons.prems(3)] show ?thesis
      unfolding adm using False Cons.prems(4) o(1) by (simp add: call)
  next
    case True
    then have at: "bs1 client = Some ?b" by (simp add: bs1_def)
    have "?f \<le> bk_tokens b + (now - bk_updated_at b) * ?rate"
      using refilled_flow [of st now now' b] Cons.prems(1) True by simp
    moreover have "(?fin - bk_updated_at b) * ?rate = (now - bk_updated_at b) * ?rate + (?fin - now) * ?rate"
      by (simp add: algebra_simps)
    moreover have "0 \<le> (?fin - now) * ?rate" using window_end_ge [OF o(2)] Cons.prems(3) by simp
    moreover have "of_nat (admitted client calls (snd (allow_all st calls bs1))) \<le>
        max 0 (bk_tokens ?b + (?fin - now) * ?rate)"
      using Cons.IH [of bs1 ?b now, OF at o(2) Cons.prems(3)] by simp
    ultimately show ?thesis unfolding adm using True by (auto simp: call max_def split: if_splits)
  qed
qed

lemma admitted_in_window:
  assumes "in_order t calls" "0 \<le> RATE_LIMIT_RPS st" "0 \<le> RATE_LIMIT_BURST st"
  shows "of_nat (admitted client calls (snd (allow_all st calls bs))) \<le>
    of_int (RATE_LIMIT_BURST st) + (window_end t calls - t) * RATE_LIMIT_RPS st"
  using assms
proof (induction calls arbitrary: bs t)
  case Nil
  then show ?case by simp
next
  case (Cons call calls)
  obtain c now now' where call: "call = (c, now, now')" by (cases call)
  let ?rate = "RATE_LIMIT_RPS st" and ?fin = "window_end now calls"
  let ?f = "refilled st now now' (bs c)"
  let ?b = "\<lparr>bk_tokens = (if 1 \<le> ?f then ?f - 1 else ?f), bk_updated_at = now\<rparr>"
  have o: "t \<le> now" "in_order now calls" using Cons.prems(1) by (auto simp: call)
  define bs1 where "bs1 = bs(c \<mapsto> ?b)"
  have adm: "admitted client (call # calls) (snd (allow_all st (call # calls) bs)) =
      (if c = client \<and> 1 \<le> ?f then 1 else 0) + admitted client calls (snd (allow_all st calls bs1))"
    by (simp add: call bs1_def allow_eq Let_def split: prod.splits)
  have late: "(?fin - now) * ?rate \<le> (?fin - t) * ?rate" using o(1) Cons.prems(2) by (simp add: mult_right_mono)
  show ?case
  proof (cases "c = client")
    case False
    then show ?thesis
      unfolding adm using Cons.IH [OF o(2) Cons.prems(2,3), of bs1] late by (simp add: call)
  next
    case True
    then have at: "bs1 client = Some ?b" by (simp add: bs1_def)
    have "of_nat (admitted client calls (snd (allow_all st calls bs1))) \<le>
        max 0 (bk_tokens ?b + (?fin - now) * ?rate)"
      using admitted_from_bucket [of bs1 client ?b now calls st, OF at o(2) Cons.prems(2)] by simp
    moreover have "0 \<le> (?fin - now) * ?rate" using window_end_ge [OF o(2)] Cons.prems(2) by simp
    ultimately show ?thesis
      unfolding adm using True late refilled_le [of st now now' "bs c"] Cons.prems(3)
      by (auto simp: call max_def split: if_splits)
  qed
qed


text \<open>A client that keeps the distance of one refill between its requests is always let through.\<close>

fun paced :: "gateway_settings \<Rightarrow> string \<Rightarrow> rat \<Rightarrow> (string \<times> rat \<times> rat) list \<Rightarrow> bool" where
  "paced st client t [] = True"
| "paced st client t ((c, now, now') # calls) =
     (if c = client then 1 \<le> (now - t) * RATE_LIMIT_RPS st \<and> paced st client now calls else paced st client t calls)"

lemma paced_admitted:
  assumes "bs client = Some b" "0 \<le> bk_tokens b" "paced st client (bk_updated_at b) calls"
    and "1 \<le> RATE_LIMIT_BURST st"
  shows "admitted client calls (snd (allow_all st calls bs)) = length (filter (\<lambda>call. fst call = client) calls)"
  using assms(1-3)
proof (induction calls arbitrary: bs b)
  case Nil
  then show ?case by simp
next
  case (Cons call calls)
  obtain c now now' where call: "call = (c, now, now')" by (cases call)
  let ?f = "refilled st now now' (bs c)"
  let ?b = "\<lparr>bk_tokens = (if 1 \<le> ?f then ?f - 1 else ?f), bk_updated_at = now\<rparr>"
  define bs1 where "bs1 = bs(c \<mapsto> ?b)"
  have adm: "admitted client (call # calls) (snd (allow_all st (call # calls) bs)) =
      (if c = client \<and> 1 \<le> ?f then 1 else 0) + admitted client calls (snd (allow_all st calls bs1))"
    by (simp add: call bs1_def allow_eq Let_def split: prod.splits)
  show ?case
  proof (cases "c = client")
    case False
    then have "bs1 client = Some b" using Cons.prems(1) by (simp add: bs1_def)
    then show ?thesis unfolding adm using False Cons.IH [of bs1 b] Cons.prems(2,3) by (simp add: call)
  next
    case True
    have f: "1 \<le> ?f" using Cons.prems assms(4) True by (simp add: refilled_def call)
    moreover have "bs1 client = Some ?b" using True by (simp add: bs1_def)
    ultimately show ?thesis unfolding adm using Cons.IH [of bs1 ?b] Cons.prems(3) True by (simp add: call)
  qed
qed

section \<open>The Redis script\<close>

text \<open>A run of the script for one client: at each call the key may have expired, but not within 120
  seconds of the previous call.\<close>

fun redis_run :: "gateway_settings \<Rightarrow> (rat \<times> bool) list \<Rightarrow> bucket option \<Rightarrow> bool list" where
  "redis_run st [] data = []"
| "redis_run st ((now, expired) # calls) data =
     (case allow_redis st now (if expired then None else data) of (b, ok) \<Rightarrow> ok # redis_run st calls (Some b))"

fun expiry_ok :: "(rat \<times> bool) list \<Rightarrow> rat option \<Rightarrow> bool" where
  "expiry_ok [] last_call = True"
| "expiry_ok ((now, expired) # calls) last_call =
     ((expired \<longrightarrow> (case last_call of None \<Rightarrow> True | Some t \<Rightarrow> EXPIRE_SECONDS \<le> now - t)) \<and> expiry_ok calls (Some now))"

text \<open>An expired bucket would have been full.\<close>

lemma expired_full:
  assumes "0 \<le> bk_tokens b" "EXPIRE_SECONDS \<le> now - bk_updated_at b" "0 \<le> RATE_LIMIT_RPS st"
    and "of_int (RATE_LIMIT_BURST st) \<le> EXPIRE_SECONDS * RATE_LIMIT_RPS st"
  shows "allow_redis st now None = allow_redis st now (Some b)"
proof -
  have "EXPIRE_SECONDS * RATE_LIMIT_RPS st \<le> (now - bk_updated_at b) * RATE_LIMIT_RPS st"
    using assms(2,3) by (rule mult_right_mono)
  then have "of_int (RATE_LIMIT_BURST st) \<le> bk_tokens b + (now - bk_updated_at b) * RATE_LIMIT_RPS st"
    using assms(1,4) by linarith
  then show ?thesis by (simp add: allow_redis_def min_absorb1)
qed

lemma allow_redis_allow:
  "data = bs client \<Longrightarrow> (case bs client of None \<Rightarrow> now' = now | Some _ \<Rightarrow> True) \<Longrightarrow>
   allow st now now' client bs = (bs(client \<mapsto> fst (allow_redis st now data)), snd (allow_redis st now data))"
  by (cases "bs client") (auto simp: allow_def allow_redis_def Let_def)

lemma allow_redis_nonneg:
  assumes "case data of None \<Rightarrow> 0 \<le> RATE_LIMIT_BURST st | Some b \<Rightarrow> 0 \<le> bk_tokens b \<and> bk_updated_at b \<le> now"
    and "0 \<le> RATE_LIMIT_RPS st" "0 \<le> RATE_LIMIT_BURST st"
  shows "0 \<le> bk_tokens (fst (allow_redis st now data))" "bk_updated_at (fst (allow_redis st now data)) = now"
  using assms by (auto simp: allow_redis_def Let_def split: option.splits)

lemma redis_run_bucket:
  assumes "data = bs client" "expiry_ok calls (map_option bk_updated_at data)"
    and "in_order t (map (\<lambda>(now, e). (client, now, now)) calls)"
    and "case data of None \<Rightarrow> True | Some b \<Rightarrow> 0 \<le> bk_tokens b \<and> bk_updated_at b \<le> t"
    and rate: "0 \<le> RATE_LIMIT_RPS st" "0 \<le> RATE_LIMIT_BURST st"
      "of_int (RATE_LIMIT_BURST st) \<le> EXPIRE_SECONDS * RATE_LIMIT_RPS st"
  shows "redis_run st calls data = snd (allow_all st (map (\<lambda>(now, e). (client, now, now)) calls) bs)"
  using assms(1-4)
proof (induction calls arbitrary: data bs t)
  case Nil
  then show ?case by simp
next
  case (Cons call calls)
  obtain now e where call: "call = (now, e)" by (cases call)
  have o: "t \<le> now" "in_order now (map (\<lambda>(now, e). (client, now, now)) calls)" using Cons.prems(3) by (auto simp: call)
  have same: "allow_redis st now (if e then None else data) = allow_redis st now data"
  proof (cases data)
    case (Some b)
    then show ?thesis
      using expired_full [of b now st] Cons.prems(2,4) rate by (auto simp: call)
  qed simp
  obtain b ok where b: "allow_redis st now data = (b, ok)" by fastforce
  have nn: "0 \<le> bk_tokens b" "bk_updated_at b = now"
    using allow_redis_nonneg [where data = data and st = st and now = now] Cons.prems(4) o(1) rate(1,2) b by (auto split: option.splits)
  have "allow st now now client bs = (bs(client \<mapsto> b), ok)"
    using allow_redis_allow [where data = data and bs = bs and client = client and now = now and now' = now and st = st] Cons.prems(1) b by (auto split: option.splits)
  moreover have "redis_run st calls (Some b) =
      snd (allow_all st (map (\<lambda>(now, e). (client, now, now)) calls) (bs(client \<mapsto> b)))"
    using Cons.prems(2) o(2) nn by (intro Cons.IH [of _ _ now]) (auto simp: call)
  ultimately show ?case by (simp add: call same b split: prod.splits)
qed


section \<open>Properties\<close>

text \<open>C19. The rate limit holds in every window: over any sequence of requests in the order of the clock, from
  any state of the limiter and interleaved with other clients, a client gets at most the burst plus the
  rate times the length of the window through.\<close>

theorem rate_limit_bound:
  assumes "in_order t calls" "0 \<le> RATE_LIMIT_RPS st" "0 \<le> RATE_LIMIT_BURST st"
    and "allow_all st calls bs = (bs', oks)"
  shows "of_nat (admitted client calls oks) \<le>
    of_int (RATE_LIMIT_BURST st) + (window_end t calls - t) * RATE_LIMIT_RPS st"
  using admitted_in_window [OF assms(1-3), of client bs] assms(4) by simp

theorem rate_limit_bound_witness:
  "of_nat (admitted ''c'' (replicate 61 (''c'', 0, 0))
     (snd (allow_all gateway_defaults (replicate 61 (''c'', 0, 0)) (\<lambda>_. None)))) \<le> (60::rat)"
proof -
  obtain bs oks where a: "allow_all gateway_defaults (replicate 61 (''c'', 0, 0)) (\<lambda>_. None) = (bs, oks)" by fastforce
  have "in_order 0 (replicate n (''c'', 0, 0))" for n by (induction n) auto
  from rate_limit_bound [OF this _ _ a, of "''c''"]
  have "of_nat (admitted ''c'' (replicate 61 (''c'', 0, 0)) oks) \<le> (60::rat)"
    by (simp add: gateway_defaults_def window_end_def)
  then show ?thesis unfolding a by simp
qed

text \<open>A polite client is never refused: from its first admitted request on, a client whose requests keep
  the distance of one refill is let through every time, whatever the other clients do.\<close>

theorem paced_client_never_refused:
  assumes "bs client = Some b" "0 \<le> bk_tokens b" "paced st client (bk_updated_at b) calls" "1 \<le> RATE_LIMIT_BURST st"
    and "allow_all st calls bs = (bs', oks)"
  shows "admitted client calls oks = length (filter (\<lambda>call. fst call = client) calls)"
  using paced_admitted [of bs client b st calls, OF assms(1-4)] assms(5) by simp

theorem paced_client_never_refused_witness:
  "admitted ''c'' [(''c'', 1, 1), (''d'', 1, 1), (''c'', 2, 2)]
     (snd (allow_all gateway_defaults [(''c'', 1, 1), (''d'', 1, 1), (''c'', 2, 2)] [''c'' \<mapsto> \<lparr>bk_tokens = 0, bk_updated_at = 0\<rparr>])) = 2"
proof -
  let ?calls = "[(''c'', 1, 1), (''d'', 1, 1), (''c'', 2, 2)]"
  let ?bs = "[''c'' \<mapsto> \<lparr>bk_tokens = 0, bk_updated_at = 0\<rparr>]"
  obtain bs oks where a: "allow_all gateway_defaults ?calls ?bs = (bs, oks)" by fastforce
  have "paced gateway_defaults ''c'' 0 ?calls" by (simp add: gateway_defaults_def)
  then show ?thesis
    using paced_client_never_refused [of ?bs "''c''" "\<lparr>bk_tokens = 0, bk_updated_at = 0\<rparr>" gateway_defaults ?calls, OF _ _ _ _ a] a
    by (simp add: gateway_defaults_def)
qed

text \<open>The Redis script decides as the bucket in memory: for one client and the same clock, when a bucket
  refills within the 120 seconds after which its key expires (the settings fill 60 tokens in 3 seconds),
  both limiters give the same decisions, whether or not Redis has dropped the expired keys.\<close>

theorem redis_limiter_agrees:
  assumes "expiry_ok calls None" "in_order t (map (\<lambda>(now, e). (client, now, now)) calls)"
    and "0 \<le> RATE_LIMIT_RPS st" "0 \<le> RATE_LIMIT_BURST st"
    and "of_int (RATE_LIMIT_BURST st) \<le> EXPIRE_SECONDS * RATE_LIMIT_RPS st"
  shows "redis_run st calls None = snd (allow_all st (map (\<lambda>(now, e). (client, now, now)) calls) (\<lambda>_. None))"
  by (rule redis_run_bucket [OF _ _ assms(2) _ assms(3-5)]) (simp_all add: assms(1))

theorem redis_limiter_agrees_witness:
  "redis_run gateway_defaults [(0, False), (200, True)] None =
   snd (allow_all gateway_defaults [(''c'', 0, 0), (''c'', 200, 200)] (\<lambda>_. None))"
  using redis_limiter_agrees [of "[(0, False), (200, True)]" 0 "''c''" gateway_defaults]
  by (simp add: gateway_defaults_def EXPIRE_SECONDS_def)



end
