(* ===== verification/Observability.thy ===== *)
theory Observability
  imports Gateway_Correct "HOL-Library.Product_Lexorder"
begin

text \<open>
  What every process of the platform does around a request (\<open>packages/common/rcp_common\<close>): the metrics
  registry and its Prometheus rendering (\<open>metrics.py\<close>), the request-context middleware with the request
  and trace identifiers (\<open>middleware.py\<close>) and the JSON log line (\<open>logging.py\<close>).

  Headers are in the form ASGI gives them, with lower-case names. A duration is an exact rational number
  of seconds where the code has a float. \<open>uuid.uuid4().hex\<close> is an argument of the operation that draws it.
\<close>

section \<open>Numbers as text\<close>

text \<open>\<open>str(n)\<close>.\<close>

fun nat_str :: "nat \<Rightarrow> string" where
  "nat_str n = (if n < 10 then [char_of (48 + n)] else nat_str (n div 10) @ [char_of (48 + n mod 10)])"

declare nat_str.simps [simp del]

definition int_str :: "int \<Rightarrow> string" where
  "int_str i = (if i < 0 then CHR ''-'' # nat_str (nat (- i)) else nat_str (nat i))"

text \<open>Rounding to the nearest integer, ties to the even one; \<open>f''{x:.6f}''\<close>; \<open>str(round(x, 2))\<close>, the
  shortest decimal fraction, which has at least one place.\<close>

definition round_even :: "rat \<Rightarrow> int" where
  "round_even x = (let n = \<lfloor>x\<rfloor>; d = x - of_int n
     in if d < 1 / 2 then n else if d > 1 / 2 then n + 1 else if even n then n else n + 1)"

definition pad_zeros :: "nat \<Rightarrow> string \<Rightarrow> string" where
  "pad_zeros k s = replicate (k - length s) CHR ''0'' @ s"

definition fixed6 :: "rat \<Rightarrow> string" where
  "fixed6 x = (let n = round_even (\<bar>x\<bar> * 1000000)
     in (if x < 0 then ''-'' else []) @ int_str (n div 1000000) @ ''.'' @ pad_zeros 6 (int_str (n mod 1000000)))"

definition rounded2 :: "rat \<Rightarrow> string" where
  "rounded2 x = (let n = round_even (\<bar>x\<bar> * 100); r = n mod 100
     in (if x < 0 then ''-'' else []) @ int_str (n div 100) @ ''.'' @
        (if r mod 10 = 0 then int_str (r div 10) else pad_zeros 2 (int_str r)))"

section \<open>The metrics registry\<close>

type_synonym series = "string \<times> string \<times> string \<times> nat"

record request_stats =
  mt_count :: nat
  mt_duration_sum :: rat

type_synonym registry = "(series \<times> request_stats) list"

definition no_stats :: request_stats where
  "no_stats = \<lparr>mt_count = 0, mt_duration_sum = 0\<rparr>"

text \<open>\<open>_REQUESTS\<close> is a \<open>defaultdict\<close>: a missing series starts with \<open>_RequestStats()\<close>.\<close>

definition record_http_request :: "string \<Rightarrow> string \<Rightarrow> string \<Rightarrow> nat \<Rightarrow> rat \<Rightarrow> registry \<Rightarrow> registry" where
  "record_http_request service method path status_code duration_seconds requests =
     (let key = (service, method, path, status_code);
          stats = (case map_of requests key of None \<Rightarrow> no_stats | Some s \<Rightarrow> s)
      in dict_set key (stats\<lparr>mt_count := mt_count stats + 1,
                             mt_duration_sum := mt_duration_sum stats + duration_seconds\<rparr>) requests)"

definition quoted :: "string \<Rightarrow> string" where
  "quoted s = CHR 0x22 # s @ [CHR 0x22]"

definition series_labels :: "series \<Rightarrow> string" where
  "series_labels k = (case k of (svc, method, path, status_code) \<Rightarrow>
     ''service='' @ quoted svc @ '',method='' @ quoted method @ '',path='' @ quoted path @
     '',status='' @ quoted (nat_str status_code))"

definition series_lines :: "series \<times> request_stats \<Rightarrow> string list" where
  "series_lines = (\<lambda>(k, stats).
     [''rcp_requests_total{'' @ series_labels k @ ''} '' @ nat_str (mt_count stats),
      ''rcp_request_duration_seconds_total{'' @ series_labels k @ ''} '' @ fixed6 (mt_duration_sum stats)])"

definition metric_header :: "string list" where
  "metric_header =
     [''# HELP rcp_requests_total Total HTTP requests handled.'',
      ''# TYPE rcp_requests_total counter'',
      ''# HELP rcp_request_duration_seconds_total Total request duration in seconds.'',
      ''# TYPE rcp_request_duration_seconds_total counter'']"

definition connection_lines :: "string \<Rightarrow> int \<Rightarrow> string list" where
  "connection_lines service n =
     [''# HELP rcp_database_connections Number of currently checked-out DB connections.'',
      ''# TYPE rcp_database_connections gauge'',
      ''rcp_database_connections{service='' @ quoted service @ ''} '' @ int_str n]"

definition join_lines :: "string list \<Rightarrow> string" where
  "join_lines ls = concat (map (\<lambda>l. l @ [CHR 0x0A]) ls)"

text \<open>\<open>sorted(_REQUESTS.items())\<close> compares the keys, which are distinct, as tuples.\<close>

definition render_prometheus_metrics :: "string \<Rightarrow> int option \<Rightarrow> registry \<Rightarrow> string" where
  "render_prometheus_metrics service database_connections requests =
     join_lines (metric_header @
       concat (map series_lines (filter (\<lambda>(k, _). fst k = service) (sort_key fst requests))) @
       (case database_connections of None \<Rightarrow> [] | Some n \<Rightarrow> connection_lines service n))"

text \<open>The reference: the requests handled so far, each with its series and its duration; the registry
  they leave; the text a scrape of the whole history would give.\<close>

type_synonym observation = "series \<times> rat"

definition observe :: "observation \<Rightarrow> registry \<Rightarrow> registry" where
  "observe = (\<lambda>((svc, method, path, status_code), d). record_http_request svc method path status_code d)"

definition history_stats :: "observation list \<Rightarrow> series \<Rightarrow> request_stats" where
  "history_stats hist k = \<lparr>mt_count = row_count (\<lambda>r. fst r = k) hist,
     mt_duration_sum = sum_list (map snd (filter (\<lambda>r. fst r = k) hist))\<rparr>"

definition history_lines :: "string \<Rightarrow> observation list \<Rightarrow> string list" where
  "history_lines service hist =
     concat (map (\<lambda>k. series_lines (k, history_stats hist k))
       (sorted_set (filter (\<lambda>k. fst k = service) (map fst hist))))"

section \<open>Facts about the registry\<close>

lemma dict_set_map_of: "map_of (dict_set k v d) k' = (if k' = k then Some v else map_of d k')"
  by (induction k v d rule: dict_set.induct) auto

lemma dict_set_keys: "map fst (dict_set k v d) = (if k \<in> fst ` set d then map fst d else map fst d @ [k])"
  by (induction k v d rule: dict_set.induct) auto

lemma observe_def': "observe (k, d) r =
    dict_set k ((case map_of r k of None \<Rightarrow> no_stats | Some s \<Rightarrow> s)
      \<lparr>mt_count := mt_count (case map_of r k of None \<Rightarrow> no_stats | Some s \<Rightarrow> s) + 1,
       mt_duration_sum := mt_duration_sum (case map_of r k of None \<Rightarrow> no_stats | Some s \<Rightarrow> s) + d\<rparr>) r"
  by (cases k) (simp add: observe_def record_http_request_def Let_def)

lemma registry_history:
  fixes hist :: "observation list"
  defines "r \<equiv> fold observe hist []"
  shows "map_of r k = (if k \<in> fst ` set hist then Some (history_stats hist k) else None)"
    and "distinct (map fst r)" and "fst ` set r = fst ` set hist"
  unfolding r_def
proof (induction hist arbitrary: k rule: rev_induct)
  case (snoc ob hist)
  obtain k0 d where ob: "ob = (k0, d)" by (cases ob)
  { case 1
    have "filter (\<lambda>r. fst r = k0) hist = []" if "\<forall>x \<in> set hist. k0 \<noteq> fst x"
      using that by (auto simp: filter_empty_conv)
    then show ?case using snoc.IH(1)
      by (auto simp: ob observe_def' dict_set_map_of history_stats_def no_stats_def row_count_append
        row_count_0_iff image_iff) }
  { case 2
    show ?case using snoc.IH(2) by (auto simp: ob observe_def' dict_set_keys simp flip: set_map) }
  { case 3
    show ?case using snoc.IH(3)
      by (auto simp: ob observe_def' dict_set_keys simp flip: set_map) }
qed simp_all

text \<open>An association list with distinct keys, sorted, is the sorted keys with their values.\<close>

lemma sort_key_pairs: "sort_key fst (map (\<lambda>k. (k, f k)) ks) = map (\<lambda>k. (k, f k)) (sort ks)"
proof (induction ks)
  case (Cons k ks)
  have "insort_key fst (k, f k) (map (\<lambda>k. (k, f k)) ls) = map (\<lambda>k. (k, f k)) (insort k ls)" for ls
    by (induction ls) auto
  with Cons show ?case by simp
qed simp

lemma assoc_pairs:
  "distinct (map fst d) \<Longrightarrow> (\<And>k. k \<in> fst ` set d \<Longrightarrow> map_of d k = Some (f k)) \<Longrightarrow>
   d = map (\<lambda>k. (k, f k)) (map fst d)"
proof (induction d)
  case (Cons kv d)
  obtain k v where kv: "kv = (k, v)" by (cases kv)
  have "map_of d l = Some (f l)" if "l \<in> fst ` set d" for l
    using that Cons.prems(1) Cons.prems(2) [of l] by (auto simp: kv split: if_splits)
  then have "d = map (\<lambda>k. (k, f k)) (map fst d)" using Cons.IH Cons.prems(1) by (simp add: kv)
  moreover have "v = f k" using Cons.prems(2) [of k] by (simp add: kv)
  ultimately show ?case by (simp add: kv)
qed simp

lemma sort_key_registry:
  "sort_key fst (fold observe hist []) = map (\<lambda>k. (k, history_stats hist k)) (sorted_set (map fst hist))"
proof -
  let ?r = "fold observe hist []"
  have "?r = map (\<lambda>k. (k, history_stats hist k)) (map fst ?r)"
    using registry_history [of hist] by (intro assoc_pairs) simp_all
  then have "sort_key fst ?r = sort_key fst (map (\<lambda>k. (k, history_stats hist k)) (map fst ?r))"
    by (rule arg_cong)
  then have "sort_key fst ?r = map (\<lambda>k. (k, history_stats hist k)) (sort (map fst ?r))"
    by (simp only: sort_key_pairs)
  moreover have "sort (map fst ?r) = sorted_set (map fst hist)"
    using registry_history(2,3) [of hist] by (intro sorted_distinct_set_unique) simp_all
  ultimately show ?thesis by simp
qed

lemma filter_sorted_set: "filter P (sorted_set xs) = sorted_set (filter P xs)"
  by (intro sorted_distinct_set_unique) (simp_all add: sorted_wrt_filter)

lemma registry_series:
  "filter (\<lambda>(k, _). fst k = service) (sort_key fst (fold observe hist [])) =
   map (\<lambda>k. (k, history_stats hist k)) (sorted_set (filter (\<lambda>k. fst k = service) (map fst hist)))"
  unfolding sort_key_registry filter_sorted_set [symmetric] by (simp add: filter_map comp_def case_prod_beta)

section \<open>Log lines\<close>

text \<open>A record of the \<open>logging\<close> module: level, logger name, formatted message, the attributes given as
  \<open>extra\<close>, and the formatted exception.\<close>

record log_record =
  lr_level :: string
  lr_name :: string
  lr_message :: string
  lr_extra :: "(string \<times> string) list"
  lr_exc_info :: "string option"

text \<open>The payload \<open>JsonFormatter.format\<close> dumps; \<open>ts\<close> is the text of the current time.\<close>

definition log_payload :: "string \<Rightarrow> string \<Rightarrow> log_record \<Rightarrow> (string \<times> json) list" where
  "log_payload service ts r =
     [(''ts'', JStr ts), (''level'', JStr (lower (lr_level r))), (''service'', JStr service),
      (''logger'', JStr (lr_name r)), (''message'', JStr (lr_message r))] @
     (case dget (lr_extra r) ''request_id'' of
        None \<Rightarrow> [] | Some i \<Rightarrow> if i = [] then [] else [(''request_id'', JStr i)]) @
     (case lr_exc_info r of None \<Rightarrow> [] | Some e \<Rightarrow> [(''exc_info'', JStr e)])"

section \<open>The request context\<close>

definition REQUEST_ID_HEADER :: string where "REQUEST_ID_HEADER = ''X-Request-ID''"

definition TRACEPARENT_HEADER :: string where "TRACEPARENT_HEADER = ''traceparent''"

text \<open>\<open>headers.get(k)\<close>, and \<open>headers[k] = v\<close> of Starlette's mutable headers: the first entry of that name is
  replaced, further ones are dropped.\<close>

definition header_get :: "(string \<times> string) list \<Rightarrow> string \<Rightarrow> string option" where
  "header_get h k = dget h (lower k)"

fun header_put :: "string \<Rightarrow> string \<Rightarrow> (string \<times> string) list \<Rightarrow> (string \<times> string) list" where
  "header_put key v [] = [(key, v)]"
| "header_put key v ((k, w) # h) =
     (if k = key then (key, v) # filter (\<lambda>(k', _). k' \<noteq> key) h else (k, w) # header_put key v h)"

definition header_set :: "string \<Rightarrow> string \<Rightarrow> (string \<times> string) list \<Rightarrow> (string \<times> string) list" where
  "header_set k v h = header_put (lower k) v h"

text \<open>What one pass through the middleware draws and reads: the hexadecimal UUIDs for the request, the
  trace and the span, and the clock before the call, after it, and when the metrics are recorded.\<close>

record context_env =
  cx_request_hex :: string
  cx_trace_hex :: string
  cx_span_hex :: string
  cx_started :: rat
  cx_answered :: rat
  cx_recorded :: rat

definition parse_traceparent :: "context_env \<Rightarrow> string option \<Rightarrow> string \<times> string" where
  "parse_traceparent env value =
     (case value of
        None \<Rightarrow> (cx_trace_hex env, take 16 (cx_span_hex env))
      | Some v \<Rightarrow>
          (case split_on CHR ''-'' v of
             [version, trace, parent, flags] \<Rightarrow>
               if length trace = 32 \<and> length parent = 16 then (trace, take 16 (cx_span_hex env))
               else (cx_trace_hex env, take 16 (cx_span_hex env))
           | _ \<Rightarrow> (cx_trace_hex env, take 16 (cx_span_hex env))))"

definition context_request_id :: "context_env \<Rightarrow> gateway_request \<Rightarrow> string" where
  "context_request_id env rq =
     (case header_get (rq_headers rq) REQUEST_ID_HEADER of
        None \<Rightarrow> cx_request_hex env | Some i \<Rightarrow> if i = [] then cx_request_hex env else i)"

definition context_trace :: "context_env \<Rightarrow> gateway_request \<Rightarrow> string \<times> string" where
  "context_trace env rq = parse_traceparent env (header_get (rq_headers rq) TRACEPARENT_HEADER)"

definition traceparent_text :: "string \<times> string \<Rightarrow> string" where
  "traceparent_text = (\<lambda>(trace_id, span_id). ''00-'' @ trace_id @ ''-'' @ span_id @ ''-01'')"

text \<open>The request as the application sees it, with \<open>request.state.traceparent\<close> set; nothing reads the
  request id and the trace id that the code also stores there.\<close>

definition context_request :: "context_env \<Rightarrow> gateway_request \<Rightarrow> gateway_request" where
  "context_request env rq = rq\<lparr>rq_traceparent := Some (traceparent_text (context_trace env rq))\<rparr>"

definition access_record :: "context_env \<Rightarrow> gateway_request \<Rightarrow> nat \<Rightarrow> log_record" where
  "access_record env rq status =
     \<lparr>lr_level = ''INFO'', lr_name = ''rcp.access'',
      lr_message = rq_method rq @ '' '' @ rq_path rq @ '' -> '' @ nat_str status @ '' in '' @
        rounded2 ((cx_answered env - cx_started env) * 1000) @ ''ms'',
      lr_extra = [(''request_id'', context_request_id env rq), (''trace_id'', fst (context_trace env rq))],
      lr_exc_info = None\<rparr>"

record telemetry =
  tl_requests :: registry
  tl_log :: "log_record list"

text \<open>\<open>RequestContextMiddleware.dispatch\<close> around the rest of the application; \<open>None\<close> where \<open>call_next\<close>
  raises, and then the exception passes through.\<close>

definition context_dispatch ::
  "string \<Rightarrow> context_env \<Rightarrow> (gateway_request \<Rightarrow> 's \<Rightarrow> 's \<times> gateway_response option) \<Rightarrow> gateway_request \<Rightarrow>
   telemetry \<times> 's \<Rightarrow> (telemetry \<times> 's) \<times> gateway_response option" where
  "context_dispatch service env call_next rq tm_s =
     (case tm_s of (tm, s) \<Rightarrow>
      (case call_next (context_request env rq) s of
         (s', None) \<Rightarrow> ((tm, s'), None)
       | (s', Some r) \<Rightarrow>
           ((\<lparr>tl_requests = record_http_request service (rq_method rq) (rq_path rq) (rs_status r)
                (cx_recorded env - cx_started env) (tl_requests tm),
              tl_log = tl_log tm @ [access_record env rq (rs_status r)]\<rparr>, s'),
            Some (r\<lparr>rs_headers :=
              header_set TRACEPARENT_HEADER (traceparent_text (context_trace env rq))
                (header_set REQUEST_ID_HEADER (context_request_id env rq) (rs_headers r))\<rparr>))))"

text \<open>A request that an upstream answers: the server hands its application the lower-cased headers.\<close>

definition asgi_headers :: "(string \<times> string) list \<Rightarrow> (string \<times> string) list" where
  "asgi_headers h = map (\<lambda>(k, v). (lower k, v)) h"

definition arrives :: "string \<Rightarrow> upstream_request \<Rightarrow> gateway_request" where
  "arrives base up =
     \<lparr>rq_method = up_method up, rq_path = drop (length base) (up_url up),
      rq_query = (case up_params up of None \<Rightarrow> [] | Some q \<Rightarrow> q), rq_headers = asgi_headers (up_headers up),
      rq_body = up_content up, rq_client_host = None, rq_traceparent = None\<rparr>"

section \<open>Facts about the context\<close>

lemma header_put_get: "dget (header_put key v h) k = (if k = key then Some v else dget h k)"
proof (induction key v h rule: header_put.induct)
  case (2 key v k' w h)
  have "dget (filter (\<lambda>(k', _). k' \<noteq> key) h) k = (if k \<noteq> key then dget h k else None)"
    using dget_filter_key [of "\<lambda>k'. k' \<noteq> key" h k] by simp
  with 2 show ?case by auto
qed auto

lemma header_set_get: "header_get (header_set k v h) k' = (if lower k' = lower k then Some v else header_get h k')"
  by (simp add: header_get_def header_set_def header_put_get)

text \<open>A UUID in hexadecimal.\<close>

definition hex32 :: "string \<Rightarrow> bool" where
  "hex32 s \<longleftrightarrow> length s = 32 \<and> CHR ''-'' \<notin> set s"

definition drawn :: "context_env \<Rightarrow> bool" where
  "drawn env \<longleftrightarrow> hex32 (cx_request_hex env) \<and> hex32 (cx_trace_hex env) \<and> hex32 (cx_span_hex env)"

text \<open>A trace header of the shape the middleware accepts.\<close>

definition carries_trace :: "string \<Rightarrow> string \<Rightarrow> bool" where
  "carries_trace v trace =
     (case split_on CHR ''-'' v of
        [version, trace', parent, flags] \<Rightarrow> trace' = trace \<and> length trace = 32 \<and> length parent = 16
      | _ \<Rightarrow> False)"

lemma carries_traceD:
  "carries_trace v t \<Longrightarrow> \<exists>version parent flags. split_on CHR ''-'' v = [version, t, parent, flags] \<and>
     length t = 32 \<and> length parent = 16 \<and> CHR ''-'' \<notin> set t"
  using split_on_no_sep [of t "CHR ''-''" v] by (auto simp: carries_trace_def split: list.splits)

lemma parse_carried: "carries_trace v t \<Longrightarrow> parse_traceparent env (Some v) = (t, take 16 (cx_span_hex env))"
  by (auto dest!: carries_traceD simp: parse_traceparent_def)

lemma parse_fresh:
  assumes "\<And>v t. hv = Some v \<Longrightarrow> \<not> carries_trace v t"
  shows "parse_traceparent env hv = (cx_trace_hex env, take 16 (cx_span_hex env))"
proof (cases hv)
  case (Some v)
  then have "\<not> carries_trace v (split_on CHR ''-'' v ! 1)" using assms by simp
  with Some show ?thesis
    by (auto simp: parse_traceparent_def carries_trace_def split: list.splits)
qed (simp add: parse_traceparent_def)

lemma traceparent_carries:
  assumes "length t = 32" "CHR ''-'' \<notin> set t" "length s = 16" "CHR ''-'' \<notin> set s"
  shows "carries_trace (traceparent_text (t, s)) t"
proof -
  have "split_on CHR ''-'' (''00'' @ CHR ''-'' # t @ CHR ''-'' # s @ CHR ''-'' # ''01'') = [''00'', t, s, ''01'']"
    unfolding split_on_append using assms by (simp add: split_on_plain)
  then show ?thesis using assms by (simp add: traceparent_text_def carries_trace_def)
qed

lemma context_trace_carried:
  assumes "drawn env"
  shows "carries_trace (traceparent_text (context_trace env rq)) (fst (context_trace env rq))"
proof -
  let ?v = "header_get (rq_headers rq) TRACEPARENT_HEADER"
  have s: "length (take 16 (cx_span_hex env)) = 16" "CHR ''-'' \<notin> set (take 16 (cx_span_hex env))"
    using assms by (auto simp: drawn_def hex32_def dest: in_set_takeD)
  show ?thesis
  proof (cases "\<exists>v t. ?v = Some v \<and> carries_trace v t")
    case True
    then obtain v t where v: "?v = Some v" "carries_trace v t" by blast
    then show ?thesis
      using s carries_traceD [OF v(2)] by (auto simp: context_trace_def parse_carried intro!: traceparent_carries)
  next
    case False
    then have "context_trace env rq = (cx_trace_hex env, take 16 (cx_span_hex env))"
      unfolding context_trace_def by (intro parse_fresh) blast
    then show ?thesis
      using s assms by (auto simp: drawn_def hex32_def intro!: traceparent_carries)
  qed
qed

lemma asgi_get:
  "(\<And>k'. k' \<in> fst ` set h \<Longrightarrow> lower k' = k \<Longrightarrow> k' = k) \<Longrightarrow> lower k = k \<Longrightarrow> dget (asgi_headers h) k = dget h k"
  by (induction h) (auto simp: asgi_headers_def)

lemma end_to_end_keys: "fst ` set (end_to_end h) \<subseteq> fst ` set h"
proof
  fix k
  assume "k \<in> fst ` set (end_to_end h)"
  then have "dget (end_to_end h) k \<noteq> None" by (simp add: dget_def map_of_eq_None_iff)
  then have "dget (rev h) k \<noteq> None" by (auto simp: end_to_end_get split: if_splits)
  then show "k \<in> fst ` set h" by (simp add: dget_def map_of_eq_None_iff)
qed

lemma forward_headers_keys:
  "fst ` set (forward_headers rq) \<subseteq> fst ` set (rq_headers rq) \<union> {''traceparent'', ''X-Forwarded-For''}"
proof -
  have "fst ` set (dict_set k v d) = insert k (fst ` set d)" for k :: string and v :: string and d
    using arg_cong [OF dict_set_keys [of k v d], of set] by auto
  then show ?thesis
    using end_to_end_keys [of "rq_headers rq"] by (auto simp: forward_headers_def Let_def split: option.splits)
qed

text \<open>What the gateway forwards is what the upstream's application reads, but for the client address.\<close>

lemma arrives_get:
  assumes "lower k = k" "k \<noteq> ''x-forwarded-for''" "rq_headers rq = asgi_headers raw"
  shows "header_get (rq_headers (arrives u (upstream_request_of u rq))) k = dget (forward_headers rq) k"
proof -
  have xf: "lower ''X-Forwarded-For'' = ''x-forwarded-for''" by code_simp
  have lo: "lower k' = k'" if "k' \<in> fst ` set (rq_headers rq)" for k'
    using that assms(3) by (auto simp: asgi_headers_def)
  have tp: "lower ''traceparent'' = ''traceparent''" by code_simp
  have "k' = k" if "k' \<in> fst ` set (forward_headers rq)" "lower k' = k" for k'
  proof -
    have "k' \<in> fst ` set (rq_headers rq) \<or> k' = ''traceparent'' \<or> k' = ''X-Forwarded-For''"
      using that(1) forward_headers_keys [of rq] by blast
    then show ?thesis using xf lo tp that(2) assms(2) by metis
  qed
  then have "dget (asgi_headers (forward_headers rq)) k = dget (forward_headers rq) k"
    using assms(1) by (intro asgi_get) simp_all
  then show ?thesis using assms(1) by (simp add: header_get_def arrives_def upstream_request_of_def)
qed

section \<open>Properties\<close>

text \<open>A scrape shows the history: after any sequence of recorded requests, the rendered text has the
  header, then for every series of the service, in the order of the labels and once each, the number of
  its requests and the sum of their durations, then the connections; the requests of other services
  do not appear.\<close>

theorem metrics_render_history:
  "render_prometheus_metrics service conns (fold observe hist []) =
     join_lines (metric_header @ history_lines service hist @
       (case conns of None \<Rightarrow> [] | Some n \<Rightarrow> connection_lines service n))"
  by (simp add: render_prometheus_metrics_def registry_series history_lines_def comp_def)

text \<open>The last line of the access log, as the middleware writes it.\<close>

definition logged :: "telemetry \<Rightarrow> string \<Rightarrow> string option" where
  "logged tm k = (if tl_log tm = [] then None else dget (lr_extra (last (tl_log tm))) k)"

lemma context_dispatch_logged:
  assumes "context_dispatch service env app rq (tm, s) = ((tm', s'), Some r)"
  shows "logged tm' ''request_id'' = Some (context_request_id env rq)"
    "logged tm' ''trace_id'' = Some (fst (context_trace env rq))"
    "header_get (rs_headers r) TRACEPARENT_HEADER = Some (traceparent_text (context_trace env rq))"
    "header_get (rs_headers r) REQUEST_ID_HEADER = Some (context_request_id env rq)"
proof -
  have ne: "lower REQUEST_ID_HEADER \<noteq> lower TRACEPARENT_HEADER" by code_simp
  from assms show "logged tm' ''request_id'' = Some (context_request_id env rq)"
    "logged tm' ''trace_id'' = Some (fst (context_trace env rq))"
    "header_get (rs_headers r) TRACEPARENT_HEADER = Some (traceparent_text (context_trace env rq))"
    by (auto simp: context_dispatch_def logged_def access_record_def header_set_get
      split: prod.splits option.splits)
  from assms ne show "header_get (rs_headers r) REQUEST_ID_HEADER = Some (context_request_id env rq)"
    by (auto simp: context_dispatch_def header_set_get split: prod.splits option.splits)
qed

lemma forwarded_trace:
  assumes "rq_headers rq = asgi_headers raw"
  shows "header_get (rq_headers (arrives u (upstream_request_of u (context_request env rq)))) TRACEPARENT_HEADER =
      Some (traceparent_text (context_trace env rq))"
    and "header_get (rq_headers (arrives u (upstream_request_of u (context_request env rq)))) REQUEST_ID_HEADER =
      dget (rev (rq_headers rq)) ''x-request-id''"
proof -
  have l: "lower ''traceparent'' = ''traceparent''" "lower ''x-request-id'' = ''x-request-id''"
    "lower REQUEST_ID_HEADER = ''x-request-id''" "''x-request-id'' \<notin> set HOP_BY_HOP" by code_simp+
  have ne: "traceparent_text p \<noteq> []" for p by (cases p) (simp add: traceparent_text_def)
  let ?rq = "context_request env rq"
  have h: "rq_headers ?rq = asgi_headers raw" using assms by (simp add: context_request_def)
  have "dget (forward_headers ?rq) ''traceparent'' = Some (traceparent_text (context_trace env rq))"
    using ne by (simp add: forward_headers_get context_request_def)
  then show "header_get (rq_headers (arrives u (upstream_request_of u ?rq))) TRACEPARENT_HEADER =
      Some (traceparent_text (context_trace env rq))"
    using arrives_get [OF l(1) _ h, of u] by (simp add: TRACEPARENT_HEADER_def)
  have "header_get (rq_headers (arrives u (upstream_request_of u ?rq))) REQUEST_ID_HEADER =
      header_get (rq_headers (arrives u (upstream_request_of u ?rq))) ''x-request-id''"
    by (simp add: header_get_def l)
  also have "\<dots> = dget (forward_headers ?rq) ''x-request-id''"
    using arrives_get [OF l(2) _ h, of u] by simp
  also have "\<dots> = dget (rev (rq_headers rq)) ''x-request-id''"
    using l by (simp add: forward_headers_get end_to_end_get context_request_def)
  finally show "header_get (rq_headers (arrives u (upstream_request_of u ?rq))) REQUEST_ID_HEADER =
      dget (rev (rq_headers rq)) ''x-request-id''" .
qed



definition demo_draws :: "char \<Rightarrow> context_env" where
  "demo_draws c = \<lparr>cx_request_hex = replicate 32 c, cx_trace_hex = replicate 32 c, cx_span_hex = replicate 32 c,
     cx_started = 0, cx_answered = 1 / 8, cx_recorded = 1 / 8\<rparr>"

definition demo_traced :: gateway_request where
  "demo_traced = \<lparr>rq_method = ''GET'', rq_path = ''/api/reports/summary'', rq_query = [],
     rq_headers = [(''host'', ''x''), (''traceparent'', ''00-'' @ replicate 32 CHR ''e'' @ ''-'' @ replicate 16 CHR ''f'' @ ''-01'')],
     rq_body = [], rq_client_host = Some ''10.0.0.1'', rq_traceparent = None\<rparr>"

definition demo_answer :: gateway_response where
  "demo_answer = \<lparr>rs_status = 200, rs_headers = [(''content-type'', ''application/json'')], rs_content = ''{}'', rs_media_type = None\<rparr>"


text \<open>The access record carries the trace id, but the JSON line does not show it.\<close>

lemma access_line_drops_trace:
  "dget (lr_extra (access_record env rq status)) ''trace_id'' = Some (fst (context_trace env rq)) \<and>
   dget (log_payload service ts (access_record env rq status)) ''trace_id'' = None"
  by (simp add: log_payload_def access_record_def)

text \<open>A request whose path has a quotation mark renders a label value with the mark unescaped.\<close>

lemma metrics_path_unescaped:
  "series_labels (svc, method, ''/a'' @ [CHR 0x22], 404) =
     ''service='' @ quoted svc @ '',method='' @ quoted method @ '',path='' @
     [CHR 0x22, CHR ''/'', CHR ''a'', CHR 0x22, CHR 0x22] @ '',status='' @ quoted ''404''"
proof -
  have "nat_str 404 = ''404''" by code_simp
  then show ?thesis by (simp add: series_labels_def quoted_def)
qed

text \<open>A request that raises leaves no trace in the metrics and the log; neither does one the limiter refuses.\<close>

lemma unobserved_requests:
  "snd (call (context_request env rq) s) = None \<Longrightarrow>
     fst (fst (context_dispatch service env call rq (tm, s))) = tm"
  "rq_path rq \<noteq> ''/health'' \<Longrightarrow> \<not> snd (allow st now now' (client_key st rq) bs) \<Longrightarrow>
     gw_dispatch st now now' app rq (bs, x) =
       ((fst (allow st now now' (client_key st rq) bs), x), Some (error_response 429 ''Too many requests''))"
  by (auto simp: context_dispatch_def gw_dispatch_def split: prod.splits option.splits bool.splits)

end
