(* ===== verification/Operations.thy ===== *)
theory Operations
  imports Observability
begin

text \<open>
  Running the platform: the HTTP client the processes use for each other (\<open>packages/clients\<close>), the
  operational endpoints of the services (\<open>services/*/app/main.py\<close>), and the application of the gateway with
  its middleware (\<open>gateway/app/main.py\<close>).

  The network is a parameter: \<open>net\<close> answers a GET, with \<open>Inl\<close> and the text of the error where httpx raises
  an \<open>HTTPError\<close>. JSON serialisation is a parameter, \<open>dumps\<close> and \<open>loads\<close>, and so are the documentation
  routes FastAPI adds to every application (\<open>framework\<close>). CORS is third-party code around the whole.
\<close>

section \<open>The service client\<close>

record http_get =
  hg_url :: string
  hg_headers :: "(string \<times> string) list"
  hg_params :: "(string \<times> string) list option"
  hg_timeout :: rat

type_synonym network = "http_get \<Rightarrow> string + gateway_response"

text \<open>What a client call raises: an \<open>httpx.HTTPError\<close> with its text, or a Python error.\<close>

datatype client_error = HTTPError string | PyError py_error

record service_client =
  sc_base_url :: string
  sc_timeout :: rat

definition new_service_client :: "string \<Rightarrow> rat \<Rightarrow> service_client" where
  "new_service_client base_url timeout = \<lparr>sc_base_url = rstrip_char CHR ''/'' base_url, sc_timeout = timeout\<rparr>"

definition DEFAULT_TIMEOUT :: rat where "DEFAULT_TIMEOUT = 10"

definition client_headers :: "string option \<Rightarrow> (string \<times> string) list" where
  "client_headers bearer_token =
     (case bearer_token of None \<Rightarrow> [] | Some t \<Rightarrow> if t = [] then [] else [(''Authorization'', ''Bearer '' @ t)])"

definition client_get ::
  "network \<Rightarrow> service_client \<Rightarrow> string \<Rightarrow> string option \<Rightarrow> (string \<times> string) list \<Rightarrow> string + gateway_response" where
  "client_get net c path bearer_token params =
     net \<lparr>hg_url = sc_base_url c @ path, hg_headers = client_headers bearer_token,
          hg_params = (if params = [] then None else Some params), hg_timeout = sc_timeout c\<rparr>"

text \<open>\<open>response.json()\<close>: a JSONDecodeError, which is a ValueError, on other text.\<close>

definition response_json :: "(string \<Rightarrow> json option) \<Rightarrow> gateway_response \<Rightarrow> py_error + json" where
  "response_json loads r = (case loads (rs_content r) of None \<Rightarrow> Inl ValueError | Some v \<Rightarrow> Inr v)"

definition client_health ::
  "(string \<Rightarrow> json option) \<Rightarrow> network \<Rightarrow> service_client \<Rightarrow> py_error + (string \<times> json) list" where
  "client_health loads net c =
     (let first = client_get net c ''/readiness'' None [];
          answer = (case first of
             Inl e \<Rightarrow> Inl e
           | Inr r \<Rightarrow> if rs_status r = 404 then client_get net c ''/health'' None [] else Inr r)
      in case answer of
           Inl e \<Rightarrow> Inr [(''status'', JStr ''unreachable''), (''error'', JStr e)]
         | Inr r \<Rightarrow>
             andthen (if rs_status r = 200 then response_json loads r else Inr (JObj []))
               (\<lambda>body. case body of
                  JObj d \<Rightarrow> Inr [(''status'', dget_default d ''status'' (JStr ''degraded'')),
                                 (''http_status'', JInt (int (rs_status r)))]
                | _ \<Rightarrow> Inl AttributeError))"

text \<open>\<open>IAMClient.jwks\<close>: \<open>raise_for_status\<close> raises on every answer that is not a success.\<close>

definition client_jwks :: "(string \<Rightarrow> json option) \<Rightarrow> network \<Rightarrow> service_client \<Rightarrow> client_error + json" where
  "client_jwks loads net c =
     (case client_get net c ''/.well-known/jwks.json'' None [] of
        Inl e \<Rightarrow> Inl (HTTPError e)
      | Inr r \<Rightarrow>
          if 200 \<le> rs_status r \<and> rs_status r \<le> 299
          then (case response_json loads r of Inl e \<Rightarrow> Inl (PyError e) | Inr v \<Rightarrow> Inr v)
          else Inl (HTTPError (nat_str (rs_status r))))"

section \<open>The endpoints of a service\<close>

definition json_response :: "(json \<Rightarrow> string) \<Rightarrow> nat \<Rightarrow> json \<Rightarrow> gateway_response" where
  "json_response dumps code v =
     \<lparr>rs_status = code, rs_headers = [], rs_content = dumps v, rs_media_type = Some ''application/json''\<rparr>"

definition text_response :: "string \<Rightarrow> gateway_response" where
  "text_response t =
     \<lparr>rs_status = 200, rs_headers = [], rs_content = t, rs_media_type = Some ''text/plain; version=0.0.4''\<rparr>"

definition alive :: "string \<Rightarrow> json" where
  "alive service_name = JObj [(''status'', JStr ''ok''), (''service'', JStr service_name)]"

text \<open>\<open>readiness\<close>; \<open>database_ready\<close> is whether \<open>SELECT 1\<close> succeeds.\<close>

definition service_readiness :: "(json \<Rightarrow> string) \<Rightarrow> string \<Rightarrow> bool \<Rightarrow> gateway_response" where
  "service_readiness dumps service_name database_ready =
     (if database_ready
      then json_response dumps 200 (JObj [(''status'', JStr ''ok''), (''service'', JStr service_name),
             (''checks'', JObj [(''database'', JStr ''ok'')])])
      else json_response dumps 503 (JObj [(''status'', JStr ''degraded''), (''service'', JStr service_name),
             (''checks'', JObj [(''database'', JStr ''unavailable'')])]))"

text \<open>The four GET endpoints every service defines; \<open>checked_out\<close> is the gauge of the connection pool.\<close>

definition service_endpoint ::
  "(json \<Rightarrow> string) \<Rightarrow> string \<Rightarrow> bool \<Rightarrow> int \<Rightarrow> registry \<Rightarrow> string \<Rightarrow> gateway_response option" where
  "service_endpoint dumps service_name database_ready checked_out requests path =
     (if path = ''/health'' \<or> path = ''/liveness'' then Some (json_response dumps 200 (alive service_name))
      else if path = ''/metrics''
        then Some (text_response (render_prometheus_metrics service_name (Some checked_out) requests))
      else if path = ''/readiness'' then Some (service_readiness dumps service_name database_ready)
      else None)"

definition iam_endpoint :: "(json \<Rightarrow> string) \<Rightarrow> bool \<Rightarrow> int \<Rightarrow> registry \<Rightarrow> string \<Rightarrow> gateway_response option" where
  "iam_endpoint dumps = service_endpoint dumps ''iam-service''"

definition logistics_endpoint :: "(json \<Rightarrow> string) \<Rightarrow> bool \<Rightarrow> int \<Rightarrow> registry \<Rightarrow> string \<Rightarrow> gateway_response option" where
  "logistics_endpoint dumps = service_endpoint dumps ''logistics-service''"

definition analytics_endpoint :: "(json \<Rightarrow> string) \<Rightarrow> bool \<Rightarrow> int \<Rightarrow> registry \<Rightarrow> string \<Rightarrow> gateway_response option" where
  "analytics_endpoint dumps = service_endpoint dumps ''analytics-service''"

definition volunteer_endpoint :: "(json \<Rightarrow> string) \<Rightarrow> bool \<Rightarrow> int \<Rightarrow> registry \<Rightarrow> string \<Rightarrow> gateway_response option" where
  "volunteer_endpoint dumps = service_endpoint dumps ''volunteer-service''"

section \<open>The gateway application\<close>

definition GATEWAY_NAME :: string where "GATEWAY_NAME = ''api-gateway''"

definition service_clients :: "gateway_settings \<Rightarrow> (string \<times> service_client) list" where
  "service_clients st =
     map (\<lambda>(name, url). (name, new_service_client url DEFAULT_TIMEOUT))
       [(''iam'', IAM_URL st), (''logistics'', LOGISTICS_URL st), (''analytics'', ANALYTICS_URL st),
        (''volunteer'', VOLUNTEER_URL st), (''rto'', RTO_URL st)]"

text \<open>\<open>readiness\<close>: an exception of one client call is the exception of the gathered calls.\<close>

definition gateway_readiness :: "(string \<Rightarrow> json option) \<Rightarrow> network \<Rightarrow> gateway_settings \<Rightarrow> py_error + json" where
  "gateway_readiness loads net st =
     andthen (collect (\<lambda>(name, c). client_health loads net c) (service_clients st))
       (\<lambda>results.
          let statuses = zip (map fst (service_clients st)) results;
              overall = (if list_all (\<lambda>(_, s). dget s ''status'' = Some (JStr ''ok'')) statuses then ''ok'' else ''degraded'')
          in Inr (JObj [(''status'', JStr overall), (''services'', JObj (map (\<lambda>(n, s). (n, JObj s)) statuses))]))"

definition PROXY_METHODS :: "string list" where
  "PROXY_METHODS = [''GET'', ''POST'', ''PUT'', ''PATCH'', ''DELETE'', ''OPTIONS'', ''HEAD'']"

text \<open>Routing of the application: the documentation routes of the framework, the gateway's own GET
  endpoints, then the catch-all; a method no route takes is answered by 405. An exception of a handler
  is \<open>None\<close>.\<close>

definition gateway_app ::
  "(json \<Rightarrow> string) \<Rightarrow> (string \<Rightarrow> json option) \<Rightarrow> network \<Rightarrow> (gateway_request \<Rightarrow> gateway_response option) \<Rightarrow>
   (upstream_request \<Rightarrow> gateway_response option) \<Rightarrow> gateway_settings \<Rightarrow> registry \<Rightarrow> gateway_request \<Rightarrow>
   gateway_response option" where
  "gateway_app dumps loads net framework send st requests rq =
     (case framework rq of
        Some r \<Rightarrow> Some r
      | None \<Rightarrow>
          if rq_method rq = ''GET'' \<and> (rq_path rq = ''/health'' \<or> rq_path rq = ''/liveness'')
            then Some (json_response dumps 200 (alive GATEWAY_NAME))
          else if rq_method rq = ''GET'' \<and> rq_path rq = ''/metrics''
            then Some (text_response (render_prometheus_metrics GATEWAY_NAME None requests))
          else if rq_method rq = ''GET'' \<and> (rq_path rq = ''/readiness'' \<or> rq_path rq = ''/health/services'')
            then (case gateway_readiness loads net st of Inl e \<Rightarrow> None | Inr v \<Rightarrow> Some (json_response dumps 200 v))
          else if rq_method rq = ''GET'' \<and> rq_path rq = ''/routes''
            then Some (json_response dumps 200 (JObj (map (\<lambda>(p, u). (p, JStr u)) (ROUTE_TABLE st))))
          else if rq_method rq \<in> set PROXY_METHODS then Some (forward st send rq)
          else Some (error_response 405 ''Method Not Allowed''))"

text \<open>The middleware in the order it wraps the application: the limiter, then the request context.\<close>

definition gateway_handle ::
  "(json \<Rightarrow> string) \<Rightarrow> (string \<Rightarrow> json option) \<Rightarrow> network \<Rightarrow> (gateway_request \<Rightarrow> gateway_response option) \<Rightarrow>
   (upstream_request \<Rightarrow> gateway_response option) \<Rightarrow> gateway_settings \<Rightarrow> rat \<Rightarrow> rat \<Rightarrow> context_env \<Rightarrow>
   gateway_request \<Rightarrow> (string \<rightharpoonup> bucket) \<times> telemetry \<Rightarrow> ((string \<rightharpoonup> bucket) \<times> telemetry) \<times> gateway_response option" where
  "gateway_handle dumps loads net framework send st now now' env rq s =
     gw_dispatch st now now'
       (\<lambda>rq tm. case context_dispatch GATEWAY_NAME env
            (\<lambda>rq u. (u, gateway_app dumps loads net framework send st (tl_requests tm) rq)) rq (tm, ()) of
          ((tm', u), r) \<Rightarrow> (tm', r))
       rq s"

section \<open>Facts\<close>

text \<open>A Python service process: unreachable with an error text, or running with the state of its database,
  the gauge of its pool and its metrics; what a GET of \<open>/readiness\<close> gets from it.\<close>

datatype process = Down string | Up bool int registry

fun probe :: "(bool \<Rightarrow> int \<Rightarrow> registry \<Rightarrow> string \<Rightarrow> gateway_response option) \<Rightarrow> process \<Rightarrow> string + gateway_response" where
  "probe endpoint (Down e) = Inl e"
| "probe endpoint (Up db n reg) =
     (case endpoint db n reg ''/readiness'' of Some r \<Rightarrow> Inr r | None \<Rightarrow> Inr (error_response 404 ''Not Found''))"

fun ready :: "process \<Rightarrow> bool" where
  "ready (Down e) = False"
| "ready (Up db n reg) = db"

text \<open>How the gateway reports a process.\<close>

fun reported :: "process \<Rightarrow> (string \<times> json) list" where
  "reported (Down e) = [(''status'', JStr ''unreachable''), (''error'', JStr e)]"
| "reported (Up db n reg) = (if db then [(''status'', JStr ''ok''), (''http_status'', JInt 200)]
     else [(''status'', JStr ''degraded''), (''http_status'', JInt 503)])"

text \<open>The URL of \<open>path\<close> behind a base URL answers with \<open>a\<close>.\<close>

definition answers :: "network \<Rightarrow> string \<Rightarrow> string \<Rightarrow> string + gateway_response \<Rightarrow> bool" where
  "answers net base path a \<longleftrightarrow> (\<forall>req. hg_url req = rstrip_char CHR ''/'' base @ path \<longrightarrow> net req = a)"

definition json_laws :: "(json \<Rightarrow> string) \<Rightarrow> (string \<Rightarrow> json option) \<Rightarrow> bool" where
  "json_laws dumps loads \<longleftrightarrow> (\<forall>v. loads (dumps v) = Some v)"

lemma client_get_answers:
  "answers net base path a \<Longrightarrow> client_get net (new_service_client base t) path tok ps = a"
  by (simp add: answers_def client_get_def new_service_client_def)

lemma client_health_service:
  assumes "json_laws dumps loads" "answers net base ''/readiness'' (probe (service_endpoint dumps name) p)"
  shows "client_health loads net (new_service_client base t) = Inr (reported p)"
proof (cases p)
  case (Down e)
  then show ?thesis by (simp add: client_health_def client_get_answers [OF assms(2)])
next
  case (Up db n reg)
  then show ?thesis using assms(1)
    by (simp add: client_health_def client_get_answers [OF assms(2)] service_endpoint_def service_readiness_def
      json_response_def response_json_def json_laws_def Let_def)
qed

text \<open>Any upstream that answers \<open>/readiness\<close> by an object, or by another status than 200 and 404, or not at
  all, is reported; the others make the endpoint raise.\<close>

fun probe_report :: "(string \<Rightarrow> json option) \<Rightarrow> string + gateway_response \<Rightarrow> py_error + (string \<times> json) list" where
  "probe_report loads (Inl e) = Inr [(''status'', JStr ''unreachable''), (''error'', JStr e)]"
| "probe_report loads (Inr r) =
     (if rs_status r = 200
      then (case loads (rs_content r) of
              Some (JObj d) \<Rightarrow> Inr [(''status'', dget_default d ''status'' (JStr ''degraded'')), (''http_status'', JInt 200)]
            | Some _ \<Rightarrow> Inl AttributeError | None \<Rightarrow> Inl ValueError)
      else Inr [(''status'', JStr ''degraded''), (''http_status'', JInt (int (rs_status r)))])"

lemma client_health_report:
  assumes "answers net base ''/readiness'' a" "\<And>r. a = Inr r \<Longrightarrow> rs_status r \<noteq> 404"
  shows "client_health loads net (new_service_client base t) = probe_report loads a"
  using assms(2)
  by (cases a) (auto simp: client_health_def client_get_answers [OF assms(1)] response_json_def
    split: option.splits json.splits)

lemma reported_ok: "dget (reported p) ''status'' = Some (JStr ''ok'') \<longleftrightarrow> ready p"
  by (cases p) simp_all

section \<open>Properties\<close>

text \<open>C24. The readiness of the platform is the readiness of its parts: whatever the state of the four Python
  services, and whatever the real-time service answers short of a malformed body, the gateway's endpoint
  returns; it says \<open>ok\<close> exactly when every service is reachable with its database and the real-time service
  says \<open>ok\<close>; and it lists each service under its name, unreachable, degraded or ready as it is.\<close>

theorem gateway_readiness_aggregates:
  assumes "json_laws dumps loads"
    and "answers net (IAM_URL st) ''/readiness'' (probe (iam_endpoint dumps) iam)"
    and "answers net (LOGISTICS_URL st) ''/readiness'' (probe (logistics_endpoint dumps) logistics)"
    and "answers net (ANALYTICS_URL st) ''/readiness'' (probe (analytics_endpoint dumps) analytics)"
    and "answers net (VOLUNTEER_URL st) ''/readiness'' (probe (volunteer_endpoint dumps) volunteer)"
    and "answers net (RTO_URL st) ''/readiness'' rto" "\<And>r. rto = Inr r \<Longrightarrow> rs_status r \<noteq> 404"
    and "probe_report loads rto = Inr s"
  shows "gateway_readiness loads net st = Inr (JObj
    [(''status'', JStr (if ready iam \<and> ready logistics \<and> ready analytics \<and> ready volunteer \<and>
         dget s ''status'' = Some (JStr ''ok'') then ''ok'' else ''degraded'')),
     (''services'', JObj [(''iam'', JObj (reported iam)), (''logistics'', JObj (reported logistics)),
        (''analytics'', JObj (reported analytics)), (''volunteer'', JObj (reported volunteer)), (''rto'', JObj s)])])"
  using client_health_service [OF assms(1) assms(2) [unfolded iam_endpoint_def]]
    client_health_service [OF assms(1) assms(3) [unfolded logistics_endpoint_def]]
    client_health_service [OF assms(1) assms(4) [unfolded analytics_endpoint_def]]
    client_health_service [OF assms(1) assms(5) [unfolded volunteer_endpoint_def]]
    client_health_report [OF assms(6,7), where loads = loads] assms(8)
  by (simp add: gateway_readiness_def service_clients_def reported_ok)

definition demo_dumps :: "json \<Rightarrow> string" where
  "demo_dumps v = replicate (to_nat v) CHR ''x''"

definition demo_loads :: "string \<Rightarrow> json option" where
  "demo_loads s = Some (from_nat (length s))"

definition demo_net :: network where
  "demo_net req =
     (if hg_url req = ''http://localhost:8001/readiness'' then probe (iam_endpoint demo_dumps) (Up True 1 [])
      else if hg_url req = ''http://localhost:8002/readiness'' then probe (logistics_endpoint demo_dumps) (Up False 1 [])
      else if hg_url req = ''http://localhost:8003/readiness'' then probe (analytics_endpoint demo_dumps) (Up True 0 [])
      else if hg_url req = ''http://localhost:8004/readiness'' then probe (volunteer_endpoint demo_dumps) (Up True 0 [])
      else Inl ''refused'')"

theorem gateway_readiness_aggregates_witness:
  "gateway_readiness demo_loads demo_net gateway_defaults = Inr (JObj
    [(''status'', JStr ''degraded''),
     (''services'', JObj [(''iam'', JObj (reported (Up True 1 []))), (''logistics'', JObj (reported (Up False 1 []))),
        (''analytics'', JObj (reported (Up True 0 []))), (''volunteer'', JObj (reported (Up True 0 []))),
        (''rto'', JObj [(''status'', JStr ''unreachable''), (''error'', JStr ''refused'')])])])"
proof -
  have laws: "json_laws demo_dumps demo_loads" by (simp add: json_laws_def demo_dumps_def demo_loads_def)
  have a: "answers demo_net (IAM_URL gateway_defaults) ''/readiness'' (probe (iam_endpoint demo_dumps) (Up True 1 []))"
    "answers demo_net (LOGISTICS_URL gateway_defaults) ''/readiness'' (probe (logistics_endpoint demo_dumps) (Up False 1 []))"
    "answers demo_net (ANALYTICS_URL gateway_defaults) ''/readiness'' (probe (analytics_endpoint demo_dumps) (Up True 0 []))"
    "answers demo_net (VOLUNTEER_URL gateway_defaults) ''/readiness'' (probe (volunteer_endpoint demo_dumps) (Up True 0 []))"
    "answers demo_net (RTO_URL gateway_defaults) ''/readiness'' (Inl ''refused'')"
    by (simp_all add: answers_def demo_net_def gateway_defaults_def rstrip_char_def)
  show ?thesis
    using gateway_readiness_aggregates [OF laws a, of "[(''status'', JStr ''unreachable''), (''error'', JStr ''refused'')]"]
    by simp
qed

text \<open>A service that answers 200 with something that is no JSON makes the endpoint raise, a 500, where an
  unreachable one is reported.\<close>

lemma readiness_raises_on_malformed_body:
  assumes "answers net (IAM_URL st) ''/readiness'' (Inr r)" "rs_status r = 200" "loads (rs_content r) = None"
  shows "gateway_readiness loads net st = Inl ValueError"
  using client_health_report [OF assms(1), where loads = loads] assms(2,3)
  by (simp add: gateway_readiness_def service_clients_def)

section \<open>Accounting for requests\<close>

text \<open>A sequence of requests, each with its clock readings and draws, through the whole gateway.\<close>

fun gateway_run ::
  "(rat \<Rightarrow> rat \<Rightarrow> context_env \<Rightarrow> gateway_request \<Rightarrow> 's \<Rightarrow> 's \<times> gateway_response option) \<Rightarrow>
   (rat \<times> rat \<times> context_env \<times> gateway_request) list \<Rightarrow> 's \<Rightarrow> 's \<times> gateway_response option list" where
  "gateway_run handle [] s = (s, [])"
| "gateway_run handle ((now, now', env, rq) # calls) s =
     (case handle now now' env rq s of
        (s1, r) \<Rightarrow> (case gateway_run handle calls s1 of (s2, rs) \<Rightarrow> (s2, r # rs)))"

text \<open>The requests the registry counts; the responses that name their request.\<close>

definition counted :: "registry \<Rightarrow> nat" where
  "counted reg = sum_list (map (mt_count \<circ> snd) reg)"

definition identified :: "gateway_response option \<Rightarrow> bool" where
  "identified r = (case r of None \<Rightarrow> False | Some r \<Rightarrow> header_get (rs_headers r) REQUEST_ID_HEADER \<noteq> None)"

lemma counted_dict_set:
  "counted (dict_set k v reg) + (case map_of reg k of None \<Rightarrow> 0 | Some w \<Rightarrow> mt_count w) = counted reg + mt_count v"
  by (induction k v reg rule: dict_set.induct) (auto simp: counted_def split: option.splits)

lemma counted_record: "counted (record_http_request svc m p code d reg) = Suc (counted reg)"
  using counted_dict_set [of "(svc, m, p, code)"
      "(case map_of reg (svc, m, p, code) of None \<Rightarrow> no_stats | Some s \<Rightarrow> s)
         \<lparr>mt_count := mt_count (case map_of reg (svc, m, p, code) of None \<Rightarrow> no_stats | Some s \<Rightarrow> s) + 1,
          mt_duration_sum := mt_duration_sum (case map_of reg (svc, m, p, code) of None \<Rightarrow> no_stats | Some s \<Rightarrow> s) + d\<rparr>" reg]
  by (auto simp: record_http_request_def Let_def no_stats_def split: option.splits)

lemma gateway_handle_counts:
  assumes "gateway_handle dumps loads net framework send st now now' env rq (bs, tm) = ((bs', tm'), r)"
  shows "counted (tl_requests tm') = counted (tl_requests tm) + (if identified r then 1 else 0)"
    and "length (tl_log tm') = length (tl_log tm) + (if identified r then 1 else 0)"
proof -
  obtain c where c: "(tm' = tm \<and> (r = None \<or> r = Some (error_response 429 ''Too many requests''))) \<or>
      context_dispatch GATEWAY_NAME env c rq (tm, ()) = ((tm', ()), r)"
    using assms by (auto simp: gateway_handle_def gw_dispatch_def split: prod.splits bool.splits if_splits)
  have "tm' = tm \<and> \<not> identified r \<or> (identified r \<and>
      counted (tl_requests tm') = Suc (counted (tl_requests tm)) \<and> length (tl_log tm') = Suc (length (tl_log tm)))"
  proof (cases "context_dispatch GATEWAY_NAME env c rq (tm, ()) = ((tm', ()), r)")
    case True
    show ?thesis
    proof (cases r)
      case None
      with True show ?thesis by (auto simp: context_dispatch_def identified_def split: prod.splits option.splits)
    next
      case (Some a)
      have "identified r" using context_dispatch_logged(4) [OF True [unfolded Some]] Some by (simp add: identified_def)
      with True Some show ?thesis
        by (auto simp: context_dispatch_def counted_record split: prod.splits option.splits)
    qed
  qed (use c in \<open>auto simp: identified_def error_response_def header_get_def\<close>)
  then show "counted (tl_requests tm') = counted (tl_requests tm) + (if identified r then 1 else 0)"
    "length (tl_log tm') = length (tl_log tm) + (if identified r then 1 else 0)"
    by auto
qed

text \<open>C26. The accounts of the gateway agree: over any sequence of requests, whatever the limiter refuses and
  whichever handlers raise, the requests counted in the metrics and the lines of the access log grow by the
  same number, that of the responses which carry a request id. Refused requests and raised ones carry none
  and are in neither.\<close>

theorem gateway_accounts_agree:
  assumes "gateway_run (gateway_handle dumps loads net framework send st) calls (bs, tm) = ((bs', tm'), rs)"
  shows "counted (tl_requests tm') = counted (tl_requests tm) + length (filter identified rs) \<and>
    length (tl_log tm') = length (tl_log tm) + length (filter identified rs) \<and> length rs = length calls"
  using assms
proof (induction calls arbitrary: bs tm rs)
  case (Cons call calls)
  obtain now now' env rq where call: "call = (now, now', env, rq)" by (cases call)
  obtain bs1 tm1 r where h: "gateway_handle dumps loads net framework send st now now' env rq (bs, tm) = ((bs1, tm1), r)"
    by (metis surj_pair)
  obtain rs1 where rs: "rs = r # rs1"
      "gateway_run (gateway_handle dumps loads net framework send st) calls (bs1, tm1) = ((bs', tm'), rs1)"
    using Cons.prems by (auto simp: call h split: prod.splits)
  from Cons.IH [OF rs(2)] gateway_handle_counts [OF h] show ?case by (simp add: rs)
qed simp


text \<open>A probe, a request that is forwarded, a probe of the platform that raises, and a request refused by
  the limiter of a gateway with a burst of two.\<close>

definition demo_gw_request :: "string \<Rightarrow> gateway_request" where
  "demo_gw_request path = \<lparr>rq_method = ''GET'', rq_path = path, rq_query = [], rq_headers = [], rq_body = [],
     rq_client_host = Some ''10.0.0.1'', rq_traceparent = None\<rparr>"

definition demo_calls :: "(rat \<times> rat \<times> context_env \<times> gateway_request) list" where
  "demo_calls = map (\<lambda>p. (0, 0, demo_draws CHR ''a'', demo_gw_request p))
     [''/health'', ''/api/reports/summary'', ''/readiness'', ''/api/auth/me'']"

definition demo_gateway ::
  "rat \<Rightarrow> rat \<Rightarrow> context_env \<Rightarrow> gateway_request \<Rightarrow> (string \<rightharpoonup> bucket) \<times> telemetry \<Rightarrow>
   ((string \<rightharpoonup> bucket) \<times> telemetry) \<times> gateway_response option" where
  "demo_gateway = gateway_handle (\<lambda>v. ''{}'') (\<lambda>s. None) (\<lambda>req. Inr demo_answer) (\<lambda>rq. None) (\<lambda>up. Some demo_answer)
     (gateway_defaults\<lparr>RATE_LIMIT_BURST := 2\<rparr>)"

theorem gateway_accounts_agree_witness:
  "counted (tl_requests (snd (fst (gateway_run demo_gateway demo_calls (\<lambda>_. None, \<lparr>tl_requests = [], tl_log = []\<rparr>))))) = 2 \<and>
   length (tl_log (snd (fst (gateway_run demo_gateway demo_calls (\<lambda>_. None, \<lparr>tl_requests = [], tl_log = []\<rparr>))))) = 2 \<and>
   length (snd (gateway_run demo_gateway demo_calls (\<lambda>_. None, \<lparr>tl_requests = [], tl_log = []\<rparr>))) = 4"
proof -
  let ?s = "(\<lambda>_. None, \<lparr>tl_requests = [], tl_log = []\<rparr>)"
  obtain bs tm rs where run: "gateway_run demo_gateway demo_calls ?s = ((bs, tm), rs)" by (metis surj_pair)
  have "map identified (snd (gateway_run demo_gateway demo_calls ?s)) = [True, True, False, False]" by code_simp
  then have "map identified rs = [True, True, False, False]" by (simp add: run)
  then have "length (filter identified rs) = 2" by (auto simp: map_eq_Cons_conv)
  with gateway_accounts_agree [OF run [unfolded demo_gateway_def]] show ?thesis
    unfolding run by (simp add: counted_def demo_calls_def)
qed

end
