(* ===== verification/Ws_Proxy.thy ===== *)
theory Ws_Proxy
  imports Observability "HOL-Library.Sublist"
begin

text \<open>
  The WebSocket proxy of the gateway (\<open>gateway/app/ws_proxy.py\<close>): the URL of the real-time service, the
  subprotocols, the opening of a session, and the two tasks that pump frames in both directions until
  either ends.

  What the two sockets deliver are the lists of events still to come; the tasks run as a step relation in
  which either may proceed, so every interleaving the event loop can produce is a run. Whether a send
  succeeds is open at every step.
\<close>

section \<open>The upstream URL\<close>

text \<open>\<open>urllib.parse.urlsplit\<close> as far as scheme and network location go: leading blanks and control
  characters are stripped, tabs and line ends removed. \<open>netloc_ok\<close> stands for the checks on an address in
  brackets and on characters outside ASCII.\<close>

definition ascii_letter :: "char \<Rightarrow> bool" where
  "ascii_letter c = (let n = of_char c :: nat in (65 \<le> n \<and> n \<le> 90) \<or> (97 \<le> n \<and> n \<le> 122))"

definition scheme_char :: "char \<Rightarrow> bool" where
  "scheme_char c = (let n = of_char c :: nat in
     ascii_letter c \<or> (48 \<le> n \<and> n \<le> 57) \<or> c = CHR ''+'' \<or> c = CHR ''-'' \<or> c = CHR ''.'')"

definition url_clean :: "string \<Rightarrow> string" where
  "url_clean url = filter (\<lambda>c. c \<noteq> CHR 0x09 \<and> c \<noteq> CHR 0x0A \<and> c \<noteq> CHR 0x0D)
     (dropWhile (\<lambda>c. (of_char c :: nat) \<le> 32) url)"

definition split_scheme :: "string \<Rightarrow> string \<times> string" where
  "split_scheme url =
     (let s = takeWhile (\<lambda>c. c \<noteq> CHR '':'') url
      in if CHR '':'' \<in> set url \<and> s \<noteq> [] \<and> ascii_letter (hd s) \<and> list_all scheme_char s
         then (lower s, drop (length s + 1) url) else ([], url))"

definition urlsplit :: "(string \<Rightarrow> bool) \<Rightarrow> string \<Rightarrow> py_error + string \<times> string" where
  "urlsplit netloc_ok url =
     (case split_scheme (url_clean url) of (scheme, rest) \<Rightarrow>
        if take 2 rest = ''//''
        then (let netloc = takeWhile (\<lambda>c. c \<noteq> CHR ''/'' \<and> c \<noteq> CHR ''?'' \<and> c \<noteq> CHR ''#'') (drop 2 rest)
              in if (CHR ''['' \<in> set netloc) \<noteq> (CHR '']'' \<in> set netloc) \<or> \<not> netloc_ok netloc then Inl ValueError
                 else Inr (scheme, netloc))
        else Inr (scheme, []))"

definition upstream_ws_url :: "(string \<Rightarrow> bool) \<Rightarrow> gateway_settings \<Rightarrow> py_error + string" where
  "upstream_ws_url netloc_ok st =
     andthen (urlsplit netloc_ok (RTO_URL st))
       (\<lambda>(scheme, netloc). Inr ((if scheme = ''https'' then ''wss'' else ''ws'') @ ''://'' @
          (if netloc = [] then ''localhost'' else netloc) @ ''/ws''))"

definition ws_subprotocols :: "(string \<times> string) list \<Rightarrow> string list" where
  "ws_subprotocols headers =
     filter (\<lambda>v. v \<noteq> []) (map strip (split_on CHR '','' (dget_default headers ''sec-websocket-protocol'' [])))"

section \<open>The two directions\<close>

datatype frame = Text string | Bytes string

text \<open>What \<open>websocket.receive()\<close> gives: a message with its \<open>text\<close> and \<open>bytes\<close>, the end of the connection, or
  another exception; and what \<open>upstream.recv()\<close> gives.\<close>

datatype client_event = Receive "string option" "string option" | Disconnect | Client_error
datatype upstream_event = Recv frame | Closed | Upstream_error

text \<open>A task: waiting for a message, about to send one, ended by the end of its source, ended by an error,
  or cancelled.\<close>

datatype pump = Waiting | Holding frame | Finished | Failed | Cancelled

fun client_to_upstream :: "client_event \<Rightarrow> pump" where
  "client_to_upstream Disconnect = Finished"
| "client_to_upstream Client_error = Failed"
| "client_to_upstream (Receive text bytes) =
     (case text of
        Some t \<Rightarrow> Holding (Text t)
      | None \<Rightarrow> (case bytes of Some b \<Rightarrow> Holding (Bytes b) | None \<Rightarrow> Waiting))"

fun upstream_to_client :: "upstream_event \<Rightarrow> pump" where
  "upstream_to_client (Recv f) = Holding f"
| "upstream_to_client Closed = Finished"
| "upstream_to_client Upstream_error = Failed"

record 'e direction =
  dr_events :: "'e list"
  dr_pump :: pump
  dr_sent :: "frame list"

inductive pump_step :: "('e \<Rightarrow> pump) \<Rightarrow> 'e direction \<Rightarrow> 'e direction \<Rightarrow> bool" for receive where
  take_event: "dr_pump d = Waiting \<Longrightarrow> dr_events d = e # es \<Longrightarrow>
    pump_step receive d (d\<lparr>dr_events := es, dr_pump := receive e\<rparr>)"
| send: "dr_pump d = Holding f \<Longrightarrow>
    pump_step receive d (d\<lparr>dr_pump := Waiting, dr_sent := dr_sent d @ [f]\<rparr>)"
| send_error: "dr_pump d = Holding f \<Longrightarrow> pump_step receive d (d\<lparr>dr_pump := Failed\<rparr>)"

fun over :: "pump \<Rightarrow> bool" where
  "over Waiting = False"
| "over (Holding f) = False"
| "over _ = True"

definition cancel :: "'e direction \<Rightarrow> 'e direction" where
  "cancel d = (if over (dr_pump d) then d else d\<lparr>dr_pump := Cancelled\<rparr>)"

section \<open>A session\<close>

datatype ws_action = Accept "string option" | Connect string "string list" | Close_upstream | Close_client "nat option"

record session =
  wp_up :: "client_event direction"
  wp_down :: "upstream_event direction"
  wp_actions :: "ws_action list"
  wp_over :: bool

definition start_direction :: "'e list \<Rightarrow> 'e direction" where
  "start_direction es = \<lparr>dr_events = es, dr_pump = Waiting, dr_sent = []\<rparr>"

text \<open>The opening of \<open>proxy_ws\<close>: without the library, or when the upstream refuses the connection, the client
  is closed with 1011; a malformed setting raises.\<close>

definition proxy_ws ::
  "(string \<Rightarrow> bool) \<Rightarrow> gateway_settings \<Rightarrow> bool \<Rightarrow> bool \<Rightarrow> (string \<times> string) list \<Rightarrow>
   client_event list \<Rightarrow> upstream_event list \<Rightarrow> py_error + session" where
  "proxy_ws netloc_ok st installed connects headers from_client from_upstream =
     (let subprotocols = ws_subprotocols headers;
          accepted = Accept (case subprotocols of [] \<Rightarrow> None | p # _ \<Rightarrow> Some p);
          start = (\<lambda>actions ended. \<lparr>wp_up = start_direction from_client, wp_down = start_direction from_upstream,
             wp_actions = actions, wp_over = ended\<rparr>)
      in if \<not> installed then Inr (start [Close_client (Some 1011)] True)
         else andthen (upstream_ws_url netloc_ok st)
           (\<lambda>url. Inr (if connects then start [accepted, Connect url subprotocols] False
                       else start [accepted, Connect url subprotocols, Close_client (Some 1011)] True)))"

text \<open>Both tasks run until one is over; then the other is cancelled and both sockets are closed.\<close>

inductive ws_step :: "session \<Rightarrow> session \<Rightarrow> bool" where
  pump_up: "\<not> wp_over s \<Longrightarrow> pump_step client_to_upstream (wp_up s) d \<Longrightarrow> ws_step s (s\<lparr>wp_up := d\<rparr>)"
| pump_down: "\<not> wp_over s \<Longrightarrow> pump_step upstream_to_client (wp_down s) d \<Longrightarrow> ws_step s (s\<lparr>wp_down := d\<rparr>)"
| finish: "\<not> wp_over s \<Longrightarrow> over (dr_pump (wp_up s)) \<or> over (dr_pump (wp_down s)) \<Longrightarrow>
    ws_step s (s\<lparr>wp_up := cancel (wp_up s), wp_down := cancel (wp_down s),
      wp_actions := wp_actions s @ [Close_upstream, Close_client None], wp_over := True\<rparr>)"

inductive_cases pump_stepE: "pump_step receive d d'"
inductive_cases ws_stepE: "ws_step s s'"

section \<open>What a direction has delivered\<close>

text \<open>The frames a source gives before it ends.\<close>

fun frames :: "('e \<Rightarrow> pump) \<Rightarrow> 'e list \<Rightarrow> frame list" where
  "frames receive [] = []"
| "frames receive (e # es) =
     (case receive e of Holding f \<Rightarrow> f # frames receive es | Waiting \<Rightarrow> frames receive es | _ \<Rightarrow> [])"

text \<open>The source ends at some point.\<close>

definition ends :: "('e \<Rightarrow> pump) \<Rightarrow> 'e list \<Rightarrow> bool" where
  "ends receive es = list_ex (\<lambda>e. over (receive e)) es"

definition direction_ok :: "('e \<Rightarrow> pump) \<Rightarrow> 'e list \<Rightarrow> 'e direction \<Rightarrow> bool" where
  "direction_ok receive es0 d =
     (case dr_pump d of
        Waiting \<Rightarrow> frames receive es0 = dr_sent d @ frames receive (dr_events d) \<and>
          (ends receive es0 \<longrightarrow> ends receive (dr_events d))
      | Holding f \<Rightarrow> frames receive es0 = dr_sent d @ f # frames receive (dr_events d) \<and>
          (ends receive es0 \<longrightarrow> ends receive (dr_events d))
      | Finished \<Rightarrow> frames receive es0 = dr_sent d
      | _ \<Rightarrow> prefix (dr_sent d) (frames receive es0))"

lemma direction_ok_start: "direction_ok receive es (start_direction es)"
  by (simp add: direction_ok_def start_direction_def)

lemma direction_ok_step:
  "pump_step receive d d' \<Longrightarrow> direction_ok receive es0 d \<Longrightarrow> direction_ok receive es0 d'"
proof (induction rule: pump_step.induct)
  case (take_event d e es)
  then show ?case by (cases "receive e") (auto simp: direction_ok_def ends_def prefix_def)
qed (auto simp: direction_ok_def prefix_def)

lemma direction_ok_cancel: "direction_ok receive es0 d \<Longrightarrow> direction_ok receive es0 (cancel d)"
  by (cases "dr_pump d") (auto simp: direction_ok_def cancel_def prefix_def)

lemma direction_ok_prefix: "direction_ok receive es0 d \<Longrightarrow> prefix (dr_sent d) (frames receive es0)"
  by (auto simp: direction_ok_def prefix_def split: pump.splits)

definition ws_inv :: "client_event list \<Rightarrow> upstream_event list \<Rightarrow> session \<Rightarrow> bool" where
  "ws_inv cs us s \<longleftrightarrow>
     direction_ok client_to_upstream cs (wp_up s) \<and> direction_ok upstream_to_client us (wp_down s)"

lemma ws_inv_step: "ws_step s s' \<Longrightarrow> ws_inv cs us s \<Longrightarrow> ws_inv cs us s'"
  by (induction rule: ws_step.induct) (auto simp: ws_inv_def direction_ok_step direction_ok_cancel)

lemma ws_inv_steps: "ws_step\<^sup>*\<^sup>* s s' \<Longrightarrow> ws_inv cs us s \<Longrightarrow> ws_inv cs us s'"
  by (induction rule: rtranclp_induct) (auto intro: ws_inv_step)

section \<open>Termination\<close>

definition weight :: "'e direction \<Rightarrow> nat" where
  "weight d = 2 * length (dr_events d) + (case dr_pump d of Holding f \<Rightarrow> 1 | _ \<Rightarrow> 0)"

definition ws_weight :: "session \<Rightarrow> nat" where
  "ws_weight s = weight (wp_up s) + weight (wp_down s) + (if wp_over s then 0 else 1)"

lemma weight_step: "pump_step receive d d' \<Longrightarrow> weight d' < weight d"
  by (induction rule: pump_step.induct) (auto simp: weight_def split: pump.splits)

lemma weight_cancel: "weight (cancel d) \<le> weight d"
  by (auto simp: weight_def cancel_def split: pump.splits)

lemma ws_weight_step: "ws_step s s' \<Longrightarrow> ws_weight s' < ws_weight s"
proof (induction rule: ws_step.induct)
  case (finish s)
  then show ?case using weight_cancel [of "wp_up s"] weight_cancel [of "wp_down s"] by (simp add: ws_weight_def)
qed (auto simp: ws_weight_def dest: weight_step)

lemma ws_steps_bounded: "(ws_step ^^ n) s s' \<Longrightarrow> n + ws_weight s' \<le> ws_weight s"
proof (induction n arbitrary: s')
  case (Suc n)
  then obtain t where "(ws_step ^^ n) s t" "ws_step t s'" by auto
  with Suc.IH [of t] ws_weight_step [of t s'] show ?case by simp
qed simp

text \<open>A direction that is not over can proceed as long as its source has something to give.\<close>

lemma direction_progress:
  "direction_ok receive es0 d \<Longrightarrow> ends receive es0 \<Longrightarrow> \<not> over (dr_pump d) \<Longrightarrow> \<exists>d'. pump_step receive d d'"
proof (cases "dr_pump d")
  case Waiting
  assume "direction_ok receive es0 d" "ends receive es0"
  then have "ends receive (dr_events d)" using Waiting by (simp add: direction_ok_def)
  then obtain e es where "dr_events d = e # es" by (cases "dr_events d") (auto simp: ends_def)
  with Waiting show ?thesis by (blast intro: take_event)
qed (auto intro: send)

lemma ws_stuck_over:
  assumes "ws_inv cs us s" "ends client_to_upstream cs \<or> ends upstream_to_client us" "\<nexists>s'. ws_step s s'"
  shows "wp_over s"
proof (rule ccontr)
  assume run: "\<not> wp_over s"
  with assms(3) have idle: "\<not> over (dr_pump (wp_up s))" "\<not> over (dr_pump (wp_down s))"
    by (blast intro: finish)+
  from assms(1) have ok: "direction_ok client_to_upstream cs (wp_up s)" "direction_ok upstream_to_client us (wp_down s)"
    by (simp_all add: ws_inv_def)
  from assms(2) show False
  proof
    assume "ends client_to_upstream cs"
    with direction_progress ok(1) idle(1) run assms(3) show False by (blast intro: pump_up)
  next
    assume "ends upstream_to_client us"
    with direction_progress ok(2) idle(2) run assms(3) show False by (blast intro: pump_down)
  qed
qed

text \<open>The two closing actions happen once, at the end.\<close>

definition closing_ok :: "ws_action list \<Rightarrow> session \<Rightarrow> bool" where
  "closing_ok opening s \<longleftrightarrow>
     wp_actions s = opening @ (if wp_over s then [Close_upstream, Close_client None] else []) \<and>
     (wp_over s \<longrightarrow> over (dr_pump (wp_up s)) \<and> over (dr_pump (wp_down s)))"

lemma closing_ok_step: "ws_step s s' \<Longrightarrow> closing_ok opening s \<Longrightarrow> closing_ok opening s'"
  by (induction rule: ws_step.induct) (auto simp: closing_ok_def cancel_def)

lemma closing_ok_steps: "ws_step\<^sup>*\<^sup>* s s' \<Longrightarrow> closing_ok opening s \<Longrightarrow> closing_ok opening s'"
  by (induction rule: rtranclp_induct) (auto intro: closing_ok_step)

lemma proxy_ws_connected:
  assumes "proxy_ws netloc_ok st True True headers cs us = Inr s0"
  obtains url where "upstream_ws_url netloc_ok st = Inr url" "ws_inv cs us s0" "\<not> wp_over s0"
    "ws_weight s0 = 2 * length cs + 2 * length us + 1"
    "wp_actions s0 = [Accept (case ws_subprotocols headers of [] \<Rightarrow> None | p # _ \<Rightarrow> Some p), Connect url (ws_subprotocols headers)]"
  using assms
  by (auto simp: proxy_ws_def andthen_Inr ws_inv_def direction_ok_start [unfolded start_direction_def]
    ws_weight_def weight_def start_direction_def Let_def)

text \<open>For an address without a path the proxy connects to \<open>/ws\<close> of the same host and port.\<close>

lemma upstream_ws_url_eq:
  assumes "RTO_URL st = scheme @ ''://'' @ host" "scheme = ''http'' \<or> scheme = ''https''" "host \<noteq> []"
    and "list_all (\<lambda>c. 32 < (of_char c :: nat) \<and> c \<notin> {CHR ''/'', CHR ''?'', CHR ''#'', CHR ''['', CHR '']''}) host" "netloc_ok host"
  shows "upstream_ws_url netloc_ok st = Inr ((if scheme = ''https'' then ''wss'' else ''ws'') @ ''://'' @ host @ ''/ws'')"
proof -
  have clean: "filter (\<lambda>c. c \<noteq> CHR 0x09 \<and> c \<noteq> CHR 0x0A \<and> c \<noteq> CHR 0x0D) host = host"
  proof (rule filter_True, rule ballI)
    fix c
    assume "c \<in> set host"
    then have "32 < (of_char c :: nat)" using assms(4) by (simp add: list_all_iff)
    then show "c \<noteq> CHR 0x09 \<and> c \<noteq> CHR 0x0A \<and> c \<noteq> CHR 0x0D" by auto
  qed
  have uc: "url_clean (RTO_URL st) = scheme @ ''://'' @ host"
    using assms(1,2) clean by (auto simp: url_clean_def)
  have ss: "split_scheme (scheme @ ''://'' @ host) = (scheme, ''//'' @ host)"
    using assms(2) by (auto simp: split_scheme_def scheme_char_def ascii_letter_def lower_def lower_char_def)
  have tw: "takeWhile (\<lambda>c. c \<noteq> CHR ''/'' \<and> c \<noteq> CHR ''?'' \<and> c \<noteq> CHR ''#'') host = host"
    using assms(4) by (intro takeWhile_eq_all_conv [THEN iffD2]) (auto simp: list_all_iff)
  have br: "CHR ''['' \<notin> set host" "CHR '']'' \<notin> set host" using assms(4) by (auto simp: list_all_iff)
  show ?thesis by (simp add: upstream_ws_url_def urlsplit_def uc ss [simplified] tw br assms(3,5))
qed

section \<open>A run\<close>

text \<open>A client that sends one text frame and leaves.\<close>

definition demo_client :: "client_event list" where
  "demo_client = [Receive (Some ''hi'') None, Disconnect]"

definition demo_headers :: "(string \<times> string) list" where
  "demo_headers = [(''sec-websocket-protocol'', '' bearer, token'')]"

definition demo_opening :: "ws_action list" where
  "demo_opening = [Accept (Some ''bearer''), Connect ''ws://localhost:8080/ws'' [''bearer'', ''token'']]"

definition demo_up :: "client_event direction" where
  "demo_up = \<lparr>dr_events = [], dr_pump = Finished, dr_sent = [Text ''hi'']\<rparr>"

definition demo_open :: session where
  "demo_open = \<lparr>wp_up = start_direction demo_client, wp_down = start_direction [Recv (Bytes ''x'')],
     wp_actions = demo_opening, wp_over = False\<rparr>"

lemma demo_proxy:
  "proxy_ws (\<lambda>_. True) gateway_defaults True True demo_headers demo_client [Recv (Bytes ''x'')] = Inr demo_open"
proof -
  have "upstream_ws_url (\<lambda>_. True) gateway_defaults = Inr ''ws://localhost:8080/ws''"
    "ws_subprotocols demo_headers = [''bearer'', ''token'']" by code_simp+
  then show ?thesis by (simp add: proxy_ws_def demo_open_def demo_opening_def)
qed

lemma pump_up_steps:
  "(pump_step client_to_upstream)\<^sup>*\<^sup>* (wp_up s) d \<Longrightarrow> \<not> wp_over s \<Longrightarrow> ws_step\<^sup>*\<^sup>* s (s\<lparr>wp_up := d\<rparr>)"
proof (induction rule: rtranclp_induct)
  case (step d d')
  then have "ws_step (s\<lparr>wp_up := d\<rparr>) (s\<lparr>wp_up := d, wp_up := d'\<rparr>)" by (intro pump_up) simp_all
  with step show ?case by (simp add: rtranclp.rtrancl_into_rtrancl)
qed simp

lemma demo_run: "ws_step\<^sup>*\<^sup>* demo_open (demo_open\<lparr>wp_up := demo_up\<rparr>)"
proof (rule pump_up_steps)
  let ?p = "pump_step client_to_upstream"
  let ?d1 = "\<lparr>dr_events = [Disconnect], dr_pump = Holding (Text ''hi''), dr_sent = []\<rparr>"
  let ?d2 = "\<lparr>dr_events = [Disconnect], dr_pump = Waiting, dr_sent = [Text ''hi'']\<rparr>"
  have "?p (start_direction demo_client) ?d1"
    using take_event [of "start_direction demo_client" "Receive (Some ''hi'') None" "[Disconnect]" client_to_upstream]
    by (simp add: start_direction_def demo_client_def)
  moreover have "?p ?d1 ?d2" using send [of ?d1 "Text ''hi''" client_to_upstream] by simp
  moreover have "?p ?d2 demo_up" using take_event [of ?d2 Disconnect "[]" client_to_upstream] by (simp add: demo_up_def)
  ultimately show "?p\<^sup>*\<^sup>* (wp_up demo_open) demo_up"
    by (simp add: demo_open_def)
qed (simp add: demo_open_def)

section \<open>What the two sides give\<close>

text \<open>The frames a client and an upstream give before they end, and whether they end, from their events alone.\<close>

fun client_frame :: "client_event \<Rightarrow> frame option" where
  "client_frame (Receive (Some t) b) = Some (Text t)"
| "client_frame (Receive None (Some b)) = Some (Bytes b)"
| "client_frame _ = None"

definition client_frames :: "client_event list \<Rightarrow> frame list" where
  "client_frames cs = List.map_filter client_frame (takeWhile (\<lambda>e. e \<noteq> Disconnect \<and> e \<noteq> Client_error) cs)"

fun upstream_frames :: "upstream_event list \<Rightarrow> frame list" where
  "upstream_frames (Recv f # us) = f # upstream_frames us"
| "upstream_frames _ = []"

definition client_leaves :: "client_event list \<Rightarrow> bool" where
  "client_leaves cs \<longleftrightarrow> Disconnect \<in> set cs \<or> Client_error \<in> set cs"

definition upstream_leaves :: "upstream_event list \<Rightarrow> bool" where
  "upstream_leaves us \<longleftrightarrow> Closed \<in> set us \<or> Upstream_error \<in> set us"

lemma frames_client: "frames client_to_upstream cs = client_frames cs"
proof (induction cs)
  case (Cons e cs)
  then show ?case
    by (cases e rule: client_frame.cases) (simp_all add: client_frames_def List.map_filter_simps)
qed (simp add: client_frames_def List.map_filter_simps)

lemma frames_upstream: "frames upstream_to_client us = upstream_frames us"
  by (induction us rule: upstream_frames.induct) simp_all

lemma ends_client: "ends client_to_upstream cs \<longleftrightarrow> client_leaves cs"
proof -
  have "over (client_to_upstream e) \<longleftrightarrow> e = Disconnect \<or> e = Client_error" for e
    by (cases e rule: client_frame.cases) simp_all
  then show ?thesis by (auto simp: ends_def client_leaves_def list_ex_iff)
qed

lemma ends_upstream: "ends upstream_to_client us \<longleftrightarrow> upstream_leaves us"
proof -
  have "over (upstream_to_client e) \<longleftrightarrow> e = Closed \<or> e = Upstream_error" for e by (cases e) simp_all
  then show ?thesis by (auto simp: ends_def upstream_leaves_def list_ex_iff)
qed

section \<open>Properties\<close>

text \<open>C22. Frames pass in order and unchanged: at every moment of a proxied session, in every interleaving of
  the two tasks, what the upstream has been sent is a prefix of the frames the client gave, text as text
  and bytes as bytes, and what the client has been sent is a prefix of what the upstream gave; when a
  direction ends because its source ended, it has delivered everything.\<close>

theorem ws_frames_in_order:
  assumes "proxy_ws netloc_ok st True True headers cs us = Inr s0" "ws_step\<^sup>*\<^sup>* s0 s"
  shows "prefix (dr_sent (wp_up s)) (client_frames cs) \<and>
    prefix (dr_sent (wp_down s)) (upstream_frames us) \<and>
    (dr_pump (wp_up s) = Finished \<longrightarrow> dr_sent (wp_up s) = client_frames cs) \<and>
    (dr_pump (wp_down s) = Finished \<longrightarrow> dr_sent (wp_down s) = upstream_frames us)"
proof -
  from assms(1) have "ws_inv cs us s0" by (rule proxy_ws_connected)
  with assms(2) have "ws_inv cs us s" by (rule ws_inv_steps)
  then have ok: "direction_ok client_to_upstream cs (wp_up s)" "direction_ok upstream_to_client us (wp_down s)"
    by (simp_all add: ws_inv_def)
  show ?thesis using ok direction_ok_prefix [OF ok(1)] direction_ok_prefix [OF ok(2)]
    by (auto simp: direction_ok_def frames_client frames_upstream)
qed

theorem ws_frames_in_order_witness:
  "dr_sent (wp_up (demo_open\<lparr>wp_up := demo_up\<rparr>)) = client_frames demo_client"
  using ws_frames_in_order [OF demo_proxy demo_run] by (simp add: demo_up_def)

text \<open>C23. A session ends when either side ends: it takes a bounded number of steps however the tasks are
  scheduled, and if the client disconnects or the upstream closes or one of them fails, it stops only
  after both tasks are over and both sockets have been closed, the upstream first, once each.\<close>

theorem ws_session_closes:
  assumes "proxy_ws netloc_ok st True True headers cs us = Inr s0"
    and "client_leaves cs \<or> upstream_leaves us"
  shows "(\<forall>n s. (ws_step ^^ n) s0 s \<longrightarrow> n \<le> 2 * length cs + 2 * length us + 1) \<and>
    (\<forall>s. ws_step\<^sup>*\<^sup>* s0 s \<and> (\<nexists>s'. ws_step s s') \<longrightarrow>
       wp_over s \<and> over (dr_pump (wp_up s)) \<and> over (dr_pump (wp_down s)) \<and>
       wp_actions s = wp_actions s0 @ [Close_upstream, Close_client None])"
proof (intro conjI allI impI)
  fix n s
  assume "(ws_step ^^ n) s0 s"
  with ws_steps_bounded [of n s0 s] show "n \<le> 2 * length cs + 2 * length us + 1"
    using assms(1) by (auto elim!: proxy_ws_connected)
next
  fix s
  assume s: "ws_step\<^sup>*\<^sup>* s0 s \<and> (\<nexists>s'. ws_step s s')"
  from assms(1) have "ws_inv cs us s0" "closing_ok (wp_actions s0) s0"
    by (auto elim!: proxy_ws_connected simp: closing_ok_def)
  with s have "ws_inv cs us s" and c: "closing_ok (wp_actions s0) s" by (auto intro: ws_inv_steps closing_ok_steps)
  then have "wp_over s" using ws_stuck_over assms(2) s unfolding ends_client ends_upstream by blast
  with c show "wp_over s" "over (dr_pump (wp_up s))" "over (dr_pump (wp_down s))"
    "wp_actions s = wp_actions s0 @ [Close_upstream, Close_client None]" by (auto simp: closing_ok_def)
qed

theorem ws_session_closes_witness:
  "\<exists>s. ws_step\<^sup>*\<^sup>* demo_open s \<and> wp_actions s = demo_opening @ [Close_upstream, Close_client None]"
proof -
  let ?t = "demo_open\<lparr>wp_up := demo_up\<rparr>"
  let ?s = "?t\<lparr>wp_up := cancel (wp_up ?t), wp_down := cancel (wp_down ?t),
      wp_actions := wp_actions ?t @ [Close_upstream, Close_client None], wp_over := True\<rparr>"
  have "ws_step ?t ?s" by (rule finish) (simp_all add: demo_open_def demo_up_def)
  with demo_run have run: "ws_step\<^sup>*\<^sup>* demo_open ?s" by (rule rtranclp.rtrancl_into_rtrancl)
  have "\<nexists>s'. ws_step ?s s'" by (auto elim: ws_stepE)
  moreover have "client_leaves demo_client" by (simp add: client_leaves_def demo_client_def)
  ultimately have "wp_actions ?s = wp_actions demo_open @ [Close_upstream, Close_client None]"
    using ws_session_closes [OF demo_proxy] run by blast
  with run show ?thesis by (auto simp: demo_open_def)
qed

end
