(* ===== verification/Migrations.thy ===== *)
theory Migrations
  imports Py_Value
begin

text \<open>
  Database migrations: the statements the Alembic revisions under \<open>services/*/migrations/versions\<close> issue,
  what PostgreSQL does with them on the schema of a service, and the chain of revisions.

  A schema holds tables, with their columns, constraints and indexes, and enumeration types. Every
  revision of a service works in the one schema the service owns, so the model leaves the schema name out.
  Alembic runs the revisions of one command in a transaction: an error leaves the schema as it was. The
  data in the tables is not part of this model; statements that change data are \<open>Execute\<close>.
\<close>

section \<open>Schemas\<close>

datatype col_type =
    Big_integer | Uuid_type | Varchar "nat option" | Text_type | Jsonb_type | Timestamp_tz
  | Boolean_type | Integer_type | Float_type | Date_type
  | Enum_type string "string list" | Array_type col_type

record column =
  cl_name :: string
  cl_type :: col_type
  cl_nullable :: bool
  cl_default :: "string option"

definition col :: "string \<Rightarrow> col_type \<Rightarrow> bool \<Rightarrow> column" where
  "col name ty nullable = \<lparr>cl_name = name, cl_type = ty, cl_nullable = nullable, cl_default = None\<rparr>"

definition col_default :: "string \<Rightarrow> col_type \<Rightarrow> bool \<Rightarrow> string \<Rightarrow> column" where
  "col_default name ty nullable d = \<lparr>cl_name = name, cl_type = ty, cl_nullable = nullable, cl_default = Some d\<rparr>"

datatype table_constraint =
    Primary_key "string list"
  | Unique_key "string option" "string list"
  | Foreign_key "string list" string "string list" "string option"
  | Check_constraint string string

record index_def =
  ix_name :: string
  ix_columns :: "string list"
  ix_unique :: bool
  ix_where :: "string option"

record table_def =
  td_name :: string
  td_columns :: "column list"
  td_constraints :: "table_constraint list"
  td_indexes :: "index_def list"

record db_schema =
  ds_tables :: "table_def list"
  ds_types :: "(string \<times> string list) list"

definition empty_schema :: db_schema where
  "empty_schema = \<lparr>ds_tables = [], ds_types = []\<rparr>"

section \<open>Statements\<close>

datatype ddl =
    Create_table string "column list" "table_constraint list"
  | Drop_table string
  | Create_index string string "string list" bool "string option"
  | Drop_index string
  | Add_column string column
  | Drop_column string string
  | Alter_nullable string string bool
  | Alter_default string string "string option"
  | Create_check string string string
  | Drop_constraint string string
  | Create_type string "string list"
  | Drop_type string
  | Add_value string string
  | Execute string

datatype ddl_error =
    DuplicateTable string | UndefinedTable string | DuplicateColumn string | UndefinedColumn string
  | DuplicateObject string | UndefinedObject string | DependentObjects string

fun enum_of :: "col_type \<Rightarrow> (string \<times> string list) option" where
  "enum_of (Enum_type n vs) = Some (n, vs)"
| "enum_of (Array_type t) = enum_of t"
| "enum_of _ = None"

text \<open>The identifiers in the text of a condition.\<close>

definition ident_char :: "char \<Rightarrow> bool" where
  "ident_char c = (let n = of_char c :: nat in
     (48 \<le> n \<and> n \<le> 57) \<or> (65 \<le> n \<and> n \<le> 90) \<or> (97 \<le> n \<and> n \<le> 122) \<or> n = 95)"

fun sql_words :: "string \<Rightarrow> string \<Rightarrow> string list" where
  "sql_words acc [] = (if acc = [] then [] else [rev acc])"
| "sql_words acc (c # cs) =
     (if ident_char c then sql_words (c # acc) cs
      else if acc = [] then sql_words [] cs else rev acc # sql_words [] cs)"

fun constraint_columns :: "table_constraint \<Rightarrow> string list" where
  "constraint_columns (Primary_key cs) = cs"
| "constraint_columns (Unique_key n cs) = cs"
| "constraint_columns (Foreign_key cs t rcs d) = cs"
| "constraint_columns (Check_constraint n t) = []"

fun constraint_uses :: "string \<Rightarrow> table_constraint \<Rightarrow> bool" where
  "constraint_uses c (Check_constraint n t) = (c \<in> set (sql_words [] t))"
| "constraint_uses c k = (c \<in> set (constraint_columns k))"

fun constraint_name :: "table_constraint \<Rightarrow> string option" where
  "constraint_name (Unique_key n cs) = n"
| "constraint_name (Check_constraint n t) = Some n"
| "constraint_name _ = None"

definition index_uses :: "string \<Rightarrow> index_def \<Rightarrow> bool" where
  "index_uses c ix = (c \<in> set (ix_columns ix) \<or>
     (case ix_where ix of None \<Rightarrow> False | Some w \<Rightarrow> c \<in> set (sql_words [] w)))"

definition column_names :: "table_def \<Rightarrow> string list" where
  "column_names t = map cl_name (td_columns t)"

text \<open>Tables and indexes share one name space.\<close>

definition relation_names :: "db_schema \<Rightarrow> string list" where
  "relation_names s = concat (map (\<lambda>t. td_name t # map ix_name (td_indexes t)) (ds_tables s))"

text \<open>A foreign key refers to a primary or unique key of an existing table.\<close>

definition is_key :: "string list \<Rightarrow> table_def \<Rightarrow> bool" where
  "is_key cs t = list_ex (\<lambda>k. case k of Primary_key ks \<Rightarrow> ks = cs | Unique_key n ks \<Rightarrow> ks = cs | _ \<Rightarrow> False) (td_constraints t)"

fun fk_ok :: "db_schema \<Rightarrow> table_constraint \<Rightarrow> bool" where
  "fk_ok s (Foreign_key cs rt rcs d) =
     (case row_get td_name rt (ds_tables s) of None \<Rightarrow> False | Some t \<Rightarrow> is_key rcs t)"
| "fk_ok s _ = True"

definition fks_ok :: "db_schema \<Rightarrow> bool" where
  "fks_ok s = list_all (\<lambda>t. list_all (fk_ok s) (td_constraints t)) (ds_tables s)"

definition uses_type :: "string \<Rightarrow> table_def \<Rightarrow> bool" where
  "uses_type n t = list_ex (\<lambda>c. case enum_of (cl_type c) of None \<Rightarrow> False | Some (m, _) \<Rightarrow> m = n) (td_columns t)"

text \<open>\<open>CREATE TABLE\<close> through Alembic first creates the enumeration types of its columns, without looking
  whether they exist.\<close>

fun create_types :: "column list \<Rightarrow> (string \<times> string list) list \<Rightarrow> ddl_error + (string \<times> string list) list" where
  "create_types [] ts = Inr ts"
| "create_types (c # cs) ts =
     (case enum_of (cl_type c) of
        None \<Rightarrow> create_types cs ts
      | Some (n, vs) \<Rightarrow> if n \<in> set (map fst ts) then Inl (DuplicateObject n) else create_types cs (ts @ [(n, vs)]))"

definition with_table :: "string \<Rightarrow> db_schema \<Rightarrow> (table_def \<Rightarrow> ddl_error + db_schema) \<Rightarrow> ddl_error + db_schema" where
  "with_table n s f = (case row_get td_name n (ds_tables s) of None \<Rightarrow> Inl (UndefinedTable n) | Some t \<Rightarrow> f t)"

definition put_table :: "string \<Rightarrow> (table_def \<Rightarrow> table_def) \<Rightarrow> db_schema \<Rightarrow> db_schema" where
  "put_table n f s = s\<lparr>ds_tables := row_upd (\<lambda>t. td_name t = n) f (ds_tables s)\<rparr>"

definition put_column :: "string \<Rightarrow> (column \<Rightarrow> column) \<Rightarrow> table_def \<Rightarrow> table_def" where
  "put_column c f t = t\<lparr>td_columns := row_upd (\<lambda>x. cl_name x = c) f (td_columns t)\<rparr>"

text \<open>A statement that takes something away fails when a foreign key still needs it.\<close>

definition unless_needed :: "string \<Rightarrow> db_schema \<Rightarrow> ddl_error + db_schema" where
  "unless_needed n s = (if fks_ok s then Inr s else Inl (DependentObjects n))"

fun run_ddl :: "ddl \<Rightarrow> db_schema \<Rightarrow> ddl_error + db_schema" where
  "run_ddl (Create_table n cs ks) s =
     andthen (create_types cs (ds_types s)) (\<lambda>ts.
       if n \<in> set (relation_names s) then Inl (DuplicateTable n)
       else if \<not> distinct (map cl_name cs) then Inl (DuplicateColumn n)
       else if \<not> list_all (\<lambda>k. list_all (\<lambda>c. c \<in> set (map cl_name cs)) (constraint_columns k)) ks then Inl (UndefinedColumn n)
       else (let s' = s\<lparr>ds_tables := ds_tables s @ [\<lparr>td_name = n, td_columns = cs, td_constraints = ks, td_indexes = []\<rparr>],
                         ds_types := ts\<rparr>
             in if fks_ok s' then Inr s' else Inl (UndefinedObject n)))"
| "run_ddl (Drop_table n) s =
     with_table n s (\<lambda>t. unless_needed n (s\<lparr>ds_tables := filter (\<lambda>t. td_name t \<noteq> n) (ds_tables s)\<rparr>))"
| "run_ddl (Create_index i n cs u w) s =
     with_table n s (\<lambda>t.
       if i \<in> set (relation_names s) then Inl (DuplicateTable i)
       else if \<not> list_all (\<lambda>c. c \<in> set (column_names t)) cs then Inl (UndefinedColumn i)
       else Inr (put_table n (\<lambda>t. t\<lparr>td_indexes := td_indexes t @ [\<lparr>ix_name = i, ix_columns = cs, ix_unique = u, ix_where = w\<rparr>]\<rparr>) s))"
| "run_ddl (Drop_index i) s =
     (if list_ex (\<lambda>t. i \<in> set (map ix_name (td_indexes t))) (ds_tables s)
      then Inr (s\<lparr>ds_tables := map (\<lambda>t. t\<lparr>td_indexes := filter (\<lambda>x. ix_name x \<noteq> i) (td_indexes t)\<rparr>) (ds_tables s)\<rparr>)
      else Inl (UndefinedObject i))"
| "run_ddl (Add_column n c) s =
     with_table n s (\<lambda>t.
       if cl_name c \<in> set (column_names t) then Inl (DuplicateColumn (cl_name c))
       else if (case enum_of (cl_type c) of None \<Rightarrow> False | Some (m, _) \<Rightarrow> m \<notin> set (map fst (ds_types s)))
       then Inl (UndefinedObject (cl_name c))
       else Inr (put_table n (\<lambda>t. t\<lparr>td_columns := td_columns t @ [c]\<rparr>) s))"
| "run_ddl (Drop_column n c) s =
     with_table n s (\<lambda>t.
       if c \<notin> set (column_names t) then Inl (UndefinedColumn c)
       else unless_needed c (put_table n (\<lambda>t. t\<lparr>td_columns := filter (\<lambda>x. cl_name x \<noteq> c) (td_columns t),
              td_constraints := filter (\<lambda>k. \<not> constraint_uses c k) (td_constraints t),
              td_indexes := filter (\<lambda>x. \<not> index_uses c x) (td_indexes t)\<rparr>) s))"
| "run_ddl (Alter_nullable n c b) s =
     with_table n s (\<lambda>t.
       if c \<notin> set (column_names t) then Inl (UndefinedColumn c)
       else Inr (put_table n (put_column c (\<lambda>x. x\<lparr>cl_nullable := b\<rparr>)) s))"
| "run_ddl (Alter_default n c d) s =
     with_table n s (\<lambda>t.
       if c \<notin> set (column_names t) then Inl (UndefinedColumn c)
       else Inr (put_table n (put_column c (\<lambda>x. x\<lparr>cl_default := d\<rparr>)) s))"
| "run_ddl (Create_check k n cond) s =
     with_table n s (\<lambda>t.
       if Some k \<in> set (map constraint_name (td_constraints t)) then Inl (DuplicateObject k)
       else Inr (put_table n (\<lambda>t. t\<lparr>td_constraints := td_constraints t @ [Check_constraint k cond]\<rparr>) s))"
| "run_ddl (Drop_constraint k n) s =
     with_table n s (\<lambda>t.
       if Some k \<notin> set (map constraint_name (td_constraints t)) then Inl (UndefinedObject k)
       else unless_needed k (put_table n (\<lambda>t. t\<lparr>td_constraints := filter (\<lambda>x. constraint_name x \<noteq> Some k) (td_constraints t)\<rparr>) s))"
| "run_ddl (Create_type n vs) s =
     (if n \<in> set (map fst (ds_types s)) then Inr s else Inr (s\<lparr>ds_types := ds_types s @ [(n, vs)]\<rparr>))"
| "run_ddl (Drop_type n) s =
     (if list_ex (uses_type n) (ds_tables s) then Inl (DependentObjects n)
      else Inr (s\<lparr>ds_types := filter (\<lambda>(m, _). m \<noteq> n) (ds_types s)\<rparr>))"
| "run_ddl (Add_value n v) s =
     (if n \<notin> set (map fst (ds_types s)) then Inl (UndefinedObject n)
      else Inr (s\<lparr>ds_types := map (\<lambda>(m, vs). (m, if m = n \<and> v \<notin> set vs then vs @ [v] else vs)) (ds_types s)\<rparr>))"
| "run_ddl (Execute sql) s = Inr s"

fun run_ddls :: "ddl list \<Rightarrow> db_schema \<Rightarrow> ddl_error + db_schema" where
  "run_ddls [] s = Inr s"
| "run_ddls (x # xs) s = andthen (run_ddl x s) (run_ddls xs)"

section \<open>Revisions\<close>

record revision =
  rv_id :: string
  rv_down :: "string option"
  rv_upgrade :: "ddl list"
  rv_downgrade :: "ddl list"

text \<open>The chain of revisions from a given one on, by their \<open>down_revision\<close>.\<close>

function chain :: "revision list \<Rightarrow> string option \<Rightarrow> revision list" where
  "chain revs cur =
     (case find (\<lambda>r. rv_down r = cur) revs of
        None \<Rightarrow> []
      | Some r \<Rightarrow> r # chain (remove1 r revs) (Some (rv_id r)))"
  by pat_completeness auto
termination
  by (relation "measure (\<lambda>(revs, cur). length revs)")
    (auto simp: find_Some_iff length_remove1 intro!: Nat.diff_less dest: nth_mem)

declare chain.simps [simp del]

text \<open>\<open>alembic upgrade head\<close> from an empty schema and \<open>alembic downgrade base\<close>.\<close>

definition upgrade_head :: "revision list \<Rightarrow> db_schema \<Rightarrow> ddl_error + db_schema" where
  "upgrade_head revs = run_ddls (concat (map rv_upgrade (chain revs None)))"

definition downgrade_base :: "revision list \<Rightarrow> db_schema \<Rightarrow> ddl_error + db_schema" where
  "downgrade_base revs = run_ddls (concat (map rv_downgrade (rev (chain revs None))))"

end
