(* ===== verification/Schema_Revisions.thy ===== *)
theory Schema_Revisions
  imports Migrations
begin

text \<open>
  The revisions of the four services, statement by statement: \<open>upgrade\<close> and \<open>downgrade\<close> of every file under
  \<open>services/*/migrations/versions\<close>, with the identifiers that chain them. The two statements that move data
  in \<open>decouple_global_users\<close> are named here and modelled in theory \<open>Schema_Correct\<close>.
\<close>

section \<open>The identity service\<close>

definition init_iam_upgrade :: "ddl list" where
  "init_iam_upgrade =
     [Create_table ''outbox''
       [col_default ''id'' Big_integer False ''IDENTITY'',
        col ''event_id'' Uuid_type False,
        col ''routing_key'' (Varchar (Some 120)) False,
        col ''payload'' Jsonb_type False,
        col_default ''created_at'' Timestamp_tz False ''now()'',
        col ''published_at'' Timestamp_tz True]
       [Primary_key [''id''],
        Unique_key None [''event_id'']],
      Create_index ''ix_schema_iam_outbox_created_at'' ''outbox'' [''created_at''] False None,
      Create_table ''signing_keys''
       [col ''kid'' (Varchar (Some 32)) False,
        col ''public_pem'' Text_type False,
        col ''private_ref'' (Varchar (Some 300)) False,
        col ''active'' Boolean_type False,
        col_default ''created_at'' Timestamp_tz False ''now()'',
        col ''retired_at'' Timestamp_tz True,
        col ''id'' Uuid_type False]
       [Primary_key [''id'']],
      Create_index ''ix_schema_iam_signing_keys_kid'' ''signing_keys'' [''kid''] True None,
      Create_table ''tenants''
       [col ''name'' (Varchar (Some 200)) False,
        col ''slug'' (Varchar (Some 80)) False,
        col ''description'' Text_type True,
        col ''status'' (Varchar (Some 20)) False,
        col ''id'' Uuid_type False,
        col_default ''created_at'' Timestamp_tz False ''now()'',
        col_default ''updated_at'' Timestamp_tz False ''now()'']
       [Primary_key [''id'']],
      Create_index ''ix_schema_iam_tenants_slug'' ''tenants'' [''slug''] True None,
      Create_table ''users''
       [col ''tenant_id'' Uuid_type False,
        col ''email'' (Varchar (Some 255)) False,
        col ''password_hash'' (Varchar (Some 255)) False,
        col ''full_name'' (Varchar (Some 200)) False,
        col ''phone'' (Varchar (Some 30)) True,
        col ''status'' (Varchar (Some 20)) False,
        col ''id'' Uuid_type False,
        col_default ''created_at'' Timestamp_tz False ''now()'',
        col_default ''updated_at'' Timestamp_tz False ''now()'']
       [Foreign_key [''tenant_id''] ''tenants'' [''id''] (Some ''CASCADE''),
        Primary_key [''id''],
        Unique_key (Some ''uq_users_tenant_email'') [''tenant_id'', ''email'']],
      Create_index ''ix_schema_iam_users_email'' ''users'' [''email''] False None,
      Create_index ''ix_schema_iam_users_tenant_id'' ''users'' [''tenant_id''] False None,
      Create_table ''refresh_tokens''
       [col ''user_id'' Uuid_type False,
        col ''token_hash'' (Varchar (Some 64)) False,
        col ''expires_at'' Timestamp_tz False,
        col ''rotated_from'' Uuid_type True,
        col ''revoked_at'' Timestamp_tz True,
        col ''id'' Uuid_type False,
        col_default ''created_at'' Timestamp_tz False ''now()'',
        col_default ''updated_at'' Timestamp_tz False ''now()'']
       [Foreign_key [''user_id''] ''users'' [''id''] (Some ''CASCADE''),
        Primary_key [''id''],
        Unique_key None [''token_hash'']],
      Create_index ''ix_schema_iam_refresh_tokens_user_id'' ''refresh_tokens'' [''user_id''] False None,
      Create_table ''role_assignments''
       [col ''tenant_id'' Uuid_type False,
        col ''user_id'' Uuid_type False,
        col ''role'' (Varchar (Some 30)) False,
        col ''granted_by'' Uuid_type True,
        col ''id'' Uuid_type False]
       [Foreign_key [''user_id''] ''users'' [''id''] (Some ''CASCADE''),
        Primary_key [''id''],
        Unique_key (Some ''uq_role_assignments_user_role'') [''user_id'', ''role'']],
      Create_index ''ix_schema_iam_role_assignments_tenant_id'' ''role_assignments'' [''tenant_id''] False None,
      Create_index ''ix_schema_iam_role_assignments_user_id'' ''role_assignments'' [''user_id''] False None]"

definition init_iam_downgrade :: "ddl list" where
  "init_iam_downgrade =
     [Drop_index ''ix_schema_iam_role_assignments_user_id'',
      Drop_index ''ix_schema_iam_role_assignments_tenant_id'',
      Drop_table ''role_assignments'',
      Drop_index ''ix_schema_iam_refresh_tokens_user_id'',
      Drop_table ''refresh_tokens'',
      Drop_index ''ix_schema_iam_users_tenant_id'',
      Drop_index ''ix_schema_iam_users_email'',
      Drop_table ''users'',
      Drop_index ''ix_schema_iam_tenants_slug'',
      Drop_table ''tenants'',
      Drop_index ''ix_schema_iam_signing_keys_kid'',
      Drop_table ''signing_keys'',
      Drop_index ''ix_schema_iam_outbox_created_at'',
      Drop_table ''outbox'']"

definition init_iam :: revision where
  "init_iam = \<lparr>rv_id = ''91e8fdce8367'', rv_down = None, rv_upgrade = init_iam_upgrade, rv_downgrade = init_iam_downgrade\<rparr>"

definition decouple_global_users_upgrade :: "ddl list" where
  "decouple_global_users_upgrade =
     [Create_type ''user_type'' [''VOLUNTEER'', ''VICTIM'', ''DONATOR'', ''TENANT_ADMIN'', ''COORDINATOR''],
      Add_column ''users'' (col ''user_type'' (Enum_type ''user_type'' [''VOLUNTEER'', ''VICTIM'', ''DONATOR'', ''TENANT_ADMIN'', ''COORDINATOR'']) True),
      Execute ''UPDATE users SET user_type'',
      Alter_nullable ''users'' ''user_type'' False,
      Create_index ''ix_schema_iam_users_user_type'' ''users'' [''user_type''] False None,
      Alter_nullable ''users'' ''tenant_id'' True,
      Alter_nullable ''role_assignments'' ''tenant_id'' True,
      Create_index ''uq_users_global_email'' ''users'' [''email''] True (Some ''tenant_id IS NULL''),
      Create_check ''ck_users_type_tenancy'' ''users'' ''(user_type IN (TENANT_ADMIN, COORDINATOR)) = (tenant_id IS NOT NULL)'']"

definition decouple_global_users_downgrade :: "ddl list" where
  "decouple_global_users_downgrade =
     [Drop_constraint ''ck_users_type_tenancy'' ''users'',
      Drop_index ''uq_users_global_email'',
      Execute ''DELETE FROM schema_iam.role_assignments WHERE tenant_id IS NULL'',
      Execute ''DELETE FROM schema_iam.users WHERE tenant_id IS NULL'',
      Alter_nullable ''role_assignments'' ''tenant_id'' False,
      Alter_nullable ''users'' ''tenant_id'' False,
      Drop_index ''ix_schema_iam_users_user_type'',
      Drop_column ''users'' ''user_type'',
      Drop_type ''user_type'']"

definition decouple_global_users :: revision where
  "decouple_global_users = \<lparr>rv_id = ''a4c9d1e0b2f7'', rv_down = Some ''91e8fdce8367'', rv_upgrade = decouple_global_users_upgrade, rv_downgrade = decouple_global_users_downgrade\<rparr>"

definition add_super_admin_upgrade :: "ddl list" where
  "add_super_admin_upgrade =
     [Add_value ''user_type'' ''SUPER_ADMIN'']"

definition add_super_admin_downgrade :: "ddl list" where
  "add_super_admin_downgrade =
     []"

definition add_super_admin :: revision where
  "add_super_admin = \<lparr>rv_id = ''b7f3c2a1d9e0'', rv_down = Some ''a4c9d1e0b2f7'', rv_upgrade = add_super_admin_upgrade, rv_downgrade = add_super_admin_downgrade\<rparr>"

definition add_user_location_upgrade :: "ddl list" where
  "add_user_location_upgrade =
     [Add_column ''users'' (col ''latitude'' Float_type True),
      Add_column ''users'' (col ''longitude'' Float_type True),
      Add_column ''users'' (col ''assigned_tenant_id'' Uuid_type True)]"

definition add_user_location_downgrade :: "ddl list" where
  "add_user_location_downgrade =
     [Drop_column ''users'' ''assigned_tenant_id'',
      Drop_column ''users'' ''longitude'',
      Drop_column ''users'' ''latitude'']"

definition add_user_location :: revision where
  "add_user_location = \<lparr>rv_id = ''973b0daa5220'', rv_down = Some ''b7f3c2a1d9e0'', rv_upgrade = add_user_location_upgrade, rv_downgrade = add_user_location_downgrade\<rparr>"

definition iam_revisions :: "revision list" where
  "iam_revisions = [init_iam, decouple_global_users, add_super_admin, add_user_location]"

section \<open>The logistics service\<close>

definition init_logistics_upgrade :: "ddl list" where
  "init_logistics_upgrade =
     [Create_table ''outbox''
       [col_default ''id'' Big_integer False ''IDENTITY'',
        col ''event_id'' Uuid_type False,
        col ''routing_key'' (Varchar (Some 120)) False,
        col ''payload'' Jsonb_type False,
        col_default ''created_at'' Timestamp_tz False ''now()'',
        col ''published_at'' Timestamp_tz True]
       [Primary_key [''id''],
        Unique_key None [''event_id'']],
      Create_index ''ix_schema_logistics_outbox_created_at'' ''outbox'' [''created_at''] False None,
      Create_table ''processed_events''
       [col ''event_id'' Uuid_type False,
        col_default ''processed_at'' Timestamp_tz False ''now()'']
       [Primary_key [''event_id'']],
      Create_table ''resource_categories''
       [col ''name'' (Varchar (Some 150)) False,
        col ''description'' Text_type True,
        col ''unit'' (Varchar (Some 50)) False,
        col ''form_schema'' Jsonb_type True,
        col ''is_active'' Boolean_type False,
        col ''id'' Uuid_type False,
        col ''tenant_id'' Uuid_type False,
        col_default ''created_at'' Timestamp_tz False ''now()'',
        col_default ''updated_at'' Timestamp_tz False ''now()'']
       [Primary_key [''id'']],
      Create_index ''ix_schema_logistics_resource_categories_tenant_id'' ''resource_categories'' [''tenant_id''] False None,
      Create_table ''user_replicas''
       [col ''user_id'' Uuid_type False,
        col ''full_name'' (Varchar (Some 200)) False,
        col ''phone'' (Varchar (Some 30)) True,
        col ''roles'' (Array_type (Varchar (Some 30))) False,
        col ''is_active'' Boolean_type False,
        col ''source_updated_at'' Timestamp_tz False,
        col_default ''synced_at'' Timestamp_tz False ''now()'',
        col ''tenant_id'' Uuid_type False]
       [Primary_key [''user_id'']],
      Create_index ''ix_schema_logistics_user_replicas_tenant_id'' ''user_replicas'' [''tenant_id''] False None,
      Create_table ''volunteer_profiles''
       [col ''user_id'' Uuid_type False,
        col ''availability'' (Enum_type ''availability_status'' [''AVAILABLE'', ''BUSY'', ''OFFLINE'']) False,
        col ''area'' (Varchar (Some 200)) True,
        col ''latitude'' Float_type True,
        col ''longitude'' Float_type True,
        col ''id'' Uuid_type False,
        col ''tenant_id'' Uuid_type False,
        col_default ''created_at'' Timestamp_tz False ''now()'',
        col_default ''updated_at'' Timestamp_tz False ''now()'']
       [Primary_key [''id''],
        Unique_key None [''user_id'']],
      Create_index ''ix_schema_logistics_volunteer_profiles_tenant_id'' ''volunteer_profiles'' [''tenant_id''] False None,
      Create_table ''help_requests''
       [col ''requester_user_id'' Uuid_type True,
        col ''verified_by_user_id'' Uuid_type True,
        col ''requester_name'' (Varchar (Some 200)) True,
        col ''requester_phone'' (Varchar (Some 30)) True,
        col ''category_id'' Uuid_type False,
        col ''description'' Text_type False,
        col ''quantity_needed'' Integer_type False,
        col ''urgency'' (Enum_type ''urgency_level'' [''LOW'', ''MEDIUM'', ''HIGH'', ''CRITICAL'']) False,
        col ''status'' (Enum_type ''request_status'' [''PENDING'', ''VERIFIED'', ''APPROVED'', ''IN_PROGRESS'', ''FULFILLED'', ''REJECTED'', ''CANCELLED'']) False,
        col ''extra_fields'' Jsonb_type True,
        col ''area'' (Varchar (Some 200)) True,
        col ''latitude'' Float_type True,
        col ''longitude'' Float_type True,
        col ''is_sensitive'' Boolean_type False,
        col ''verified_at'' Timestamp_tz True,
        col ''fulfilled_at'' Timestamp_tz True,
        col ''id'' Uuid_type False,
        col ''tenant_id'' Uuid_type False,
        col_default ''created_at'' Timestamp_tz False ''now()'',
        col_default ''updated_at'' Timestamp_tz False ''now()'']
       [Foreign_key [''category_id''] ''resource_categories'' [''id''] (Some ''RESTRICT''),
        Primary_key [''id'']],
      Create_index ''ix_schema_logistics_help_requests_category_id'' ''help_requests'' [''category_id''] False None,
      Create_index ''ix_schema_logistics_help_requests_status'' ''help_requests'' [''status''] False None,
      Create_index ''ix_schema_logistics_help_requests_tenant_id'' ''help_requests'' [''tenant_id''] False None,
      Create_table ''inventory_items''
       [col ''category_id'' Uuid_type False,
        col ''name'' (Varchar (Some 200)) False,
        col ''quantity_total'' Integer_type False,
        col ''quantity_reserved'' Integer_type False,
        col ''status'' (Enum_type ''inventory_status'' [''AVAILABLE'', ''RESERVED'', ''DEPLETED'', ''EXPIRED'']) False,
        col ''expiry_date'' Date_type True,
        col ''storage_location'' (Varchar (Some 200)) True,
        col ''donor_name'' (Varchar (Some 200)) True,
        col ''id'' Uuid_type False,
        col ''tenant_id'' Uuid_type False,
        col_default ''created_at'' Timestamp_tz False ''now()'',
        col_default ''updated_at'' Timestamp_tz False ''now()'']
       [Foreign_key [''category_id''] ''resource_categories'' [''id''] (Some ''CASCADE''),
        Primary_key [''id'']],
      Create_index ''ix_schema_logistics_inventory_items_category_id'' ''inventory_items'' [''category_id''] False None,
      Create_index ''ix_schema_logistics_inventory_items_tenant_id'' ''inventory_items'' [''tenant_id''] False None,
      Create_table ''volunteer_skills''
       [col ''volunteer_id'' Uuid_type False,
        col ''skill'' (Varchar (Some 100)) False,
        col ''id'' Uuid_type False]
       [Foreign_key [''volunteer_id''] ''volunteer_profiles'' [''id''] (Some ''CASCADE''),
        Primary_key [''id'']],
      Create_index ''ix_schema_logistics_volunteer_skills_volunteer_id'' ''volunteer_skills'' [''volunteer_id''] False None,
      Create_table ''dispatch_tasks''
       [col ''request_id'' Uuid_type False,
        col ''volunteer_user_id'' Uuid_type False,
        col ''assigned_by_user_id'' Uuid_type True,
        col ''title'' (Varchar (Some 200)) False,
        col ''instructions'' Text_type True,
        col ''status'' (Enum_type ''task_status'' [''ASSIGNED'', ''ACCEPTED'', ''IN_PROGRESS'', ''COMPLETED'', ''DECLINED'', ''CANCELLED'']) False,
        col ''accepted_at'' Timestamp_tz True,
        col ''completed_at'' Timestamp_tz True,
        col ''id'' Uuid_type False,
        col ''tenant_id'' Uuid_type False,
        col_default ''created_at'' Timestamp_tz False ''now()'',
        col_default ''updated_at'' Timestamp_tz False ''now()'']
       [Foreign_key [''request_id''] ''help_requests'' [''id''] (Some ''CASCADE''),
        Primary_key [''id'']],
      Create_index ''ix_schema_logistics_dispatch_tasks_request_id'' ''dispatch_tasks'' [''request_id''] False None,
      Create_index ''ix_schema_logistics_dispatch_tasks_status'' ''dispatch_tasks'' [''status''] False None,
      Create_index ''ix_schema_logistics_dispatch_tasks_tenant_id'' ''dispatch_tasks'' [''tenant_id''] False None,
      Create_index ''ix_schema_logistics_dispatch_tasks_volunteer_user_id'' ''dispatch_tasks'' [''volunteer_user_id''] False None,
      Create_table ''resource_offers''
       [col ''donor_user_id'' Uuid_type True,
        col ''donor_name'' (Varchar (Some 200)) True,
        col ''donor_phone'' (Varchar (Some 30)) True,
        col ''category_id'' Uuid_type False,
        col ''description'' Text_type False,
        col ''quantity'' Integer_type False,
        col ''status'' (Enum_type ''offer_status'' [''PLEDGED'', ''ACCEPTED'', ''RECEIVED'', ''DECLINED'', ''WITHDRAWN'']) False,
        col ''extra_fields'' Jsonb_type True,
        col ''inventory_item_id'' Uuid_type True,
        col ''id'' Uuid_type False,
        col ''tenant_id'' Uuid_type False,
        col_default ''created_at'' Timestamp_tz False ''now()'',
        col_default ''updated_at'' Timestamp_tz False ''now()'']
       [Foreign_key [''category_id''] ''resource_categories'' [''id''] (Some ''RESTRICT''),
        Foreign_key [''inventory_item_id''] ''inventory_items'' [''id''] (Some ''SET NULL''),
        Primary_key [''id'']],
      Create_index ''ix_schema_logistics_resource_offers_category_id'' ''resource_offers'' [''category_id''] False None,
      Create_index ''ix_schema_logistics_resource_offers_status'' ''resource_offers'' [''status''] False None,
      Create_index ''ix_schema_logistics_resource_offers_tenant_id'' ''resource_offers'' [''tenant_id''] False None]"

definition init_logistics_downgrade :: "ddl list" where
  "init_logistics_downgrade =
     [Drop_index ''ix_schema_logistics_resource_offers_tenant_id'',
      Drop_index ''ix_schema_logistics_resource_offers_status'',
      Drop_index ''ix_schema_logistics_resource_offers_category_id'',
      Drop_table ''resource_offers'',
      Drop_index ''ix_schema_logistics_dispatch_tasks_volunteer_user_id'',
      Drop_index ''ix_schema_logistics_dispatch_tasks_tenant_id'',
      Drop_index ''ix_schema_logistics_dispatch_tasks_status'',
      Drop_index ''ix_schema_logistics_dispatch_tasks_request_id'',
      Drop_table ''dispatch_tasks'',
      Drop_index ''ix_schema_logistics_volunteer_skills_volunteer_id'',
      Drop_table ''volunteer_skills'',
      Drop_index ''ix_schema_logistics_inventory_items_tenant_id'',
      Drop_index ''ix_schema_logistics_inventory_items_category_id'',
      Drop_table ''inventory_items'',
      Drop_index ''ix_schema_logistics_help_requests_tenant_id'',
      Drop_index ''ix_schema_logistics_help_requests_status'',
      Drop_index ''ix_schema_logistics_help_requests_category_id'',
      Drop_table ''help_requests'',
      Drop_index ''ix_schema_logistics_volunteer_profiles_tenant_id'',
      Drop_table ''volunteer_profiles'',
      Drop_index ''ix_schema_logistics_user_replicas_tenant_id'',
      Drop_table ''user_replicas'',
      Drop_index ''ix_schema_logistics_resource_categories_tenant_id'',
      Drop_table ''resource_categories'',
      Drop_table ''processed_events'',
      Drop_index ''ix_schema_logistics_outbox_created_at'',
      Drop_table ''outbox'']"

definition init_logistics :: revision where
  "init_logistics = \<lparr>rv_id = ''ef9ee4c70bd9'', rv_down = None, rv_upgrade = init_logistics_upgrade, rv_downgrade = init_logistics_downgrade\<rparr>"

definition category_workflow_upgrade :: "ddl list" where
  "category_workflow_upgrade =
     [Add_column ''resource_categories'' (col ''workflow'' Jsonb_type True)]"

definition category_workflow_downgrade :: "ddl list" where
  "category_workflow_downgrade =
     [Drop_column ''resource_categories'' ''workflow'']"

definition category_workflow :: revision where
  "category_workflow = \<lparr>rv_id = ''b7c1d4e9a250'', rv_down = Some ''ef9ee4c70bd9'', rv_upgrade = category_workflow_upgrade, rv_downgrade = category_workflow_downgrade\<rparr>"

definition user_replica_global_upgrade :: "ddl list" where
  "user_replica_global_upgrade =
     [Alter_nullable ''user_replicas'' ''tenant_id'' True]"

definition user_replica_global_downgrade :: "ddl list" where
  "user_replica_global_downgrade =
     [Execute ''DELETE FROM schema_logistics.user_replicas WHERE tenant_id IS NULL'',
      Alter_nullable ''user_replicas'' ''tenant_id'' False]"

definition user_replica_global :: revision where
  "user_replica_global = \<lparr>rv_id = ''c3f8a1b6d742'', rv_down = Some ''b7c1d4e9a250'', rv_upgrade = user_replica_global_upgrade, rv_downgrade = user_replica_global_downgrade\<rparr>"

definition logistics_revisions :: "revision list" where
  "logistics_revisions = [init_logistics, category_workflow, user_replica_global]"

section \<open>The volunteer service\<close>

definition init_volunteer_upgrade :: "ddl list" where
  "init_volunteer_upgrade =
     [Create_table ''disaster_events''
       [col ''title'' (Varchar (Some 200)) False,
        col ''description'' Text_type True,
        col ''source_district'' (Varchar (Some 40)) False,
        col ''broadcast_type'' (Enum_type ''broadcast_type'' [''RADIUS_L1'', ''RADIUS_L2'', ''TARGETED'']) False,
        col ''target_districts'' Jsonb_type False,
        col ''status'' (Enum_type ''event_status'' [''DECLARED'', ''BROADCASTING'', ''TEAM_FORMED'', ''CLOSED'']) False,
        col ''created_by'' Uuid_type False,
        col ''id'' Uuid_type False,
        col ''tenant_id'' Uuid_type False,
        col_default ''created_at'' Timestamp_tz False ''now()'',
        col_default ''updated_at'' Timestamp_tz False ''now()'']
       [Primary_key [''id'']],
      Create_index ''ix_schema_volunteer_disaster_events_source_district'' ''disaster_events'' [''source_district''] False None,
      Create_index ''ix_schema_volunteer_disaster_events_status'' ''disaster_events'' [''status''] False None,
      Create_index ''ix_schema_volunteer_disaster_events_tenant_id'' ''disaster_events'' [''tenant_id''] False None,
      Create_table ''outbox''
       [col_default ''id'' Big_integer False ''IDENTITY'',
        col ''event_id'' Uuid_type False,
        col ''routing_key'' (Varchar (Some 120)) False,
        col ''payload'' Jsonb_type False,
        col_default ''created_at'' Timestamp_tz False ''now()'',
        col ''published_at'' Timestamp_tz True]
       [Primary_key [''id''],
        Unique_key None [''event_id'']],
      Create_index ''ix_schema_volunteer_outbox_created_at'' ''outbox'' [''created_at''] False None,
      Create_table ''processed_events''
       [col ''event_id'' Uuid_type False,
        col_default ''processed_at'' Timestamp_tz False ''now()'']
       [Primary_key [''event_id'']],
      Create_table ''volunteer_profiles''
       [col ''user_id'' Uuid_type False,
        col ''full_name'' (Varchar (Some 200)) False,
        col ''phone'' (Varchar (Some 30)) True,
        col ''is_active'' Boolean_type False,
        col ''base_district'' (Varchar (Some 40)) True,
        col ''city'' (Varchar (Some 120)) True,
        col ''available_status'' Boolean_type False,
        col ''skills'' Jsonb_type False,
        col ''id'' Uuid_type False,
        col_default ''created_at'' Timestamp_tz False ''now()'',
        col_default ''updated_at'' Timestamp_tz False ''now()'']
       [Primary_key [''id''],
        Unique_key None [''user_id'']],
      Create_index ''ix_schema_volunteer_volunteer_profiles_base_district'' ''volunteer_profiles'' [''base_district''] False None,
      Create_index ''ix_volunteer_profiles_matching'' ''volunteer_profiles'' [''base_district'', ''available_status''] False None,
      Create_index ''ix_volunteer_profiles_skills'' ''volunteer_profiles'' [''skills''] False None,
      Create_table ''event_requirements''
       [col ''event_id'' Uuid_type False,
        col ''skill'' (Varchar (Some 100)) False,
        col ''required_count'' Integer_type False,
        col ''filled_count'' Integer_type False,
        col ''status'' (Enum_type ''requirement_status'' [''OPEN'', ''FULFILLED'']) False,
        col ''id'' Uuid_type False,
        col_default ''created_at'' Timestamp_tz False ''now()'',
        col_default ''updated_at'' Timestamp_tz False ''now()'']
       [Check_constraint ''ck_event_requirements_bounds'' ''filled_count >= 0 AND filled_count <= required_count'',
        Check_constraint ''ck_event_requirements_positive'' ''required_count > 0'',
        Foreign_key [''event_id''] ''disaster_events'' [''id''] (Some ''CASCADE''),
        Primary_key [''id''],
        Unique_key (Some ''uq_event_requirements_event_skill'') [''event_id'', ''skill'']],
      Create_index ''ix_schema_volunteer_event_requirements_event_id'' ''event_requirements'' [''event_id''] False None,
      Create_table ''event_volunteer_mappings''
       [col ''event_id'' Uuid_type False,
        col ''requirement_id'' Uuid_type False,
        col ''volunteer_id'' Uuid_type False,
        col ''status'' (Enum_type ''assignment_status'' [''NOTIFIED'', ''ACCEPTED'', ''DECLINED'', ''REJECTED_FULL'', ''EN_ROUTE'', ''COMPLETED'']) False,
        col ''responded_at'' Timestamp_tz True,
        col ''id'' Uuid_type False,
        col_default ''created_at'' Timestamp_tz False ''now()'',
        col_default ''updated_at'' Timestamp_tz False ''now()'']
       [Foreign_key [''event_id''] ''disaster_events'' [''id''] (Some ''CASCADE''),
        Foreign_key [''requirement_id''] ''event_requirements'' [''id''] (Some ''CASCADE''),
        Foreign_key [''volunteer_id''] ''volunteer_profiles'' [''id''] (Some ''CASCADE''),
        Primary_key [''id''],
        Unique_key (Some ''uq_evm_event_volunteer'') [''event_id'', ''volunteer_id'']],
      Create_index ''ix_schema_volunteer_event_volunteer_mappings_event_id'' ''event_volunteer_mappings'' [''event_id''] False None,
      Create_index ''ix_schema_volunteer_event_volunteer_mappings_requirement_id'' ''event_volunteer_mappings'' [''requirement_id''] False None,
      Create_index ''ix_schema_volunteer_event_volunteer_mappings_status'' ''event_volunteer_mappings'' [''status''] False None,
      Create_index ''ix_schema_volunteer_event_volunteer_mappings_volunteer_id'' ''event_volunteer_mappings'' [''volunteer_id''] False None]"

definition init_volunteer_downgrade :: "ddl list" where
  "init_volunteer_downgrade =
     [Drop_index ''ix_schema_volunteer_event_volunteer_mappings_volunteer_id'',
      Drop_index ''ix_schema_volunteer_event_volunteer_mappings_status'',
      Drop_index ''ix_schema_volunteer_event_volunteer_mappings_requirement_id'',
      Drop_index ''ix_schema_volunteer_event_volunteer_mappings_event_id'',
      Drop_table ''event_volunteer_mappings'',
      Drop_index ''ix_schema_volunteer_event_requirements_event_id'',
      Drop_table ''event_requirements'',
      Drop_index ''ix_volunteer_profiles_skills'',
      Drop_index ''ix_volunteer_profiles_matching'',
      Drop_index ''ix_schema_volunteer_volunteer_profiles_base_district'',
      Drop_table ''volunteer_profiles'',
      Drop_table ''processed_events'',
      Drop_index ''ix_schema_volunteer_outbox_created_at'',
      Drop_table ''outbox'',
      Drop_index ''ix_schema_volunteer_disaster_events_tenant_id'',
      Drop_index ''ix_schema_volunteer_disaster_events_status'',
      Drop_index ''ix_schema_volunteer_disaster_events_source_district'',
      Drop_table ''disaster_events'']"

definition init_volunteer :: revision where
  "init_volunteer = \<lparr>rv_id = ''a70c2c6f2de0'', rv_down = None, rv_upgrade = init_volunteer_upgrade, rv_downgrade = init_volunteer_downgrade\<rparr>"

definition add_source_updated_at_upgrade :: "ddl list" where
  "add_source_updated_at_upgrade =
     [Add_column ''volunteer_profiles'' (col ''source_updated_at'' Timestamp_tz True)]"

definition add_source_updated_at_downgrade :: "ddl list" where
  "add_source_updated_at_downgrade =
     [Drop_column ''volunteer_profiles'' ''source_updated_at'']"

definition add_source_updated_at :: revision where
  "add_source_updated_at = \<lparr>rv_id = ''b81d3d7f3ef1'', rv_down = Some ''a70c2c6f2de0'', rv_upgrade = add_source_updated_at_upgrade, rv_downgrade = add_source_updated_at_downgrade\<rparr>"

definition add_reports_upgrade :: "ddl list" where
  "add_reports_upgrade =
     [Create_table ''volunteer_reports''
       [col ''id'' Uuid_type False,
        col ''volunteer_id'' Uuid_type False,
        col ''category'' (Varchar None) False,
        col ''severity'' (Varchar None) False,
        col ''district'' (Varchar None) False,
        col ''city'' (Varchar None) False,
        col ''description'' Text_type True,
        col ''image_url'' (Varchar None) True,
        col_default ''status'' (Varchar None) True ''PENDING'',
        col ''created_at'' Timestamp_tz True]
       [Primary_key [''id''],
        Foreign_key [''volunteer_id''] ''volunteer_profiles'' [''id''] None]]"

definition add_reports_downgrade :: "ddl list" where
  "add_reports_downgrade =
     [Drop_table ''volunteer_reports'']"

definition add_reports :: revision where
  "add_reports = \<lparr>rv_id = ''2890f7e11c81'', rv_down = Some ''b81d3d7f3ef1'', rv_upgrade = add_reports_upgrade, rv_downgrade = add_reports_downgrade\<rparr>"

definition add_event_location_upgrade :: "ddl list" where
  "add_event_location_upgrade =
     [Add_column ''disaster_events'' (col ''latitude'' Float_type True),
      Add_column ''disaster_events'' (col ''longitude'' Float_type True)]"

definition add_event_location_downgrade :: "ddl list" where
  "add_event_location_downgrade =
     [Drop_column ''disaster_events'' ''longitude'',
      Drop_column ''disaster_events'' ''latitude'']"

definition add_event_location :: revision where
  "add_event_location = \<lparr>rv_id = ''2a347900fcbc'', rv_down = Some ''2890f7e11c81'', rv_upgrade = add_event_location_upgrade, rv_downgrade = add_event_location_downgrade\<rparr>"

definition add_victim_request_upgrade :: "ddl list" where
  "add_victim_request_upgrade =
     [Alter_default ''volunteer_reports'' ''status'' None]"

definition add_victim_request_downgrade :: "ddl list" where
  "add_victim_request_downgrade =
     [Alter_default ''volunteer_reports'' ''status'' (Some ''PENDING'')]"

definition add_victim_request :: revision where
  "add_victim_request = \<lparr>rv_id = ''66875bc6d126'', rv_down = Some ''2a347900fcbc'', rv_upgrade = add_victim_request_upgrade, rv_downgrade = add_victim_request_downgrade\<rparr>"

definition volunteer_revisions :: "revision list" where
  "volunteer_revisions = [init_volunteer, add_source_updated_at, add_reports, add_event_location, add_victim_request]"

section \<open>The analytics service\<close>

definition init_analytics_upgrade :: "ddl list" where
  "init_analytics_upgrade =
     [Create_table ''analytics_categories''
       [col ''category_id'' Uuid_type False,
        col ''tenant_id'' Uuid_type False,
        col ''name'' (Varchar (Some 150)) False,
        col ''description'' Text_type True,
        col ''unit'' (Varchar (Some 50)) False,
        col ''is_active'' Boolean_type False,
        col ''updated_at'' Timestamp_tz True]
       [Primary_key [''category_id'']],
      Create_index ''ix_schema_analytics_analytics_categories_tenant_id'' ''analytics_categories'' [''tenant_id''] False None,
      Create_table ''analytics_inventory_items''
       [col ''item_id'' Uuid_type False,
        col ''tenant_id'' Uuid_type False,
        col ''category_id'' Uuid_type False,
        col ''name'' (Varchar (Some 200)) False,
        col ''quantity_total'' Integer_type False,
        col ''quantity_reserved'' Integer_type False,
        col ''quantity_available'' Integer_type False,
        col ''status'' (Varchar (Some 20)) False,
        col ''updated_at'' Timestamp_tz True]
       [Foreign_key [''category_id''] ''analytics_categories'' [''category_id''] None,
        Primary_key [''item_id'']],
      Create_index ''ix_schema_analytics_analytics_inventory_items_tenant_id'' ''analytics_inventory_items'' [''tenant_id''] False None,
      Create_index ''ix_schema_analytics_analytics_inventory_items_category_id'' ''analytics_inventory_items'' [''category_id''] False None,
      Create_table ''analytics_requests''
       [col ''request_id'' Uuid_type False,
        col ''tenant_id'' Uuid_type False,
        col ''category_id'' Uuid_type False,
        col ''quantity_needed'' Integer_type False,
        col ''status'' (Varchar (Some 20)) False,
        col ''urgency'' (Varchar (Some 20)) False,
        col ''updated_at'' Timestamp_tz True]
       [Primary_key [''request_id'']],
      Create_index ''ix_schema_analytics_analytics_requests_tenant_id'' ''analytics_requests'' [''tenant_id''] False None,
      Create_index ''ix_schema_analytics_analytics_requests_category_id'' ''analytics_requests'' [''category_id''] False None,
      Create_table ''processed_events''
       [col ''event_id'' Uuid_type False,
        col ''event_type'' (Varchar (Some 200)) False,
        col_default ''processed_at'' Timestamp_tz False ''now()'']
       [Primary_key [''event_id'']]]"

definition init_analytics_downgrade :: "ddl list" where
  "init_analytics_downgrade =
     [Drop_table ''analytics_requests'',
      Drop_table ''analytics_inventory_items'',
      Drop_table ''analytics_categories'',
      Drop_table ''processed_events'']"

definition init_analytics :: revision where
  "init_analytics = \<lparr>rv_id = ''a1c3e5f70001'', rv_down = None, rv_upgrade = init_analytics_upgrade, rv_downgrade = init_analytics_downgrade\<rparr>"

definition analytics_revisions :: "revision list" where
  "analytics_revisions = [init_analytics]"

end
