(* ===== verification/Schema_Models.thy ===== *)
theory Schema_Models
  imports Migrations
begin

text \<open>
  The tables the code of the services works with: the columns of every SQLAlchemy model under
  \<open>services/*/app/models\<close>, those inherited from the mixins of \<open>db/base.py\<close> included, with type and
  nullability; and the comparison of a list of models with a schema. An enumeration column stores the
  names of the Python members.
\<close>

record orm_table =
  om_table :: string
  om_columns :: "column list"

section \<open>Comparison\<close>

datatype mismatch =
    Missing_table string | Missing_column string string | Type_mismatch string string | Null_mismatch string string

text \<open>Types agree when they are the same; of an enumeration, when the schema has the type with the same members.\<close>

definition type_agrees :: "db_schema \<Rightarrow> col_type \<Rightarrow> col_type \<Rightarrow> bool" where
  "type_agrees s a b =
     (case (enum_of a, enum_of b) of
        (Some (n, vs), Some (m, _)) \<Rightarrow>
          n = m \<and> (case map_of (ds_types s) m of None \<Rightarrow> False | Some ws \<Rightarrow> set ws = set vs)
      | _ \<Rightarrow> a = b)"

definition column_diff :: "db_schema \<Rightarrow> table_def \<Rightarrow> column \<Rightarrow> mismatch list" where
  "column_diff s t c =
     (case row_get cl_name (cl_name c) (td_columns t) of
        None \<Rightarrow> [Missing_column (td_name t) (cl_name c)]
      | Some d \<Rightarrow>
          (if type_agrees s (cl_type c) (cl_type d) then [] else [Type_mismatch (td_name t) (cl_name c)]) @
          (if cl_nullable c = cl_nullable d then [] else [Null_mismatch (td_name t) (cl_name c)]))"

definition table_diff :: "db_schema \<Rightarrow> orm_table \<Rightarrow> mismatch list" where
  "table_diff s m =
     (case row_get td_name (om_table m) (ds_tables s) of
        None \<Rightarrow> [Missing_table (om_table m)]
      | Some t \<Rightarrow> concat (map (column_diff s t) (om_columns m)))"

definition schema_diff :: "orm_table list \<Rightarrow> db_schema \<Rightarrow> mismatch list" where
  "schema_diff ms s = concat (map (table_diff s) ms)"

section \<open>The identity service\<close>

definition iam_outbox_model :: orm_table where
  "iam_outbox_model = \<lparr>om_table = ''outbox'', om_columns =
     [col ''id'' Big_integer False,
      col ''event_id'' Uuid_type False,
      col ''routing_key'' (Varchar (Some 120)) False,
      col ''payload'' Jsonb_type False,
      col ''created_at'' Timestamp_tz False,
      col ''published_at'' Timestamp_tz True]\<rparr>"

definition iam_refresh_tokens_model :: orm_table where
  "iam_refresh_tokens_model = \<lparr>om_table = ''refresh_tokens'', om_columns =
     [col ''user_id'' Uuid_type False,
      col ''token_hash'' (Varchar (Some 64)) False,
      col ''expires_at'' Timestamp_tz False,
      col ''rotated_from'' Uuid_type True,
      col ''revoked_at'' Timestamp_tz True,
      col ''id'' Uuid_type False,
      col ''created_at'' Timestamp_tz False,
      col ''updated_at'' Timestamp_tz False]\<rparr>"

definition iam_signing_keys_model :: orm_table where
  "iam_signing_keys_model = \<lparr>om_table = ''signing_keys'', om_columns =
     [col ''kid'' (Varchar (Some 32)) False,
      col ''public_pem'' Text_type False,
      col ''private_ref'' (Varchar (Some 300)) False,
      col ''active'' Boolean_type False,
      col ''created_at'' Timestamp_tz False,
      col ''retired_at'' Timestamp_tz True,
      col ''id'' Uuid_type False]\<rparr>"

definition iam_tenants_model :: orm_table where
  "iam_tenants_model = \<lparr>om_table = ''tenants'', om_columns =
     [col ''name'' (Varchar (Some 200)) False,
      col ''slug'' (Varchar (Some 80)) False,
      col ''description'' Text_type True,
      col ''status'' (Varchar (Some 20)) False,
      col ''latitude'' Float_type True,
      col ''longitude'' Float_type True,
      col ''id'' Uuid_type False,
      col ''created_at'' Timestamp_tz False,
      col ''updated_at'' Timestamp_tz False]\<rparr>"

definition iam_users_model :: orm_table where
  "iam_users_model = \<lparr>om_table = ''users'', om_columns =
     [col ''tenant_id'' Uuid_type True,
      col ''user_type'' (Enum_type ''user_type'' [''SUPER_ADMIN'', ''VOLUNTEER'', ''VICTIM'', ''DONATOR'', ''TENANT_ADMIN'', ''COORDINATOR'']) False,
      col ''email'' (Varchar (Some 255)) False,
      col ''password_hash'' (Varchar (Some 255)) False,
      col ''full_name'' (Varchar (Some 200)) False,
      col ''phone'' (Varchar (Some 30)) True,
      col ''status'' (Varchar (Some 20)) False,
      col ''latitude'' Float_type True,
      col ''longitude'' Float_type True,
      col ''assigned_tenant_id'' Uuid_type True,
      col ''id'' Uuid_type False,
      col ''created_at'' Timestamp_tz False,
      col ''updated_at'' Timestamp_tz False]\<rparr>"

definition iam_role_assignments_model :: orm_table where
  "iam_role_assignments_model = \<lparr>om_table = ''role_assignments'', om_columns =
     [col ''tenant_id'' Uuid_type True,
      col ''user_id'' Uuid_type False,
      col ''role'' (Varchar (Some 30)) False,
      col ''granted_by'' Uuid_type True,
      col ''id'' Uuid_type False]\<rparr>"

definition iam_models :: "orm_table list" where
  "iam_models =
     [iam_outbox_model, iam_refresh_tokens_model, iam_signing_keys_model, iam_tenants_model, iam_users_model, iam_role_assignments_model]"

section \<open>The logistics service\<close>

definition logistics_disaster_alerts_model :: orm_table where
  "logistics_disaster_alerts_model = \<lparr>om_table = ''disaster_alerts'', om_columns =
     [col ''id'' Uuid_type False,
      col ''tenant_id'' Uuid_type False,
      col ''title'' (Varchar (Some 200)) False,
      col ''message'' Text_type False,
      col ''severity'' (Enum_type ''alert_severity'' [''HIGH'', ''MEDIUM'', ''LOW'']) False,
      col ''created_by'' Uuid_type False,
      col ''created_at'' Timestamp_tz False,
      col ''updated_at'' Timestamp_tz False]\<rparr>"

definition logistics_resource_offers_model :: orm_table where
  "logistics_resource_offers_model = \<lparr>om_table = ''resource_offers'', om_columns =
     [col ''donor_user_id'' Uuid_type True,
      col ''donor_name'' (Varchar (Some 200)) True,
      col ''donor_phone'' (Varchar (Some 30)) True,
      col ''category_id'' Uuid_type False,
      col ''description'' Text_type False,
      col ''quantity'' Integer_type False,
      col ''status'' (Enum_type ''offer_status'' [''PLEDGED'', ''ACCEPTED'', ''RECEIVED'', ''DECLINED'', ''WITHDRAWN'']) False,
      col ''extra_fields'' Jsonb_type True,
      col ''inventory_item_id'' Uuid_type True,
      col ''id'' Uuid_type False,
      col ''tenant_id'' Uuid_type False,
      col ''created_at'' Timestamp_tz False,
      col ''updated_at'' Timestamp_tz False]\<rparr>"

definition logistics_outbox_model :: orm_table where
  "logistics_outbox_model = \<lparr>om_table = ''outbox'', om_columns =
     [col ''id'' Big_integer False,
      col ''event_id'' Uuid_type False,
      col ''routing_key'' (Varchar (Some 120)) False,
      col ''payload'' Jsonb_type False,
      col ''created_at'' Timestamp_tz False,
      col ''published_at'' Timestamp_tz True]\<rparr>"

definition logistics_processed_events_model :: orm_table where
  "logistics_processed_events_model = \<lparr>om_table = ''processed_events'', om_columns =
     [col ''event_id'' Uuid_type False,
      col ''processed_at'' Timestamp_tz False]\<rparr>"

definition logistics_payment_donations_model :: orm_table where
  "logistics_payment_donations_model = \<lparr>om_table = ''payment_donations'', om_columns =
     [col ''donor_user_id'' Uuid_type False,
      col ''category_id'' Uuid_type False,
      col ''amount'' Float_type False,
      col ''currency'' (Varchar (Some 10)) False,
      col ''payhere_order_id'' (Varchar (Some 100)) False,
      col ''status'' (Enum_type ''payment_status'' [''PENDING'', ''SUCCESS'', ''FAILED'']) False,
      col ''quantity'' Integer_type False,
      col ''id'' Uuid_type False,
      col ''tenant_id'' Uuid_type False,
      col ''created_at'' Timestamp_tz False,
      col ''updated_at'' Timestamp_tz False]\<rparr>"

definition logistics_help_requests_model :: orm_table where
  "logistics_help_requests_model = \<lparr>om_table = ''help_requests'', om_columns =
     [col ''requester_user_id'' Uuid_type True,
      col ''verified_by_user_id'' Uuid_type True,
      col ''requester_name'' (Varchar (Some 200)) True,
      col ''requester_phone'' (Varchar (Some 30)) True,
      col ''category_id'' Uuid_type False,
      col ''description'' Text_type False,
      col ''quantity_needed'' Integer_type False,
      col ''urgency'' (Enum_type ''urgency_level'' [''LOW'', ''MEDIUM'', ''HIGH'', ''CRITICAL'']) False,
      col ''status'' (Enum_type ''request_status'' [''PENDING'', ''VERIFIED'', ''APPROVED'', ''IN_PROGRESS'', ''FULFILLED'', ''REJECTED'', ''CANCELLED'']) False,
      col ''extra_fields'' Jsonb_type True,
      col ''area'' (Varchar (Some 200)) True,
      col ''latitude'' Float_type True,
      col ''longitude'' Float_type True,
      col ''is_sensitive'' Boolean_type False,
      col ''verified_at'' Timestamp_tz True,
      col ''fulfilled_at'' Timestamp_tz True,
      col ''id'' Uuid_type False,
      col ''tenant_id'' Uuid_type False,
      col ''created_at'' Timestamp_tz False,
      col ''updated_at'' Timestamp_tz False]\<rparr>"

definition logistics_resource_categories_model :: orm_table where
  "logistics_resource_categories_model = \<lparr>om_table = ''resource_categories'', om_columns =
     [col ''name'' (Varchar (Some 150)) False,
      col ''description'' Text_type True,
      col ''unit'' (Varchar (Some 50)) False,
      col ''form_schema'' Jsonb_type True,
      col ''workflow'' Jsonb_type True,
      col ''is_active'' Boolean_type False,
      col ''id'' Uuid_type False,
      col ''tenant_id'' Uuid_type False,
      col ''created_at'' Timestamp_tz False,
      col ''updated_at'' Timestamp_tz False]\<rparr>"

definition logistics_inventory_items_model :: orm_table where
  "logistics_inventory_items_model = \<lparr>om_table = ''inventory_items'', om_columns =
     [col ''category_id'' Uuid_type False,
      col ''name'' (Varchar (Some 200)) False,
      col ''quantity_total'' Integer_type False,
      col ''quantity_reserved'' Integer_type False,
      col ''status'' (Enum_type ''inventory_status'' [''AVAILABLE'', ''RESERVED'', ''DEPLETED'', ''EXPIRED'']) False,
      col ''expiry_date'' Date_type True,
      col ''storage_location'' (Varchar (Some 200)) True,
      col ''donor_name'' (Varchar (Some 200)) True,
      col ''id'' Uuid_type False,
      col ''tenant_id'' Uuid_type False,
      col ''created_at'' Timestamp_tz False,
      col ''updated_at'' Timestamp_tz False]\<rparr>"

definition logistics_dispatch_tasks_model :: orm_table where
  "logistics_dispatch_tasks_model = \<lparr>om_table = ''dispatch_tasks'', om_columns =
     [col ''request_id'' Uuid_type False,
      col ''volunteer_user_id'' Uuid_type False,
      col ''assigned_by_user_id'' Uuid_type True,
      col ''title'' (Varchar (Some 200)) False,
      col ''instructions'' Text_type True,
      col ''status'' (Enum_type ''task_status'' [''ASSIGNED'', ''ACCEPTED'', ''IN_PROGRESS'', ''COMPLETED'', ''DECLINED'', ''CANCELLED'']) False,
      col ''accepted_at'' Timestamp_tz True,
      col ''completed_at'' Timestamp_tz True,
      col ''id'' Uuid_type False,
      col ''tenant_id'' Uuid_type False,
      col ''created_at'' Timestamp_tz False,
      col ''updated_at'' Timestamp_tz False]\<rparr>"

definition logistics_user_replicas_model :: orm_table where
  "logistics_user_replicas_model = \<lparr>om_table = ''user_replicas'', om_columns =
     [col ''user_id'' Uuid_type False,
      col ''tenant_id'' Uuid_type True,
      col ''full_name'' (Varchar (Some 200)) False,
      col ''phone'' (Varchar (Some 30)) True,
      col ''roles'' (Array_type (Varchar (Some 30))) False,
      col ''is_active'' Boolean_type False,
      col ''source_updated_at'' Timestamp_tz False,
      col ''synced_at'' Timestamp_tz False]\<rparr>"

definition logistics_volunteer_profiles_model :: orm_table where
  "logistics_volunteer_profiles_model = \<lparr>om_table = ''volunteer_profiles'', om_columns =
     [col ''user_id'' Uuid_type False,
      col ''availability'' (Enum_type ''availability_status'' [''AVAILABLE'', ''BUSY'', ''OFFLINE'']) False,
      col ''area'' (Varchar (Some 200)) True,
      col ''latitude'' Float_type True,
      col ''longitude'' Float_type True,
      col ''id'' Uuid_type False,
      col ''tenant_id'' Uuid_type False,
      col ''created_at'' Timestamp_tz False,
      col ''updated_at'' Timestamp_tz False]\<rparr>"

definition logistics_volunteer_skills_model :: orm_table where
  "logistics_volunteer_skills_model = \<lparr>om_table = ''volunteer_skills'', om_columns =
     [col ''volunteer_id'' Uuid_type False,
      col ''skill'' (Varchar (Some 100)) False,
      col ''id'' Uuid_type False]\<rparr>"

definition logistics_models :: "orm_table list" where
  "logistics_models =
     [logistics_disaster_alerts_model, logistics_resource_offers_model, logistics_outbox_model, logistics_processed_events_model, logistics_payment_donations_model, logistics_help_requests_model, logistics_resource_categories_model, logistics_inventory_items_model, logistics_dispatch_tasks_model, logistics_user_replicas_model, logistics_volunteer_profiles_model, logistics_volunteer_skills_model]"

section \<open>The volunteer service\<close>

definition volunteer_disaster_events_model :: orm_table where
  "volunteer_disaster_events_model = \<lparr>om_table = ''disaster_events'', om_columns =
     [col ''title'' (Varchar (Some 200)) False,
      col ''description'' Text_type True,
      col ''source_district'' (Varchar (Some 40)) False,
      col ''broadcast_type'' (Enum_type ''broadcast_type'' [''RADIUS_L1'', ''RADIUS_L2'', ''TARGETED'']) False,
      col ''target_districts'' Jsonb_type False,
      col ''status'' (Enum_type ''event_status'' [''DECLARED'', ''BROADCASTING'', ''TEAM_FORMED'', ''CLOSED'']) False,
      col ''created_by'' Uuid_type False,
      col ''latitude'' Float_type True,
      col ''longitude'' Float_type True,
      col ''id'' Uuid_type False,
      col ''tenant_id'' Uuid_type False,
      col ''created_at'' Timestamp_tz False,
      col ''updated_at'' Timestamp_tz False]\<rparr>"

definition volunteer_event_requirements_model :: orm_table where
  "volunteer_event_requirements_model = \<lparr>om_table = ''event_requirements'', om_columns =
     [col ''event_id'' Uuid_type False,
      col ''skill'' (Varchar (Some 100)) False,
      col ''required_count'' Integer_type False,
      col ''filled_count'' Integer_type False,
      col ''status'' (Enum_type ''requirement_status'' [''OPEN'', ''FULFILLED'']) False,
      col ''id'' Uuid_type False,
      col ''created_at'' Timestamp_tz False,
      col ''updated_at'' Timestamp_tz False]\<rparr>"

definition volunteer_event_volunteer_mappings_model :: orm_table where
  "volunteer_event_volunteer_mappings_model = \<lparr>om_table = ''event_volunteer_mappings'', om_columns =
     [col ''event_id'' Uuid_type False,
      col ''requirement_id'' Uuid_type False,
      col ''volunteer_id'' Uuid_type False,
      col ''status'' (Enum_type ''assignment_status'' [''NOTIFIED'', ''ACCEPTED'', ''DECLINED'', ''REJECTED_FULL'', ''EN_ROUTE'', ''COMPLETED'']) False,
      col ''responded_at'' Timestamp_tz True,
      col ''id'' Uuid_type False,
      col ''created_at'' Timestamp_tz False,
      col ''updated_at'' Timestamp_tz False]\<rparr>"

definition volunteer_outbox_model :: orm_table where
  "volunteer_outbox_model = \<lparr>om_table = ''outbox'', om_columns =
     [col ''id'' Big_integer False,
      col ''event_id'' Uuid_type False,
      col ''routing_key'' (Varchar (Some 120)) False,
      col ''payload'' Jsonb_type False,
      col ''created_at'' Timestamp_tz False,
      col ''published_at'' Timestamp_tz True]\<rparr>"

definition volunteer_processed_events_model :: orm_table where
  "volunteer_processed_events_model = \<lparr>om_table = ''processed_events'', om_columns =
     [col ''event_id'' Uuid_type False,
      col ''processed_at'' Timestamp_tz False]\<rparr>"

definition volunteer_volunteer_reports_model :: orm_table where
  "volunteer_volunteer_reports_model = \<lparr>om_table = ''volunteer_reports'', om_columns =
     [col ''id'' Uuid_type False,
      col ''volunteer_id'' Uuid_type False,
      col ''category'' (Varchar None) False,
      col ''severity'' (Varchar None) False,
      col ''district'' (Varchar None) False,
      col ''city'' (Varchar None) False,
      col ''description'' Text_type True,
      col ''image_url'' (Varchar None) True,
      col ''status'' (Varchar None) True,
      col ''created_at'' Timestamp_tz True]\<rparr>"

definition volunteer_victim_requests_model :: orm_table where
  "volunteer_victim_requests_model = \<lparr>om_table = ''victim_requests'', om_columns =
     [col ''id'' Uuid_type False,
      col ''victim_id'' Uuid_type True,
      col ''disaster_type'' (Varchar (Some 50)) False,
      col ''needs'' Jsonb_type False,
      col ''description'' Text_type True,
      col ''latitude'' Float_type True,
      col ''longitude'' Float_type True,
      col ''status'' (Varchar (Some 20)) False,
      col ''event_id'' Uuid_type True,
      col ''created_at'' Timestamp_tz False,
      col ''updated_at'' Timestamp_tz False]\<rparr>"

definition volunteer_volunteer_profiles_model :: orm_table where
  "volunteer_volunteer_profiles_model = \<lparr>om_table = ''volunteer_profiles'', om_columns =
     [col ''user_id'' Uuid_type False,
      col ''full_name'' (Varchar (Some 200)) False,
      col ''phone'' (Varchar (Some 30)) True,
      col ''is_active'' Boolean_type False,
      col ''source_updated_at'' Timestamp_tz True,
      col ''base_district'' (Varchar (Some 40)) True,
      col ''city'' (Varchar (Some 120)) True,
      col ''available_status'' Boolean_type False,
      col ''skills'' Jsonb_type False,
      col ''id'' Uuid_type False,
      col ''created_at'' Timestamp_tz False,
      col ''updated_at'' Timestamp_tz False]\<rparr>"

definition volunteer_models :: "orm_table list" where
  "volunteer_models =
     [volunteer_disaster_events_model, volunteer_event_requirements_model, volunteer_event_volunteer_mappings_model, volunteer_outbox_model, volunteer_processed_events_model, volunteer_volunteer_reports_model, volunteer_victim_requests_model, volunteer_volunteer_profiles_model]"

section \<open>The analytics service\<close>

definition analytics_analytics_categories_model :: orm_table where
  "analytics_analytics_categories_model = \<lparr>om_table = ''analytics_categories'', om_columns =
     [col ''category_id'' Uuid_type False,
      col ''tenant_id'' Uuid_type False,
      col ''name'' (Varchar (Some 150)) False,
      col ''description'' Text_type True,
      col ''unit'' (Varchar (Some 50)) False,
      col ''is_active'' Boolean_type False,
      col ''updated_at'' Timestamp_tz True]\<rparr>"

definition analytics_analytics_inventory_items_model :: orm_table where
  "analytics_analytics_inventory_items_model = \<lparr>om_table = ''analytics_inventory_items'', om_columns =
     [col ''item_id'' Uuid_type False,
      col ''tenant_id'' Uuid_type False,
      col ''category_id'' Uuid_type False,
      col ''name'' (Varchar (Some 200)) False,
      col ''quantity_total'' Integer_type False,
      col ''quantity_reserved'' Integer_type False,
      col ''quantity_available'' Integer_type False,
      col ''status'' (Varchar (Some 20)) False,
      col ''updated_at'' Timestamp_tz True]\<rparr>"

definition analytics_analytics_requests_model :: orm_table where
  "analytics_analytics_requests_model = \<lparr>om_table = ''analytics_requests'', om_columns =
     [col ''request_id'' Uuid_type False,
      col ''tenant_id'' Uuid_type False,
      col ''category_id'' Uuid_type False,
      col ''quantity_needed'' Integer_type False,
      col ''status'' (Varchar (Some 20)) False,
      col ''urgency'' (Varchar (Some 20)) False,
      col ''updated_at'' Timestamp_tz True]\<rparr>"

definition analytics_processed_events_model :: orm_table where
  "analytics_processed_events_model = \<lparr>om_table = ''processed_events'', om_columns =
     [col ''event_id'' Uuid_type False,
      col ''event_type'' (Varchar (Some 200)) False,
      col ''processed_at'' Timestamp_tz False]\<rparr>"

definition analytics_models :: "orm_table list" where
  "analytics_models =
     [analytics_analytics_categories_model, analytics_analytics_inventory_items_model, analytics_analytics_requests_model, analytics_processed_events_model]"

end
