(* ===== verification/Schema_Correct.thy ===== *)
theory Schema_Correct
  imports Schema_Revisions Schema_Models
begin

text \<open>
  What the migrations achieve: every statement keeps a schema well formed, the revisions of every service
  form one chain that runs from an empty schema to its head and back, and the head is compared with the
  tables the code works with.
\<close>

section \<open>Well-formed schemas\<close>

text \<open>No two relations and no two types have the same name; columns of a table are distinct; enumeration
  columns have their type; constraints and indexes are over columns of their table; foreign keys refer to
  keys.\<close>

definition table_ok :: "string set \<Rightarrow> table_def \<Rightarrow> bool" where
  "table_ok types t \<longleftrightarrow>
     distinct (column_names t) \<and>
     (\<forall>ty \<in> cl_type ` set (td_columns t). \<forall>n vs. enum_of ty = Some (n, vs) \<longrightarrow> n \<in> types) \<and>
     (\<forall>k \<in> set (td_constraints t). set (constraint_columns k) \<subseteq> set (column_names t)) \<and>
     (\<forall>x \<in> set (td_indexes t). set (ix_columns x) \<subseteq> set (column_names t))"

definition schema_ok :: "db_schema \<Rightarrow> bool" where
  "schema_ok s \<longleftrightarrow>
     distinct (relation_names s) \<and> distinct (map fst (ds_types s)) \<and> fks_ok s \<and>
     (\<forall>t \<in> set (ds_tables s). table_ok (fst ` set (ds_types s)) t)"

lemma schema_okI:
  "distinct (relation_names s) \<Longrightarrow> distinct (map fst (ds_types s)) \<Longrightarrow> fks_ok s \<Longrightarrow>
   (\<And>t. t \<in> set (ds_tables s) \<Longrightarrow> table_ok (fst ` set (ds_types s)) t) \<Longrightarrow> schema_ok s"
  by (simp add: schema_ok_def)

lemma schema_okD:
  assumes "schema_ok s"
  shows "distinct (relation_names s)" "distinct (map fst (ds_types s))" "fks_ok s"
    "t \<in> set (ds_tables s) \<Longrightarrow> table_ok (fst ` set (ds_types s)) t"
  using assms by (simp_all add: schema_ok_def)

lemma table_ok_mono: "table_ok A t \<Longrightarrow> A \<subseteq> B \<Longrightarrow> table_ok B t"
  by (auto simp: table_ok_def)

lemma table_ok_cong:
  assumes "column_names t' = column_names t" "cl_type ` set (td_columns t') = cl_type ` set (td_columns t)"
    and "set (map constraint_columns (td_constraints t')) \<subseteq> insert [] (set (map constraint_columns (td_constraints t)))"
    and "set (td_indexes t') \<subseteq> set (td_indexes t)" and "table_ok T t"
  shows "table_ok T t'"
proof -
  have "set (constraint_columns k) \<subseteq> set (column_names t)" if "k \<in> set (td_constraints t')" for k
  proof -
    have "constraint_columns k \<in> insert [] (constraint_columns ` set (td_constraints t))" using that assms(3) by auto
    then show ?thesis using assms(5) by (fastforce simp: table_ok_def)
  qed
  then show ?thesis
    unfolding table_ok_def assms(1,2) using assms(4) assms(5) [unfolded table_ok_def] by blast
qed

lemma table_ok_constraints:
  "table_ok T t \<Longrightarrow> table_ok T (t\<lparr>td_constraints := filter P (td_constraints t)\<rparr>)"
  "table_ok T t \<Longrightarrow> table_ok T (t\<lparr>td_constraints := td_constraints t @ [Check_constraint k cond]\<rparr>)"
  by (erule table_ok_cong [rotated 4], auto simp: column_names_def)+

subsection \<open>Names\<close>

lemma distinct_concat_shrink:
  assumes "distinct (concat (map g ts))"
    and "\<And>t. t \<in> set ts \<Longrightarrow> distinct (g t) \<Longrightarrow> distinct (g' t)" "\<And>t. t \<in> set ts \<Longrightarrow> set (g' t) \<subseteq> set (g t)"
  shows "distinct (concat (map g' ts))"
  using assms
proof (induction ts)
  case (Cons t ts)
  have "set (concat (map g' ts)) \<subseteq> set (concat (map g ts))" using Cons.prems(3) by fastforce
  moreover have "set (g' t) \<subseteq> set (g t)" "distinct (g' t)" using Cons.prems by simp_all
  moreover have "distinct (concat (map g' ts))" using Cons by simp
  ultimately show ?case using Cons.prems(1) by auto
qed simp

lemma distinct_concat_filter: "distinct (concat (map g ts)) \<Longrightarrow> distinct (concat (map g (filter P ts)))"
  by (induction ts) auto

lemma distinct_table_names: "distinct (relation_names s) \<Longrightarrow> distinct (map td_name (ds_tables s))"
proof -
  have "distinct (concat (map (\<lambda>t. [td_name t]) ts))"
    if "distinct (concat (map (\<lambda>t. td_name t # map ix_name (td_indexes t)) ts))" for ts
    using that by (rule distinct_concat_shrink) auto
  then show "distinct (relation_names s) \<Longrightarrow> distinct (map td_name (ds_tables s))"
    by (simp add: relation_names_def)
qed

text \<open>Putting a new name into one table.\<close>

lemma distinct_concat_insert:
  assumes "distinct (concat (map g ts))" "i \<notin> set (concat (map g ts))" "distinct (map td_name ts)"
    and "\<And>t. t \<in> set ts \<Longrightarrow> g (f t) = g t @ [i]"
  shows "distinct (concat (map g (row_upd (\<lambda>t. td_name t = n) f ts)))"
  using assms
proof (induction ts)
  case (Cons t ts)
  have sub: "set (concat (map g (row_upd (\<lambda>t. td_name t = n) f ts))) \<subseteq> insert i (set (concat (map g ts)))"
    using Cons.prems(4) by (auto simp: set_row_upd split: if_splits)
  show ?case
  proof (cases "td_name t = n")
    case True
    then have "row_upd (\<lambda>t. td_name t = n) f ts = ts"
      using Cons.prems(3) by (intro row_upd_none) (metis distinct.simps(2) image_eqI list.set_map list.simps(9))
    then show ?thesis using Cons.prems True by auto
  next
    case False
    then have "distinct (concat (map g (row_upd (\<lambda>t. td_name t = n) f ts)))" using Cons by simp
    then show ?thesis using False sub Cons.prems(1,2) by auto
  qed
qed simp

lemma relation_names_put_same:
  "(\<And>t. td_name (f t) = td_name t \<and> td_indexes (f t) = td_indexes t) \<Longrightarrow>
   relation_names (put_table n f s) = relation_names s"
proof -
  assume f: "\<And>t. td_name (f t) = td_name t \<and> td_indexes (f t) = td_indexes t"
  have "map (\<lambda>t. td_name t # map ix_name (td_indexes t)) (row_upd (\<lambda>t. td_name t = n) f ts) =
      map (\<lambda>t. td_name t # map ix_name (td_indexes t)) ts" for ts
    using f by (induction ts) simp_all
  then show ?thesis by (simp add: relation_names_def put_table_def)
qed

lemma relation_names_put_fewer:
  assumes "distinct (relation_names s)"
    and "\<And>t. td_name (f t) = td_name t \<and> (\<exists>P. td_indexes (f t) = filter P (td_indexes t))"
  shows "distinct (relation_names (put_table n f s))"
proof -
  have "concat (map (\<lambda>t. td_name t # map ix_name (td_indexes t)) (row_upd (\<lambda>t. td_name t = n) f (ds_tables s))) =
      concat (map (\<lambda>t. td_name t # map ix_name (td_indexes (if td_name t = n then f t else t))) (ds_tables s))"
    using assms(2) by (simp add: row_upd_def comp_def if_distrib cong: if_cong)
  moreover have "distinct (concat (map (\<lambda>t. td_name t # map ix_name (td_indexes (if td_name t = n then f t else t))) (ds_tables s)))"
    using assms(1) unfolding relation_names_def
  proof (rule distinct_concat_shrink)
    fix t :: table_def
    assume d: "distinct (td_name t # map ix_name (td_indexes t))"
    obtain P where "td_indexes (f t) = filter P (td_indexes t)" using assms(2) by blast
    then show "distinct (td_name t # map ix_name (td_indexes (if td_name t = n then f t else t)))"
      using d by (auto simp: distinct_map inj_on_def)
  next
    fix t :: table_def
    obtain P where "td_indexes (f t) = filter P (td_indexes t)" using assms(2) by blast
    then show "set (td_name t # map ix_name (td_indexes (if td_name t = n then f t else t))) \<subseteq> set (td_name t # map ix_name (td_indexes t))"
      by auto
  qed
  ultimately show ?thesis by (simp add: relation_names_def put_table_def)
qed

subsection \<open>Foreign keys\<close>

text \<open>A table update that keeps the name and the constraints keeps the foreign keys.\<close>

lemma row_get_put_table:
  "(\<And>t. td_name (f t) = td_name t) \<Longrightarrow>
   row_get td_name m (ds_tables (put_table n f s)) =
     map_option (\<lambda>t. if td_name t = n then f t else t) (row_get td_name m (ds_tables s))"
  by (simp add: put_table_def row_get_row_upd)

lemma fk_ok_mono:
  assumes "fk_ok s k" "\<And>n t cs. row_get td_name n (ds_tables s) = Some t \<Longrightarrow> is_key cs t \<Longrightarrow>
    \<exists>t'. row_get td_name n (ds_tables s') = Some t' \<and> is_key cs t'"
  shows "fk_ok s' k"
proof (cases k)
  case (Foreign_key cs rt rcs d)
  then obtain t where "row_get td_name rt (ds_tables s) = Some t" "is_key rcs t" using assms(1) by (auto split: option.splits)
  from assms(2) [OF this] show ?thesis by (auto simp: Foreign_key)
qed simp_all

lemma fks_ok_put:
  assumes "fks_ok s" "\<And>t. td_name (f t) = td_name t"
    and "\<And>t. \<exists>ks. td_constraints (f t) = td_constraints t @ ks \<and> (\<forall>s. list_all (fk_ok s) ks)"
  shows "fks_ok (put_table n f s)"
proof -
  have "fk_ok (put_table n f s) k" if "fk_ok s k" for k
    using that
  proof (rule fk_ok_mono)
    fix m t cs
    assume "row_get td_name m (ds_tables s) = Some t" "is_key cs t"
    moreover have "is_key cs (f t)" if "is_key cs t"
      using that assms(3) [of t] by (auto simp: is_key_def)
    ultimately show "\<exists>t'. row_get td_name m (ds_tables (put_table n f s)) = Some t' \<and> is_key cs t'"
      by (auto simp: row_get_put_table assms(2))
  qed
  moreover have "list_all (fk_ok (put_table n f s)) (td_constraints t')" if t': "t' \<in> set (ds_tables (put_table n f s))" for t'
  proof -
    obtain t where t: "t \<in> set (ds_tables s)" "t' = (if td_name t = n then f t else t)"
      using t' by (auto simp: put_table_def set_row_upd)
    then have "list_all (fk_ok s) (td_constraints t)" using assms(1) by (auto simp: fks_ok_def list_all_iff)
    then show ?thesis using t(2) calculation assms(3) [of t] by (auto simp: list_all_iff)
  qed
  ultimately show ?thesis by (simp add: fks_ok_def list_all_iff)
qed


subsection \<open>Every statement keeps a schema well formed\<close>

lemma create_types_grow:
  "create_types cs ts = Inr ts' \<Longrightarrow> distinct (map fst ts) \<Longrightarrow>
   distinct (map fst ts') \<and> fst ` set ts \<subseteq> fst ` set ts' \<and>
   (\<forall>c \<in> set cs. \<forall>n vs. enum_of (cl_type c) = Some (n, vs) \<longrightarrow> n \<in> fst ` set ts')"
proof (induction cs arbitrary: ts)
  case (Cons c cs)
  show ?case
  proof (cases "enum_of (cl_type c)")
    case None
    then show ?thesis using Cons by auto
  next
    case (Some e)
    obtain n vs where e: "e = (n, vs)" by (cases e)
    have new: "n \<notin> fst ` set ts" and rest: "create_types cs (ts @ [(n, vs)]) = Inr ts'"
      using Cons.prems(1) by (auto simp: Some e split: if_splits)
    have "distinct (map fst ts') \<and> fst ` set (ts @ [(n, vs)]) \<subseteq> fst ` set ts' \<and>
        (\<forall>c \<in> set cs. \<forall>n vs. enum_of (cl_type c) = Some (n, vs) \<longrightarrow> n \<in> fst ` set ts')"
      using new Cons.prems(2) by (intro Cons.IH [OF rest]) simp
    then show ?thesis by (simp add: Some e)
  qed
qed simp

lemma with_table_Inr:
  "with_table n s f = Inr s' \<longleftrightarrow> (\<exists>t. row_get td_name n (ds_tables s) = Some t \<and> f t = Inr s')"
  by (auto simp: with_table_def split: option.splits)

lemma unless_needed_Inr: "unless_needed n s = Inr s' \<longleftrightarrow> s' = s \<and> fks_ok s"
  by (auto simp: unless_needed_def)

lemma put_table_ok:
  assumes "schema_ok s" "distinct (relation_names (put_table n f s))" "fks_ok (put_table n f s)"
    and "\<And>t. t \<in> set (ds_tables s) \<Longrightarrow> td_name t = n \<Longrightarrow> table_ok (fst ` set (ds_types s)) t \<Longrightarrow> table_ok (fst ` set (ds_types s)) (f t)"
  shows "schema_ok (put_table n f s)"
proof (rule schema_okI)
  fix t'
  assume "t' \<in> set (ds_tables (put_table n f s))"
  then obtain t where "t \<in> set (ds_tables s)" "t' = (if td_name t = n then f t else t)"
    by (auto simp: put_table_def set_row_upd)
  then show "table_ok (fst ` set (ds_types (put_table n f s))) t'"
    using assms(4) schema_okD(4) [OF assms(1)] by (auto simp: put_table_def)
qed (use assms schema_okD(2) [OF assms(1)] in \<open>simp_all add: put_table_def\<close>)

lemma put_column_ok:
  assumes "schema_ok s" "\<And>c. cl_name (f c) = cl_name c \<and> cl_type (f c) = cl_type c"
  shows "schema_ok (put_table n (put_column k f) s)"
proof (rule put_table_ok [OF assms(1)])
  have same: "td_name (put_column k f t) = td_name t" "td_indexes (put_column k f t) = td_indexes t"
    "td_constraints (put_column k f t) = td_constraints t" for t
    by (simp_all add: put_column_def)
  show "distinct (relation_names (put_table n (put_column k f) s))"
    using schema_okD(1) [OF assms(1)] by (simp add: relation_names_put_same same)
  show "fks_ok (put_table n (put_column k f) s)"
    using schema_okD(3) [OF assms(1)] by (rule fks_ok_put) (simp_all add: same)
  fix t
  assume "table_ok (fst ` set (ds_types s)) t"
  moreover have "column_names (put_column k f t) = column_names t"
    using assms(2) by (simp add: column_names_def put_column_def map_key_row_upd)
  moreover have "cl_type ` set (td_columns (put_column k f t)) = cl_type ` set (td_columns t)"
    using assms(2) by (simp add: put_column_def image_key_row_upd)
  ultimately show "table_ok (fst ` set (ds_types s)) (put_column k f t)"
    by (intro table_ok_cong [of "put_column k f t" t]) (simp_all only: same, auto)
qed

lemma create_table_ok:
  assumes "schema_ok s" "run_ddl (Create_table n cs ks) s = Inr s'"
  shows "schema_ok s'"
proof -
  let ?t = "\<lparr>td_name = n, td_columns = cs, td_constraints = ks, td_indexes = []\<rparr>"
  obtain ts where ts: "create_types cs (ds_types s) = Inr ts"
    and s': "s' = s\<lparr>ds_tables := ds_tables s @ [?t], ds_types := ts\<rparr>" "fks_ok s'"
    and g: "n \<notin> set (relation_names s)" "distinct (map cl_name cs)"
      "list_all (\<lambda>k. list_all (\<lambda>c. c \<in> set (map cl_name cs)) (constraint_columns k)) ks"
    using assms(2) by (auto simp: andthen_Inr Let_def split: if_splits)
  have grow: "distinct (map fst ts)" "fst ` set (ds_types s) \<subseteq> fst ` set ts"
    "\<forall>c \<in> set cs. \<forall>n vs. enum_of (cl_type c) = Some (n, vs) \<longrightarrow> n \<in> fst ` set ts"
    using create_types_grow [OF ts schema_okD(2) [OF assms(1)]] by auto
  have "table_ok (fst ` set ts) ?t"
    using g(2,3) grow(3) by (auto simp: table_ok_def column_names_def list_all_iff)
  moreover have "table_ok (fst ` set ts) t" if "t \<in> set (ds_tables s)" for t
    using schema_okD(4) [OF assms(1) that] grow(2) by (rule table_ok_mono)
  moreover have "distinct (relation_names s')"
    using schema_okD(1) [OF assms(1)] g(1) by (simp add: s'(1) relation_names_def)
  ultimately show ?thesis using s'(2) grow(1) by (auto simp: s'(1) intro!: schema_okI)
qed

lemma fewer_ok:
  assumes "schema_ok s" "fks_ok (put_table n f s)"
    and "\<And>t. td_name (f t) = td_name t" "\<And>t. \<exists>P. td_indexes (f t) = filter P (td_indexes t)"
    and "\<And>t. table_ok (fst ` set (ds_types s)) t \<Longrightarrow> table_ok (fst ` set (ds_types s)) (f t)"
  shows "schema_ok (put_table n f s)"
  using assms(3-5)
  by (intro put_table_ok [OF assms(1) _ assms(2)] relation_names_put_fewer [OF schema_okD(1) [OF assms(1)]]) auto

lemma constraint_columns_uses: "c \<in> set (constraint_columns k) \<Longrightarrow> constraint_uses c k"
  by (cases k) auto

lemma drop_column_table_ok:
  assumes "table_ok T t"
  shows "table_ok T (t\<lparr>td_columns := filter (\<lambda>x. cl_name x \<noteq> c) (td_columns t),
    td_constraints := filter (\<lambda>k. \<not> constraint_uses c k) (td_constraints t),
    td_indexes := filter (\<lambda>x. \<not> index_uses c x) (td_indexes t)\<rparr>)" (is "table_ok T ?t")
proof -
  have names: "column_names ?t = filter (\<lambda>x. x \<noteq> c) (column_names t)"
    by (simp add: column_names_def filter_map comp_def)
  show ?thesis
    using assms constraint_columns_uses [of c] unfolding table_ok_def names
    by (fastforce simp: index_uses_def)
qed


lemma create_index_ok:
  assumes "schema_ok s" "run_ddl (Create_index i n cs u w) s = Inr s'"
  shows "schema_ok s'"
proof -
  let ?f = "\<lambda>t :: table_def. t\<lparr>td_indexes := td_indexes t @ [\<lparr>ix_name = i, ix_columns = cs, ix_unique = u, ix_where = w\<rparr>]\<rparr>"
  obtain t where t: "row_get td_name n (ds_tables s) = Some t" "i \<notin> set (relation_names s)"
      "list_all (\<lambda>c. c \<in> set (column_names t)) cs" and s': "s' = put_table n ?f s"
    using assms(2) by (auto simp: with_table_Inr split: if_splits)
  have dn: "distinct (map td_name (ds_tables s))" using distinct_table_names schema_okD(1) [OF assms(1)] by blast
  have "distinct (relation_names (put_table n ?f s))"
    using distinct_concat_insert [of "\<lambda>t. td_name t # map ix_name (td_indexes t)" "ds_tables s" i ?f n]
      schema_okD(1) [OF assms(1)] t(2) dn by (simp add: relation_names_def put_table_def)
  moreover have "fks_ok (put_table n ?f s)" using schema_okD(3) [OF assms(1)] by (rule fks_ok_put) simp_all
  moreover have "table_ok T (?f t')" if "t' \<in> set (ds_tables s)" "td_name t' = n" "table_ok T t'" for t' T
  proof -
    have "t' = t" using t(1) that(2) row_get_member [OF that(1) dn] by simp
    then show ?thesis using that(3) t(3) by (auto simp: table_ok_def column_names_def list_all_iff)
  qed
  ultimately show ?thesis unfolding s' by (intro put_table_ok [OF assms(1)])
qed

lemma drop_index_ok:
  assumes "schema_ok s" "run_ddl (Drop_index i) s = Inr s'"
  shows "schema_ok s'"
proof (rule schema_okI)
  let ?f = "\<lambda>t :: table_def. t\<lparr>td_indexes := filter (\<lambda>x. ix_name x \<noteq> i) (td_indexes t)\<rparr>"
  have s': "s' = s\<lparr>ds_tables := map ?f (ds_tables s)\<rparr>" using assms(2) by (simp split: if_splits)
  show "distinct (relation_names s')"
    using schema_okD(1) [OF assms(1)] unfolding relation_names_def s'
    by (simp add: comp_def) (erule distinct_concat_shrink, auto simp: distinct_map inj_on_def)
  have "map td_name (map ?f ts) = map td_name ts" for ts by simp
  have get: "row_get td_name m (map ?f ts) = map_option ?f (row_get td_name m ts)" for m ts
    by (induction ts) auto
  have "fk_ok s' k" if "fk_ok s k" for k
    using that by (rule fk_ok_mono) (auto simp: s' get is_key_def)
  then show "fks_ok s'" using schema_okD(3) [OF assms(1)] by (auto simp: fks_ok_def list_all_iff s')
  show "distinct (map fst (ds_types s'))" using schema_okD(2) [OF assms(1)] by (simp add: s')
  fix t
  assume "t \<in> set (ds_tables s')"
  then obtain u where u: "u \<in> set (ds_tables s)" "t = ?f u" by (auto simp: s')
  have "table_ok (fst ` set (ds_types s)) (?f u)"
    by (rule table_ok_cong [OF _ _ _ _ schema_okD(4) [OF assms(1) u(1)]]) (auto simp: column_names_def)
  then show "table_ok (fst ` set (ds_types s')) t" by (simp add: s' u(2))
qed

lemma drop_table_ok:
  assumes "schema_ok s" "run_ddl (Drop_table n) s = Inr s'"
  shows "schema_ok s'"
proof -
  have s': "s' = s\<lparr>ds_tables := filter (\<lambda>t. td_name t \<noteq> n) (ds_tables s)\<rparr>" "fks_ok s'"
    using assms(2) by (auto simp: with_table_Inr unless_needed_Inr)
  have "distinct (relation_names s')"
    using schema_okD(1) [OF assms(1)] unfolding relation_names_def s'(1) by (simp add: distinct_concat_filter)
  then show ?thesis using s'(2) schema_okD(2,4) [OF assms(1)] by (auto simp: s'(1) intro!: schema_okI)
qed

lemma types_ok:
  assumes "schema_ok s" "distinct (map fst ts)"
    and "\<And>t. t \<in> set (ds_tables s) \<Longrightarrow> table_ok (fst ` set ts) t"
  shows "schema_ok (s\<lparr>ds_types := ts\<rparr>)"
proof (rule schema_okI)
  have "fk_ok (s\<lparr>ds_types := ts\<rparr>) = fk_ok s" by (rule ext, rename_tac k, case_tac k) simp_all
  then show "fks_ok (s\<lparr>ds_types := ts\<rparr>)" using schema_okD(3) [OF assms(1)] by (simp add: fks_ok_def)
qed (use assms schema_okD(1) [OF assms(1)] in \<open>simp_all add: relation_names_def\<close>)

lemma drop_type_ok:
  assumes "schema_ok s" "run_ddl (Drop_type n) s = Inr s'"
  shows "schema_ok s'"
proof -
  let ?ts = "filter (\<lambda>(m, _). m \<noteq> n) (ds_types s)"
  have s': "s' = s\<lparr>ds_types := ?ts\<rparr>" and unused: "\<not> list_ex (uses_type n) (ds_tables s)"
    using assms(2) by (auto split: if_splits)
  have "distinct (map fst ?ts)"
    using schema_okD(2) [OF assms(1)] by (auto simp: distinct_map inj_on_def)
  moreover have "table_ok (fst ` set ?ts) t" if "t \<in> set (ds_tables s)" for t
  proof -
    have "\<forall>ty \<in> cl_type ` set (td_columns t). \<forall>vs. enum_of ty \<noteq> Some (n, vs)"
      using unused that by (force simp: list_ex_iff uses_type_def split: option.splits)
    then show ?thesis using schema_okD(4) [OF assms(1) that] by (fastforce simp: table_ok_def)
  qed
  ultimately show ?thesis unfolding s' by (rule types_ok [OF assms(1)])
qed

lemma add_value_ok:
  assumes "schema_ok s" "run_ddl (Add_value n v) s = Inr s'"
  shows "schema_ok s'"
proof -
  let ?ts = "map (\<lambda>(m, vs). (m, if m = n \<and> v \<notin> set vs then vs @ [v] else vs)) (ds_types s)"
  have s': "s' = s\<lparr>ds_types := ?ts\<rparr>" using assms(2) by (simp split: if_splits)
  have names: "map fst ?ts = map fst (ds_types s)" by (simp add: comp_def case_prod_beta)
  then have "fst ` set ?ts = fst ` set (ds_types s)" by (metis list.set_map)
  then have "table_ok (fst ` set ?ts) t" if "t \<in> set (ds_tables s)" for t
    using schema_okD(4) [OF assms(1) that] by metis
  moreover have "distinct (map fst ?ts)" unfolding names by (rule schema_okD(2) [OF assms(1)])
  ultimately show ?thesis unfolding s' by (intro types_ok [OF assms(1)])
qed

lemma run_ddl_ok:
  assumes "schema_ok s" "run_ddl x s = Inr s'"
  shows "schema_ok s'"
proof (cases x)
  case (Add_column n c)
  let ?f = "\<lambda>t :: table_def. t\<lparr>td_columns := td_columns t @ [c]\<rparr>"
  obtain t where t: "row_get td_name n (ds_tables s) = Some t" "cl_name c \<notin> set (column_names t)"
      "\<forall>m vs. enum_of (cl_type c) = Some (m, vs) \<longrightarrow> m \<in> fst ` set (ds_types s)" and s': "s' = put_table n ?f s"
    using assms(2) by (auto simp: Add_column with_table_Inr split: if_splits option.splits)
  have dn: "distinct (map td_name (ds_tables s))" using distinct_table_names schema_okD(1) [OF assms(1)] by blast
  show ?thesis
    unfolding s'
  proof (rule put_table_ok [OF assms(1)])
    show "distinct (relation_names (put_table n ?f s))"
      using schema_okD(1) [OF assms(1)] by (simp add: relation_names_put_same)
    show "fks_ok (put_table n ?f s)" using schema_okD(3) [OF assms(1)] by (rule fks_ok_put) simp_all
    fix t' assume t': "t' \<in> set (ds_tables s)" "td_name t' = n" "table_ok (fst ` set (ds_types s)) t'"
    then have "t' = t" using t(1) row_get_member [OF t'(1) dn] by simp
    then show "table_ok (fst ` set (ds_types s)) (?f t')"
      using t'(3) t(2,3) by (auto simp: table_ok_def column_names_def)
  qed
next
  case (Drop_column n c)
  then show ?thesis using assms
    by (auto simp: with_table_Inr unless_needed_Inr split: if_splits intro!: fewer_ok drop_column_table_ok)
next
  case (Create_check k n cond)
  then obtain t where s': "s' = put_table n (\<lambda>t. t\<lparr>td_constraints := td_constraints t @ [Check_constraint k cond]\<rparr>) s"
    using assms(2) by (auto simp: with_table_Inr split: if_splits)
  show ?thesis unfolding s' using schema_okD(1,3) [OF assms(1)]
    by (intro put_table_ok [OF assms(1)] fks_ok_put)
      (auto simp: relation_names_put_same table_ok_constraints)
next
  case (Drop_constraint k n)
  then have s': "s' = put_table n (\<lambda>t. t\<lparr>td_constraints := filter (\<lambda>x. constraint_name x \<noteq> Some k) (td_constraints t)\<rparr>) s" "fks_ok s'"
    using assms(2) by (auto simp: with_table_Inr unless_needed_Inr split: if_splits)
  show ?thesis unfolding s'(1) using schema_okD(1) [OF assms(1)] s'(2)
    by (intro put_table_ok [OF assms(1)]) (auto simp: s'(1) relation_names_put_same table_ok_constraints)
next
  case (Create_type n vs)
  show ?thesis
  proof (cases "n \<in> set (map fst (ds_types s))")
    case False
    then have s': "s' = s\<lparr>ds_types := ds_types s @ [(n, vs)]\<rparr>" using assms(2) by (simp add: Create_type)
    show ?thesis unfolding s' using False schema_okD(2) [OF assms(1)] schema_okD(4) [OF assms(1)]
      by (intro types_ok [OF assms(1)]) (auto intro: table_ok_mono)
  qed (use assms in \<open>simp add: Create_type\<close>)
next
  case (Create_table n cs ks)
  with assms show ?thesis by (metis create_table_ok)
next
  case (Drop_table n)
  with assms show ?thesis by (metis drop_table_ok)
next
  case (Create_index i n cs u w)
  with assms show ?thesis by (metis create_index_ok)
next
  case (Drop_index i)
  with assms show ?thesis by (metis drop_index_ok)
next
  case (Drop_type n)
  with assms show ?thesis by (metis drop_type_ok)
next
  case (Add_value n v)
  with assms show ?thesis by (metis add_value_ok)
next
  case (Alter_nullable n c b)
  with assms(2) have "s' = put_table n (put_column c (\<lambda>x. x\<lparr>cl_nullable := b\<rparr>)) s" by (auto simp: with_table_Inr split: if_splits)
  with put_column_ok [OF assms(1)] show ?thesis by simp
next
  case (Alter_default n c d)
  with assms(2) have "s' = put_table n (put_column c (\<lambda>x. x\<lparr>cl_default := d\<rparr>)) s" by (auto simp: with_table_Inr split: if_splits)
  with put_column_ok [OF assms(1)] show ?thesis by simp
qed (use assms in simp)

lemma run_ddls_ok: "run_ddls xs s = Inr s' \<Longrightarrow> schema_ok s \<Longrightarrow> schema_ok s'"
  by (induction xs arbitrary: s) (auto simp: andthen_Inr run_ddl_ok)

lemma run_ddls_append: "run_ddls (xs @ ys) s = andthen (run_ddls xs s) (run_ddls ys)"
proof (induction xs arbitrary: s)
  case (Cons x xs)
  then show ?case by (cases "run_ddl x s") simp_all
qed simp


section \<open>Schemas and models\<close>

text \<open>A model agrees with a schema when its table is there with every column, of the same type and
  nullability.\<close>

definition model_agrees :: "db_schema \<Rightarrow> orm_table \<Rightarrow> bool" where
  "model_agrees s m \<longleftrightarrow> (\<exists>t. row_get td_name (om_table m) (ds_tables s) = Some t \<and>
     (\<forall>c \<in> set (om_columns m). \<exists>d. row_get cl_name (cl_name c) (td_columns t) = Some d \<and>
        type_agrees s (cl_type c) (cl_type d) \<and> cl_nullable c = cl_nullable d))"

lemma table_diff_empty: "table_diff s m = [] \<longleftrightarrow> model_agrees s m"
proof -
  have "column_diff s t c = [] \<longleftrightarrow> (\<exists>d. row_get cl_name (cl_name c) (td_columns t) = Some d \<and>
      type_agrees s (cl_type c) (cl_type d) \<and> cl_nullable c = cl_nullable d)" for t c
    by (auto simp: column_diff_def split: option.splits)
  then show ?thesis by (auto simp: table_diff_def model_agrees_def split: option.splits)
qed

lemma schema_diff_empty: "schema_diff ms s = [] \<longleftrightarrow> (\<forall>m \<in> set ms. model_agrees s m)"
  by (auto simp: schema_diff_def table_diff_empty)

lemma empty_schema_ok: "schema_ok empty_schema"
  by (simp add: schema_ok_def empty_schema_def relation_names_def fks_ok_def)

lemma iam_head:
  "case upgrade_head iam_revisions empty_schema of
     Inr s \<Rightarrow> schema_diff iam_models s = [Missing_column ''tenants'' ''latitude'', Missing_column ''tenants'' ''longitude'']
   | Inl e \<Rightarrow> False"
  by code_simp

lemma logistics_head:
  "case upgrade_head logistics_revisions empty_schema of
     Inr s \<Rightarrow> schema_diff logistics_models s = [Missing_table ''disaster_alerts'', Missing_table ''payment_donations'']
   | Inl e \<Rightarrow> False"
  by code_simp

lemma volunteer_head:
  "case upgrade_head volunteer_revisions empty_schema of
     Inr s \<Rightarrow> schema_diff volunteer_models s = [Missing_table ''victim_requests'']
   | Inl e \<Rightarrow> False"
  by code_simp

lemma analytics_head:
  "case upgrade_head analytics_revisions empty_schema of
     Inr s \<Rightarrow> schema_diff analytics_models s = []
   | Inl e \<Rightarrow> False"
  by code_simp

lemma iam_round_trip:
  "andthen (upgrade_head iam_revisions empty_schema) (downgrade_base iam_revisions) = Inr empty_schema"
  by code_simp

lemma analytics_round_trip:
  "andthen (upgrade_head analytics_revisions empty_schema) (downgrade_base analytics_revisions) = Inr empty_schema"
  by code_simp

lemma logistics_base:
  "map_sum id ds_tables (andthen (upgrade_head logistics_revisions empty_schema) (downgrade_base logistics_revisions)) = Inr []"
  by code_simp

lemma logistics_again:
  "andthen (andthen (upgrade_head logistics_revisions empty_schema) (downgrade_base logistics_revisions))
     (upgrade_head logistics_revisions) = Inl (DuplicateObject ''availability_status'')"
  by code_simp

lemma volunteer_base:
  "map_sum id ds_tables (andthen (upgrade_head volunteer_revisions empty_schema) (downgrade_base volunteer_revisions)) = Inr []"
  by code_simp

lemma volunteer_again:
  "andthen (andthen (upgrade_head volunteer_revisions empty_schema) (downgrade_base volunteer_revisions))
     (upgrade_head volunteer_revisions) = Inl (DuplicateObject ''broadcast_type'')"
  by code_simp

lemma upgrade_head_ok: "upgrade_head revs empty_schema = Inr s \<Longrightarrow> schema_ok s"
  unfolding upgrade_head_def by (rule run_ddls_ok [OF _ empty_schema_ok])

section \<open>The data of \<open>decouple_global_users\<close>\<close>

text \<open>A row of \<open>users\<close> and of \<open>role_assignments\<close> as far as the revision reads and writes them.\<close>

record user_row =
  ur0_id :: uuid
  ur0_tenant_id :: "uuid option"
  ur0_user_type :: "string option"

record role_row =
  ra0_user_id :: uuid
  ra0_tenant_id :: "uuid option"
  ra0_role :: string

text \<open>The \<open>UPDATE\<close> of the upgrade and the two \<open>DELETE\<close> statements of the downgrade; deleting a user deletes
  its role assignments.\<close>

definition backfill_user_type :: "role_row list \<Rightarrow> user_row list \<Rightarrow> user_row list" where
  "backfill_user_type ras us =
     row_upd (\<lambda>u. ur0_user_type u = None)
       (\<lambda>u. u\<lparr>ur0_user_type := Some
          (if list_ex (\<lambda>ra. ra0_user_id ra = ur0_id u \<and> ra0_role ra = ''tenant_admin'') ras then ''TENANT_ADMIN''
           else if list_ex (\<lambda>ra. ra0_user_id ra = ur0_id u \<and> ra0_role ra = ''volunteer'') ras then ''COORDINATOR''
           else ''COORDINATOR'')\<rparr>) us"

definition remove_global_users :: "user_row list \<times> role_row list \<Rightarrow> user_row list \<times> role_row list" where
  "remove_global_users = (\<lambda>(us, ras).
     let ras1 = filter (\<lambda>ra. ra0_tenant_id ra \<noteq> None) ras;
         us1 = filter (\<lambda>u. ur0_tenant_id u \<noteq> None) us
     in (us1, filter (\<lambda>ra. ra0_user_id ra \<notin> ur0_id ` {u \<in> set us. ur0_tenant_id u = None}) ras1))"

text \<open>\<open>ck_users_type_tenancy\<close>.\<close>

definition type_tenancy :: "user_row \<Rightarrow> bool" where
  "type_tenancy u \<longleftrightarrow> (ur0_user_type u \<in> {Some ''TENANT_ADMIN'', Some ''COORDINATOR''}) = (ur0_tenant_id u \<noteq> None)"

section \<open>Properties\<close>

text \<open>Migrations keep the schema well formed: whatever sequence of statements runs without an error,
  names stay unique, enumeration columns keep their types, constraints and indexes stay over existing
  columns, and foreign keys refer to existing keys.\<close>

theorem migrations_keep_schema_ok:
  assumes "run_ddls xs s = Inr s'" "schema_ok s"
  shows "schema_ok s'"
  using assms by (rule run_ddls_ok)

theorem migrations_keep_schema_ok_witness:
  "\<exists>s. run_ddls init_iam_upgrade empty_schema = Inr s \<and> schema_ok s"
proof -
  have "\<not> isl (run_ddls init_iam_upgrade empty_schema)" by code_simp
  then obtain s where "run_ddls init_iam_upgrade empty_schema = Inr s" by (cases "run_ddls init_iam_upgrade empty_schema") auto
  with migrations_keep_schema_ok [OF this empty_schema_ok] show ?thesis by blast
qed

text \<open>C20. What \<open>alembic upgrade head\<close> gives each service: on an empty schema the chain of revisions runs to
  the end without an error and leaves a well-formed schema. For analytics every model of the code agrees
  with it. For the others it lacks exactly the coordinates of the tenants (identity), the tables of alerts
  and donations (logistics) and the table of the victims' requests (volunteer), which the code reads and
  writes.\<close>

theorem migrations_against_models:
  "(\<exists>s. upgrade_head iam_revisions empty_schema = Inr s \<and> schema_ok s \<and>
      schema_diff iam_models s = [Missing_column ''tenants'' ''latitude'', Missing_column ''tenants'' ''longitude'']) \<and>
   (\<exists>s. upgrade_head logistics_revisions empty_schema = Inr s \<and> schema_ok s \<and>
      schema_diff logistics_models s = [Missing_table ''disaster_alerts'', Missing_table ''payment_donations'']) \<and>
   (\<exists>s. upgrade_head volunteer_revisions empty_schema = Inr s \<and> schema_ok s \<and>
      schema_diff volunteer_models s = [Missing_table ''victim_requests'']) \<and>
   (\<exists>s. upgrade_head analytics_revisions empty_schema = Inr s \<and> schema_ok s \<and>
      list_all (model_agrees s) analytics_models)"
proof (intro conjI)
  show "\<exists>s. upgrade_head iam_revisions empty_schema = Inr s \<and> schema_ok s \<and>
      schema_diff iam_models s = [Missing_column ''tenants'' ''latitude'', Missing_column ''tenants'' ''longitude'']"
    using iam_head upgrade_head_ok by (auto split: sum.splits)
  show "\<exists>s. upgrade_head logistics_revisions empty_schema = Inr s \<and> schema_ok s \<and>
      schema_diff logistics_models s = [Missing_table ''disaster_alerts'', Missing_table ''payment_donations'']"
    using logistics_head upgrade_head_ok by (auto split: sum.splits)
  show "\<exists>s. upgrade_head volunteer_revisions empty_schema = Inr s \<and> schema_ok s \<and>
      schema_diff volunteer_models s = [Missing_table ''victim_requests'']"
    using volunteer_head upgrade_head_ok by (auto split: sum.splits)
  show "\<exists>s. upgrade_head analytics_revisions empty_schema = Inr s \<and> schema_ok s \<and>
      list_all (model_agrees s) analytics_models"
    using analytics_head upgrade_head_ok by (auto simp: schema_diff_empty list_all_iff split: sum.splits)
qed


text \<open>The decoupling of the users is sound on the data: on rows of the old schema, all with a tenant and none
  with a type, the upgrade leaves every row with a type and within the tenancy constraint, tenant
  administrators exactly where a role said so, and changes nothing else; the downgrade leaves only rows
  with a tenant in both tables, and no role of a removed user.\<close>

theorem decoupling_data_sound:
  assumes "\<And>u. u \<in> set us \<Longrightarrow> ur0_tenant_id u \<noteq> None \<and> ur0_user_type u = None"
  shows "list_all (\<lambda>u. ur0_user_type u \<noteq> None \<and> type_tenancy u \<and>
      (ur0_user_type u = Some ''TENANT_ADMIN'' \<longleftrightarrow>
        (\<exists>ra \<in> set ras. ra0_user_id ra = ur0_id u \<and> ra0_role ra = ''tenant_admin''))) (backfill_user_type ras us) \<and>
    map (\<lambda>u. (ur0_id u, ur0_tenant_id u)) (backfill_user_type ras us) = map (\<lambda>u. (ur0_id u, ur0_tenant_id u)) us \<and>
    (case remove_global_users (vs, ras) of (vs', ras') \<Rightarrow>
       list_all (\<lambda>u. ur0_tenant_id u \<noteq> None) vs' \<and>
       list_all (\<lambda>ra. ra0_tenant_id ra \<noteq> None \<and>
         (\<forall>u. u \<in> set vs \<and> ur0_id u = ra0_user_id ra \<longrightarrow> ur0_tenant_id u \<noteq> None)) ras')"
proof (intro conjI)
  show "case remove_global_users (vs, ras) of (vs', ras') \<Rightarrow>
       list_all (\<lambda>u. ur0_tenant_id u \<noteq> None) vs' \<and>
       list_all (\<lambda>ra. ra0_tenant_id ra \<noteq> None \<and>
         (\<forall>u. u \<in> set vs \<and> ur0_id u = ra0_user_id ra \<longrightarrow> ur0_tenant_id u \<noteq> None)) ras'"
    by (auto simp: remove_global_users_def list_all_iff image_iff simp del: not_None_eq)
qed (use assms in \<open>auto simp: backfill_user_type_def row_upd_def type_tenancy_def list_all_iff list_ex_iff\<close>)

theorem decoupling_data_sound_witness:
  "map ur0_user_type (backfill_user_type [\<lparr>ra0_user_id = 2, ra0_tenant_id = Some 7, ra0_role = ''tenant_admin''\<rparr>]
     [\<lparr>ur0_id = 2, ur0_tenant_id = Some 7, ur0_user_type = None\<rparr>]) = [Some ''TENANT_ADMIN'']"
proof -
  let ?us = "[\<lparr>ur0_id = 2, ur0_tenant_id = Some 7, ur0_user_type = None\<rparr>]"
  let ?ras = "[\<lparr>ra0_user_id = 2, ra0_tenant_id = Some 7, ra0_role = ''tenant_admin''\<rparr>]"
  have "\<And>u. u \<in> set ?us \<Longrightarrow> ur0_tenant_id u \<noteq> None \<and> ur0_user_type u = None" by simp
  from decoupling_data_sound [OF this, where ras = ?ras] show ?thesis by (simp add: backfill_user_type_def)
qed

end
