(* ===== verification/Spec2Isabelle.thy ===== *)
theory Spec2Isabelle
  imports Workflow Platform_Correct Keys Legacy_Volunteers Operations Ws_Proxy Schema_Correct
begin

text \<open>
  A verification library for the RCP platform, the back end of a disaster-relief coordination system:
  four FastAPI services over PostgreSQL that exchange events through RabbitMQ, behind an API gateway.

  \<^bold>\<open>The parts and how they interact.\<close>
  \<^item> IAM (\<open>services/iam\<close>) owns tenants, users, passwords and refresh tokens; it signs the access tokens
    every other service verifies, and publishes \<open>iam.user.*\<close> and \<open>iam.tenant.*\<close> events.
  \<^item> Logistics (\<open>services/logistics\<close>) owns resource categories with their forms and workflows, stock, help
    requests, dispatch tasks, alerts and donations; it consumes the IAM events into a user replica and
    publishes \<open>logistics.*\<close> events.
  \<^item> Volunteer (\<open>services/volunteer\<close>) owns disaster events, volunteer profiles and the matching of the two;
    it consumes the IAM events and its own declarations.
  \<^item> Analytics (\<open>services/analytics\<close>) projects logistics events into its own tables and reports on them.
  \<^item> The common library (\<open>packages/common\<close>) has token verification, the transactional outbox, metrics, log
    lines and the request context; \<open>packages/clients\<close> has the HTTP client of the processes.
  \<^item> The gateway (\<open>gateway\<close>) limits rates, forwards to the service of the longest matching prefix, reports the
    readiness of the platform and proxies WebSocket sessions to the real-time service.

  \<^bold>\<open>Theories, in the order of import.\<close>
  \<^item> \<open>RCP_Prelude\<close>, \<open>Py_Value\<close>, \<open>Table_Step\<close>: result values, database tables as lists of rows (lookup,
    update, counting, grouping, what a write may change), JSON and the Python operations the code uses.
  \<^item> \<open>Auth\<close> (\<open>rcp_common/auth.py\<close>), \<open>Outbox\<close> (\<open>rcp_common/outbox.py\<close>, \<open>events/relay.py\<close>) and \<open>Messaging\<close>
    (what all consumers share): the locales \<open>idempotent_consumer\<close> and \<open>lww_register\<close> are the contracts of a
    consumer and of a replicated row. They are interpreted on \<open>handle_iam\<close>, \<open>handle_disaster\<close>,
    \<open>handle_user_event\<close>, \<open>handle_analytics\<close>, and on the rows of volunteer profiles, user replicas and
    inventory projections.
  \<^item> \<open>Workers\<close> (\<open>events/relay.py\<close>, \<open>events/consumers/*.py\<close>, \<open>events/consumer.py\<close>): the relay and the consumer
    loops with reconnection and stop event, the message callback, exchanges, queues and bindings.
  \<^item> \<open>Districts\<close>, \<open>Volunteer_Model\<close>, \<open>Matching\<close>, \<open>Matching_Inv\<close>, \<open>Profiles\<close>, \<open>Volunteer\<close>, \<open>Volunteer_Correct\<close>:
    the volunteer service; \<open>vol_step\<close> is its transition system, \<open>vol_inv\<close> its invariant.
  \<^item> \<open>Workflow\<close> (\<open>workflow.py\<close>), \<open>Form_Schema\<close> (\<open>form_schema.py\<close>), \<open>Logistics\<close> (\<open>inventory.py\<close>,
    \<open>requests.py\<close>, \<open>dispatch.py\<close>, \<open>payment.py\<close>), \<open>Logistics_Api\<close> (routes and consumer), \<open>Logistics_Inv\<close>,
    \<open>Logistics_Replica\<close>, \<open>Logistics_Correct\<close>: the logistics service with \<open>lg_step\<close> and \<open>lg_inv\<close>;
    \<open>Legacy_Volunteers\<close>: its deprecated search for volunteers, over a table no code writes, shown equal to
    a filter of the rows of the own tenant.
  \<^item> \<open>IAM\<close> (\<open>auth.py\<close>, \<open>security.py\<close>), \<open>IAM_Api\<close> (\<open>admin.py\<close>, \<open>deps.py\<close>, routes, bootstrap script), \<open>IAM_Inv\<close>,
    \<open>IAM_Correct\<close>: the identity service with \<open>iam_step\<close> and \<open>iam_inv\<close>; \<open>Keys\<close> (\<open>keys.py\<close>, \<open>routes_jwks.py\<close>): its
    signing keys, the key document and base64url.
  \<^item> \<open>Analytics\<close>, \<open>Analytics_Correct\<close> (\<open>consumer.py\<close>, \<open>reporting.py\<close>).
  \<^item> \<open>Account_Events\<close>, \<open>Emissions\<close>, \<open>Platform\<close>, \<open>Platform_Inv\<close>, \<open>Platform_Correct\<close>: the four services, their
    outboxes and the queues of the broker as one transition system \<open>pf_step\<close> with the invariant \<open>pf_inv\<close>; the
    locale \<open>queue_consumer\<close> is what the platform relies on in a consumer, and is interpreted on all four.
  \<^item> \<open>Gateway\<close>, \<open>Gateway_Correct\<close> (\<open>config.py\<close>, \<open>proxy.py\<close>, \<open>ratelimit.py\<close>), \<open>Observability\<close> (\<open>metrics.py\<close>,
    \<open>middleware.py\<close>, \<open>logging.py\<close>), \<open>Operations\<close> (\<open>rcp_clients\<close>, \<open>gateway/app/main.py\<close>, the operational endpoints
    of \<open>services/*/app/main.py\<close>), \<open>Ws_Proxy\<close> (\<open>ws_proxy.py\<close>, with the step relation \<open>ws_step\<close>).
  \<^item> \<open>Migrations\<close>, \<open>Schema_Revisions\<close>, \<open>Schema_Models\<close>, \<open>Schema_Correct\<close>: the statements of every Alembic
    revision, their effect on a schema, and the tables the models of the code expect.
  \<^item> This theory: what spans services.

  \<^bold>\<open>How the model corresponds to the code.\<close> A model class is a record, a table a list of rows in insertion
  order, a service function a function from the database to the database and a result or an exception; an
  exception rolls the transaction back, so the database is then the one before. A route adds the guards
  and the status code of every exception. \<open>uuid4\<close> draws from a counter, the clock is an argument (integer
  microseconds; exact rational seconds in the gateway). One step of a transition system is one committed
  transaction, so row locks and compare-and-set updates appear as atomic steps. The constraints of the
  tables (unique, CHECK, foreign keys, column ranges) are checked by the writes.

  \<^bold>\<open>What the lemmas show.\<close> For every service with state: an invariant of all reachable states (unique keys,
  references, quotas, stock never oversold, live tokens only for enabled accounts). Safety over runs:
  closed requests stay closed, refresh tokens work once, public callers gain no privileges, tenants do not
  touch each other's rows. Functional behaviour on every branch with its status code: acceptance,
  submission, dispatch, status changes, login, password change, forwarding. Validators: accepted workflows
  and forms are well formed, canonical and idempotent, and stored payloads are typed by their form.
  Messaging: at least once and in order out of the outbox, effectively once into every consumer, replicas
  and projections converge in any order of delivery, and the events one service writes are understood by
  the others. The composition: no published event is lost between the outboxes and the consumers, no
  service replicates an account that does not exist, and drained queues leave complete replicas. The
  worker threads end when told to, catch up after an outage and answer every delivery. Tokens signed at
  login verify against the served key document. The gateway: the rate limit, one trace across gateway and
  service, accounts of the requests that agree, readiness of the platform as that of its parts, WebSocket
  frames in order and sessions that end. The database: migrations run, and how far they agree with the
  models and can be undone.

  \<^bold>\<open>Termination and fuel.\<close> The loops of the worker threads run until an event is set and are
  \<open>partial_function (option)\<close>; that they return once it is set, and after how many checks, is proved. Every
  other function is total: the worklist of \<open>reachable_from\<close> ends by a measure on the unvisited states, the chain of
  revisions by the number of revisions left; \<open>drains n\<close> runs the relay \<open>n\<close> times, and a number of drains that
  suffices for a healthy broker is proved. No model uses fuel otherwise. The steps of a WebSocket session
  are bounded by the events of its two sides.

  \<^bold>\<open>Parameters.\<close> The JOSE and the cryptography library, Argon2, SHA-256, the HTTP clients and the network, the
  broker and its topic matching, JSON serialisation, the parsing of ISO dates, the checks of \<open>urlsplit\<close> on
  bracketed addresses, the haversine formula and the PayHere digest are arguments, with what the code relies
  on as hypotheses of the properties that need it.

  \<^bold>\<open>Not modelled.\<close> The Go real-time service (another language); CORS and the documentation routes of the
  framework, thread start, logging handlers and the Alembic environment (library calls without logic of
  their own); the contents of the tables during migrations, but for the decoupling of the users; the
  contract examples, a CI script and infrastructure files; floating-point rounding.
\<close>

section \<open>Properties across services\<close>

text \<open>C17. Every event consumer of the platform processes effectively once: over any sequence of deliveries,
  with duplicates, redeliveries and failures, the deliveries that take effect carry pairwise different
  event ids and they alone determine the final database, for both consumers of the volunteer service, the
  one of the logistics service and the one of the analytics service.\<close>

theorem consumers_effectively_once:
  "deliver_all handle_iam ms v =
     deliver_all handle_iam (effects handle_iam (\<lambda>s. set (processed_events s)) (\<lambda>m. envelope_id (snd m)) ms v) v \<and>
   distinct (map (\<lambda>m. envelope_id (snd m))
     (effects handle_iam (\<lambda>s. set (processed_events s)) (\<lambda>m. envelope_id (snd m)) ms v)) \<and>
   deliver_all handle_disaster ms v =
     deliver_all handle_disaster
       (effects handle_disaster (\<lambda>s. set (processed_events s)) (\<lambda>m. envelope_id (snd m)) ms v) v \<and>
   distinct (map (\<lambda>m. envelope_id (snd m))
     (effects handle_disaster (\<lambda>s. set (processed_events s)) (\<lambda>m. envelope_id (snd m)) ms v)) \<and>
   deliver_all handle_user_event es l =
     deliver_all handle_user_event (effects handle_user_event (\<lambda>s. set (lg_processed s)) envelope_id es l) l \<and>
   distinct (map envelope_id (effects handle_user_event (\<lambda>s. set (lg_processed s)) envelope_id es l)) \<and>
   deliver_all handle_analytics es a =
     deliver_all handle_analytics (effects handle_analytics (\<lambda>s. set (an_processed s)) envelope_id es a) a \<and>
   distinct (map envelope_id (effects handle_analytics (\<lambda>s. set (an_processed s)) envelope_id es a))"
  by (intro conjI vol_iam.deliver_all_effects vol_iam.effects_distinct vol_disaster.deliver_all_effects
      vol_disaster.effects_distinct lg_iam.deliver_all_effects lg_iam.effects_distinct
      an_consumer.deliver_all_effects an_consumer.effects_distinct)

text \<open>A registration reaches the other services: the event a successful mobile registration writes is
  accepted by the consumer of the logistics service, which then holds the account's name, phone, roles and
  active flag, and by the consumer of the volunteer service, which opens a profile with them exactly when
  the account is a volunteer.\<close>

theorem registration_reaches_services:
  assumes "register_global_user cr haversine now d s = (s', Inr u)"
    and "ob_event_id (last (outbox s')) \<notin> set (lg_processed l)" "row_get ur_user_id (us_id u) (replicas l) = None"
    and "ob_event_id (last (outbox s')) \<notin> set (processed_events v)" "row_get vp_user_id (us_id u) (profiles v) = None"
  shows "(\<exists>l' r. handle_user_event (ob_payload (last (outbox s'))) l = Inr l' \<and>
      row_get ur_user_id (us_id u) (replicas l') = Some r \<and> ur_full_name r = us_full_name u \<and> ur_phone r = us_phone u \<and>
      ur_roles r = roles u \<and> ur_is_active r = is_active u \<and> ur_tenant_id r = us_tenant_id u) \<and>
    (\<exists>v'. handle_iam (t, ob_payload (last (outbox s'))) v = Inr v' \<and>
      (case row_get vp_user_id (us_id u) (profiles v') of
         None \<Rightarrow> us_user_type u \<noteq> VOLUNTEER
       | Some p \<Rightarrow> us_user_type u = VOLUNTEER \<and> vp_full_name p = us_full_name u \<and> vp_phone p = us_phone u \<and>
           vp_is_active p = is_active u))"
proof -
  obtain s1 where s1: "s' = iam_emit now ''iam.user.registered'' None (user_registered_payload u) s1" "us_tenant_id u = None"
    using assms(1) by (auto simp: register_global_user_def Let_def split: if_splits sum.splits)
  then have o: "ob_payload (last (outbox s')) =
      account_envelope (next_uuid s1) now ''iam.user.registered'' None (user_registered_payload u)"
    "ob_event_id (last (outbox s')) = next_uuid s1" by (simp_all add: account_envelope_emitted)
  show ?thesis
    using replica_of_registered [of "next_uuid s1" l u now None] profile_of_registered [of "next_uuid s1" v u t now None]
      assms(2-5) s1(2)
    unfolding o by (auto simp: new_replica_def new_profile_def)
qed

definition demo_volunteer_register :: user_register where
  "demo_volunteer_register =
     \<lparr>ug_email = ''v@x'', ug_password = ''0123456789'', ug_full_name = ''Vic'', ug_phone = None,
      ug_user_type = VOLUNTEER, ug_latitude = None, ug_longitude = None\<rparr>"

definition demo_registered :: "iam_db \<times> (iam_error + user)" where
  "demo_registered = register_global_user iam_demo_crypto (\<lambda>_ _ _. Inl ValueError) 30 demo_volunteer_register iam_demo_db"

theorem registration_reaches_services_witness:
  "\<exists>l' r. handle_user_event (ob_payload (last (outbox (fst demo_registered)))) empty_logistics_db = Inr l' \<and>
     row_get ur_user_id 4 (replicas l') = Some r \<and> ur_full_name r = ''Vic'' \<and> ur_is_active r"
proof -
  have "(case demo_registered of (s', Inr u) \<Rightarrow> us_id u = 4 \<and> us_full_name u = ''Vic'' \<and> is_active u | _ \<Rightarrow> False)"
    by code_simp
  then obtain s' u where u: "demo_registered = (s', Inr u)" "us_id u = 4" "us_full_name u = ''Vic''" "is_active u"
    by (auto split: prod.splits sum.splits)
  have "register_global_user iam_demo_crypto (\<lambda>_ _ _. Inl ValueError) 30 demo_volunteer_register iam_demo_db = (s', Inr u)"
    using u(1) by (simp add: demo_registered_def)
  moreover have "lg_processed empty_logistics_db = []" "replicas empty_logistics_db = []"
    "processed_events empty_volunteer_db = []" "profiles empty_volunteer_db = []"
    by (simp_all add: empty_logistics_db_def empty_volunteer_db_def)
  ultimately obtain l' r where "handle_user_event (ob_payload (last (outbox s'))) empty_logistics_db = Inr l'"
    "row_get ur_user_id (us_id u) (replicas l') = Some r" "ur_full_name r = us_full_name u" "ur_is_active r = is_active u"
    using registration_reaches_services [of iam_demo_crypto "\<lambda>_ _ _. Inl ValueError" 30 demo_volunteer_register iam_demo_db s' u
        empty_logistics_db empty_volunteer_db 40] by auto
  then show ?thesis unfolding u(1) using u(2-4) by auto
qed

text \<open>Disabling an account takes effect everywhere: the two events it writes, delivered in either order,
  leave the replica of the logistics service inactive and the profile of the volunteer service inactive and
  unavailable, whatever they held before.\<close>

theorem disabling_reaches_services:
  assumes "set_user_status now uid ''disabled'' s = (s', Some u)" "outbox s' = outbox s @ [o1, o2]"
    and "{ob_event_id o1, ob_event_id o2} \<inter> set (lg_processed l) = {}" "row_get ur_user_id uid (replicas l) = Some r"
    and "{ob_event_id o1, ob_event_id o2} \<inter> set (processed_events v) = {}" "row_get vp_user_id uid (profiles v) = Some p"
    and "ms = [o1, o2] \<or> ms = [o2, o1]"
  shows "(\<exists>r'. row_get ur_user_id uid (replicas (deliver_all handle_user_event (map ob_payload ms) l)) = Some r' \<and>
      \<not> ur_is_active r') \<and>
    (\<exists>p'. row_get vp_user_id uid (profiles (deliver_all handle_iam (map (\<lambda>x. (t, ob_payload x)) ms) v)) = Some p' \<and>
      \<not> vp_is_active p' \<and> \<not> vp_available_status p')"
proof -
  note e = disable_events [OF assms(1,2)]
  have f: "ob_event_id o1 \<notin> set (lg_processed l)" "ob_event_id o2 \<notin> set (lg_processed l)"
    "ob_event_id o1 \<notin> set (processed_events v)" "ob_event_id o2 \<notin> set (processed_events v)"
    using assms(3,5) by auto
  have row: "row_get ur_user_id (us_id u) (replicas l) = Some r" "row_get vp_user_id (us_id u) (profiles v) = Some p"
    using assms(4,6) e(1) by simp_all
  show ?thesis
    using replica_after_disabling [OF f(1,2) e(3,2) row(1) e(4,5), of "map ob_payload ms"]
      profile_after_disabling [OF f(3,4) e(3,2) row(2) e(4,5), of "map (\<lambda>x. (t, ob_payload x)) ms" t] assms(7) e(1)
    by auto
qed

definition demo_disabled :: "iam_db \<times> user option" where
  "demo_disabled = set_user_status 50 4 ''disabled'' (fst demo_registered)"

definition demo_replica_db :: logistics_db where
  "demo_replica_db = empty_logistics_db\<lparr>replicas := [new_replica 4 None 30 (''Vic'', None, [''volunteer''], True)]\<rparr>"

definition demo_profile_db :: volunteer_db where
  "demo_profile_db = empty_volunteer_db\<lparr>profiles := [new_profile 9 4 40 30 (''Vic'', None, True)]\<rparr>"

theorem disabling_reaches_services_witness:
  "\<exists>o1 o2 r'. outbox (fst demo_disabled) = outbox (fst demo_registered) @ [o1, o2] \<and>
     row_get ur_user_id 4 (replicas (deliver_all handle_user_event [ob_payload o2, ob_payload o1] demo_replica_db)) = Some r' \<and>
     \<not> ur_is_active r'"
proof -
  have "(case demo_disabled of (s', Some u) \<Rightarrow> True | _ \<Rightarrow> False)" by code_simp
  then obtain s' u where u: "demo_disabled = (s', Some u)" by (auto split: prod.splits option.splits)
  let ?n = "length (outbox (fst demo_registered))"
  have n: "length (drop ?n (outbox (fst demo_disabled))) = 2"
    "take ?n (outbox (fst demo_disabled)) = outbox (fst demo_registered)" by code_simp+
  from n(1) obtain o1 o2 where "drop ?n (outbox (fst demo_disabled)) = [o1, o2]"
    unfolding numeral_2_eq_2 length_Suc_conv by auto
  then have o: "outbox s' = outbox (fst demo_registered) @ [o1, o2]"
    using n(2) append_take_drop_id [of ?n "outbox s'"] unfolding u by simp
  have l: "lg_processed demo_replica_db = []" "row_get ur_user_id 4 (replicas demo_replica_db) =
      Some (new_replica 4 None 30 (''Vic'', None, [''volunteer''], True))"
    by (simp_all add: demo_replica_db_def empty_logistics_db_def new_replica_def)
  have v: "processed_events demo_profile_db = []" "row_get vp_user_id 4 (profiles demo_profile_db) =
      Some (new_profile 9 4 40 30 (''Vic'', None, True))"
    by (simp_all add: demo_profile_db_def empty_volunteer_db_def new_profile_def)
  have "set_user_status 50 4 ''disabled'' (fst demo_registered) = (s', Some u)" using u by (simp add: demo_disabled_def)
  then obtain r' where "row_get ur_user_id 4 (replicas (deliver_all handle_user_event (map ob_payload [o2, o1]) demo_replica_db)) = Some r'"
    "\<not> ur_is_active r'"
    using disabling_reaches_services [OF _ o _ l(2) _ v(2), of 50 u "[o2, o1]" 60] l(1) v(1) by auto
  then show ?thesis unfolding u using o by (intro exI [of _ o1] exI [of _ o2] exI [of _ r']) simp
qed

end
